theory Spec2Isabelle
  imports
    Main
    "HOL-Library.Char_ord"
    "HOL-Library.List_Lexorder"
    "HOL-Library.Sublist"
    "HOL-Library.AList"
begin

section \<open>The SDK build script \<^verbatim>\<open>build_sdk.py\<close>\<close>

text \<open>
  A shallow embedding of \<^verbatim>\<open>build_sdk.py\<close>. Python \<^verbatim>\<open>str\<close> is \<^typ>\<open>string\<close>
  (compared by character code, as Python compares code points), Python \<^verbatim>\<open>int\<close> is
  \<^typ>\<open>int\<close>, a raised exception is the \<open>Inl\<close> side of a sum. Octal constants of the
  source are written in decimal: \<^verbatim>\<open>0o777 = 511\<close>, \<^verbatim>\<open>0o755 = 493\<close>, \<^verbatim>\<open>0o644 = 420\<close>,
  \<^verbatim>\<open>0o557 = 367\<close>, \<^verbatim>\<open>0o444 = 292\<close>.
\<close>

subsection \<open>Constants and exceptions\<close>

definition NAME :: string where
  "NAME = ''microkit''"

definition VERSION :: string where
  "VERSION = ''1.2.6''"

definition MICROKIT_EPOCH :: int where
  "MICROKIT_EPOCH = 1616367257"

definition TOOLCHAIN_PREFIX :: string where
  "TOOLCHAIN_PREFIX = ''aarch64-none-elf-''"

text \<open>
  The exceptions the script can raise: \<^verbatim>\<open>raise Exception(msg)\<close>, a failed \<^verbatim>\<open>assert\<close>,
  the \<^verbatim>\<open>TypeError\<close> of comparing a \<^verbatim>\<open>bool\<close> with a \<^verbatim>\<open>str\<close> inside \<^verbatim>\<open>sorted\<close>, the
  \<^verbatim>\<open>OSError\<close>s of the file operations (each carrying the rendered path), and the errors
  of \<^verbatim>\<open>relative_to\<close> and \<^verbatim>\<open>expanduser\<close>.
\<close>

datatype error =
    Exception string
  | AssertionError
  | TypeError
  | FileNotFoundError string
  | FileExistsError string
  | NotADirectoryError string
  | IsADirectoryError string
  | PermissionError string
  | SameFileError string
  | ValueError string
  | RuntimeError

subsection \<open>The target catalog\<close>

text \<open>\<^verbatim>\<open>KERNEL_CONFIG_TYPE = Union[bool, str]\<close>: a value is one of the two.\<close>

datatype kernel_config_type = PyBool bool | PyStr string

text \<open>
  A \<^verbatim>\<open>dict\<close> of kernel options is the list of its items in insertion order (what
  \<^verbatim>\<open>.items()\<close> yields); the keys of one dict are distinct.
\<close>

type_synonym kernel_options = "(string \<times> kernel_config_type) list"

record BoardInfo =
  name :: string
  gcc_cpu :: string
  loader_link_address :: int
  kernel_options :: kernel_options
  examples :: "(string \<times> string) list"

record ConfigInfo =
  cname :: string
  debug :: bool
  ckernel_options :: kernel_options

definition std_board :: "string \<Rightarrow> string \<Rightarrow> int \<Rightarrow> kernel_options \<Rightarrow> (string \<times> string) list
    \<Rightarrow> BoardInfo" where
  "std_board n cpu addr opts exs =
     \<lparr>name = n, gcc_cpu = cpu, loader_link_address = addr, kernel_options = opts,
      examples = exs\<rparr>"

definition SUPPORTED_BOARDS :: "BoardInfo list" where
  "SUPPORTED_BOARDS =
    [std_board ''tqma8xqp1gb'' ''cortex-a35'' 0x80280000
       [(''KernelPlatform'', PyStr ''tqma8xqp1gb''), (''KernelIsMCS'', PyBool True),
        (''KernelArmExportPCNTUser'', PyBool True)]
       [(''ethernet'', ''example/tqma8xqp1gb/ethernet'')],
     std_board ''zcu102'' ''cortex-a53'' 0x40000000
       [(''KernelPlatform'', PyStr ''zynqmp''), (''KernelARMPlatform'', PyStr ''zcu102''),
        (''KernelIsMCS'', PyBool True), (''KernelArmExportPCNTUser'', PyBool True)]
       [(''hello'', ''example/zcu102/hello'')],
     std_board ''maaxboard'' ''cortex-a53'' 0x40480000
       [(''KernelPlatform'', PyStr ''maaxboard''), (''KernelIsMCS'', PyBool True),
        (''KernelArmExportPCNTUser'', PyBool True)]
       [(''hello'', ''example/maaxboard/hello'')],
     std_board ''imx8mm_evk'' ''cortex-a53'' 0x41000000
       [(''KernelPlatform'', PyStr ''imx8mm-evk''), (''KernelIsMCS'', PyBool True),
        (''KernelArmExportPCNTUser'', PyBool True)]
       [(''passive_server'', ''example/imx8mm_evk/passive_server'')],
     std_board ''imx8mq_evk'' ''cortex-a53'' 0x41000000
       [(''KernelPlatform'', PyStr ''imx8mq-evk''), (''KernelIsMCS'', PyBool True),
        (''KernelArmExportPCNTUser'', PyBool True)]
       [(''hello'', ''example/imx8mq_evk/hello'')],
     std_board ''odroidc2'' ''cortex-a53'' 0x20000000
       [(''KernelPlatform'', PyStr ''odroidc2''), (''KernelIsMCS'', PyBool True),
        (''KernelArmExportPCNTUser'', PyBool True)]
       [(''hello'', ''example/odroidc2/hello'')],
     std_board ''odroidc4'' ''cortex-a55'' 0x20000000
       [(''KernelPlatform'', PyStr ''odroidc4''), (''KernelIsMCS'', PyBool True),
        (''KernelArmExportPCNTUser'', PyBool True)]
       [(''timer'', ''example/odroidc4/timer'')],
     std_board ''qemu_virt_aarch64'' ''cortex-a53'' 0x70000000
       [(''KernelPlatform'', PyStr ''qemu-arm-virt''), (''KernelIsMCS'', PyBool True),
        (''KernelArmExportPCNTUser'', PyBool True), (''QEMU_MEMORY'', PyStr ''2048'')]
       [(''hello'', ''example/qemu_virt_aarch64/hello'')]]"

definition SUPPORTED_CONFIGS :: "ConfigInfo list" where
  "SUPPORTED_CONFIGS =
    [\<lparr>cname = ''release'', debug = False, ckernel_options = []\<rparr>,
     \<lparr>cname = ''debug'', debug = True,
      ckernel_options =
        [(''KernelDebugBuild'', PyBool True), (''KernelPrinting'', PyBool True),
         (''KernelVerificationBuild'', PyBool False)]\<rparr>]"

subsection \<open>Rendering the kernel options (\<^verbatim>\<open>build_sel4\<close>, lines 270 to 279)\<close>

text \<open>
  Python orders the items, which are \<^verbatim>\<open>(str, value)\<close> tuples, by the first component
  on which they differ (found with \<^verbatim>\<open>==\<close>), compared with \<^verbatim>\<open><\<close>. Two \<^verbatim>\<open>bool\<close>s compare
  with \<^verbatim>\<open>False < True\<close>, two \<^verbatim>\<open>str\<close>s compare lexicographically, and \<^verbatim>\<open>bool < str\<close> in
  either direction raises \<^verbatim>\<open>TypeError\<close>.
\<close>

fun lt_value :: "kernel_config_type \<Rightarrow> kernel_config_type \<Rightarrow> error + bool" where
  "lt_value (PyBool a) (PyBool b) = Inr (a < b)"
| "lt_value (PyStr a) (PyStr b) = Inr (a < b)"
| "lt_value _ _ = Inl TypeError"

fun lt_item :: "string \<times> kernel_config_type \<Rightarrow> string \<times> kernel_config_type \<Rightarrow> error + bool" where
  "lt_item (k1, v1) (k2, v2) =
     (if k1 \<noteq> k2 then Inr (k1 < k2)
      else if v1 \<noteq> v2 then lt_value v1 v2
      else Inr False)"

text \<open>
  \<^verbatim>\<open>sorted\<close> is a stable comparison sort that uses \<^verbatim>\<open><\<close> only and lets the
  exception of a comparison through. It is modelled as the stable insertion sort: an
  item goes before the first item of the sorted rest that is not smaller than it.
\<close>

fun insort_item :: "string \<times> kernel_config_type \<Rightarrow> (string \<times> kernel_config_type) list
    \<Rightarrow> error + (string \<times> kernel_config_type) list" where
  "insort_item x [] = Inr [x]"
| "insort_item x (y # ys) =
     (case lt_item y x of
        Inl e \<Rightarrow> Inl e
      | Inr False \<Rightarrow> Inr (x # y # ys)
      | Inr True \<Rightarrow>
          (case insort_item x ys of Inl e \<Rightarrow> Inl e | Inr zs \<Rightarrow> Inr (y # zs)))"

fun sorted_items :: "(string \<times> kernel_config_type) list
    \<Rightarrow> error + (string \<times> kernel_config_type) list" where
  "sorted_items [] = Inr []"
| "sorted_items (x # xs) =
     (case sorted_items xs of Inl e \<Rightarrow> Inl e | Inr ys \<Rightarrow> insort_item x ys)"

text \<open>\<^verbatim>\<open>" ".join(strs)\<close>\<close>

fun join :: "string \<Rightarrow> string list \<Rightarrow> string" where
  "join sep [] = []"
| "join sep [s] = s"
| "join sep (s # t # ts) = s @ sep @ join sep (t # ts)"

text \<open>The body of the \<^verbatim>\<open>for arg, val in sorted(config_args)\<close> loop.\<close>

fun str_val :: "kernel_config_type \<Rightarrow> string" where
  "str_val (PyBool val) = (if val then ''ON'' else ''OFF'')"
| "str_val (PyStr val) = val"

definition config_flag :: "string \<times> kernel_config_type \<Rightarrow> string" where
  "config_flag = (\<lambda>(arg, val). ''-D'' @ arg @ ''='' @ str_val val)"

text \<open>
  \<^verbatim>\<open>config_args\<close>: the items of the board's options followed by the items of the
  config's options, with no merging; \<^verbatim>\<open>config_strs\<close>: the flags of the sorted items;
  \<^verbatim>\<open>config_str\<close>: the flags joined by one space.
\<close>

definition config_args :: "BoardInfo \<Rightarrow> ConfigInfo \<Rightarrow> (string \<times> kernel_config_type) list" where
  "config_args board config = kernel_options board @ ckernel_options config"

definition config_strs :: "BoardInfo \<Rightarrow> ConfigInfo \<Rightarrow> error + string list" where
  "config_strs board config =
     (case sorted_items (config_args board config) of
        Inl e \<Rightarrow> Inl e
      | Inr items \<Rightarrow> Inr (map config_flag items))"

definition config_str :: "BoardInfo \<Rightarrow> ConfigInfo \<Rightarrow> error + string" where
  "config_str board config =
     (case config_strs board config of
        Inl e \<Rightarrow> Inl e
      | Inr strs \<Rightarrow> Inr (join '' '' strs))"

subsection \<open>\<^verbatim>\<open>tar_filter\<close>\<close>

text \<open>
  The fields of \<^verbatim>\<open>tarfile.TarInfo\<close>. The entry type is the header's type byte:
  \<^verbatim>\<open>isfile()\<close> holds for \<^verbatim>\<open>REGTYPE\<close>, \<^verbatim>\<open>AREGTYPE\<close> and \<^verbatim>\<open>CONTTYPE\<close>, \<^verbatim>\<open>isdir()\<close> for
  \<^verbatim>\<open>DIRTYPE\<close>; symbolic links, devices and fifos have other type bytes.
\<close>

record TarInfo =
  tname :: string
  mode :: int
  uid :: int
  gid :: int
  size :: int
  mtime :: int
  chksum :: int
  type :: char
  linkname :: string
  uname :: string
  gname :: string
  devmajor :: int
  devminor :: int
  pax_headers :: "(string \<times> string) list"

definition REGTYPE :: char where "REGTYPE = CHR ''0''"
definition AREGTYPE :: char where "AREGTYPE = CHR 0x00"
definition SYMTYPE :: char where "SYMTYPE = CHR ''2''"
definition DIRTYPE :: char where "DIRTYPE = CHR ''5''"
definition FIFOTYPE :: char where "FIFOTYPE = CHR ''6''"
definition CONTTYPE :: char where "CONTTYPE = CHR ''7''"

definition isfile :: "TarInfo \<Rightarrow> bool" where
  "isfile tarinfo = (type tarinfo \<in> {REGTYPE, AREGTYPE, CONTTYPE})"

definition isdir :: "TarInfo \<Rightarrow> bool" where
  "isdir tarinfo = (type tarinfo = DIRTYPE)"

text \<open>
  \<^verbatim>\<open>mode & ~0o777 | 0o557\<close> on Python's unbounded integers: \<^verbatim>\<open>&\<close> binds tighter than
  \<^verbatim>\<open>|\<close>.
\<close>

definition set_perm :: "int \<Rightarrow> int \<Rightarrow> int" where
  "set_perm m bits = or (and m (not 511)) bits"

definition tar_filter :: "TarInfo \<Rightarrow> error + TarInfo" where
  "tar_filter tarinfo =
     (let tarinfo = tarinfo\<lparr>uid := 0, gid := 0\<rparr>;
          tarinfo = tarinfo\<lparr>uname := ''microkit'', gname := ''microkit''\<rparr>;
          tarinfo = tarinfo\<lparr>pax_headers := []\<rparr>;
          tarinfo = tarinfo\<lparr>mtime := MICROKIT_EPOCH\<rparr>
      in if \<not> (isfile tarinfo \<or> isdir tarinfo) then Inl AssertionError
         else
           let tarinfo =
                 (if isdir tarinfo then tarinfo\<lparr>mode := set_perm (mode tarinfo) 367\<rparr>
                  else tarinfo);
               tarinfo =
                 (if isfile tarinfo then
                    (if sublist ''/bin/'' (tname tarinfo)
                     then tarinfo\<lparr>mode := set_perm (mode tarinfo) 493\<rparr>
                     else tarinfo\<lparr>mode := set_perm (mode tarinfo) 420\<rparr>)
                  else tarinfo)
           in Inr tarinfo)"

subsection \<open>\<^verbatim>\<open>get_tool_target_triple\<close>\<close>

text \<open>
  The two arguments are what \<^verbatim>\<open>platform.system()\<close> and \<^verbatim>\<open>platform.machine()\<close> return
  on the host.
\<close>

definition get_tool_target_triple :: "string \<Rightarrow> string \<Rightarrow> error + string" where
  "get_tool_target_triple host_system host_arch =
     (if host_system = ''Linux'' then Inr ''x86_64-unknown-linux-musl''
      else if host_system = ''Darwin'' then
        (if host_arch = ''x86_64'' then Inr ''x86_64-apple-darwin''
         else if host_arch = ''arm64'' then Inr ''aarch64-apple-darwin''
         else Inl (Exception (''Unexpected Darwin architecture: '' @ host_arch)))
      else Inl (Exception (''The platform \"'' @ host_system @ ''\" is not supported'')))"

definition item_le :: "string \<times> kernel_config_type \<Rightarrow> string \<times> kernel_config_type \<Rightarrow> bool" where
  "item_le a b = (lt_item b a = Inr False)"

definition collide_board :: BoardInfo where
  "collide_board = std_board ''zcu102'' ''cortex-a53'' 0x40000000
       [(''KernelPlatform'', PyStr ''zcu102''), (''KernelIsMCS'', PyBool True)] []"

definition collide_config :: ConfigInfo where
  "collide_config = \<lparr>cname = ''debug'', debug = True,
      ckernel_options = [(''KernelIsMCS'', PyBool False)]\<rparr>"

definition example_entry :: TarInfo where
  "example_entry =
     \<lparr>tname = ''microkit-sdk-1.2.6/bin/microkit'', mode = 511, uid = 1000, gid = 100,
      size = 4096, mtime = 1700000000, chksum = 0, type = REGTYPE, linkname = [],
      uname = ''builder'', gname = ''users'', devmajor = 0, devminor = 0,
      pax_headers = [(''comment'', ''host'')]\<rparr>"

subsection \<open>Paths (\<^verbatim>\<open>pathlib\<close> on a POSIX host)\<close>

text \<open>
  A path is its root (none, \<^verbatim>\<open>/\<close>, or the \<^verbatim>\<open>//\<close> that POSIX keeps apart) and its
  components. \<^verbatim>\<open>Path(s)\<close> splits \<open>s\<close> at the slashes and drops empty and \<^verbatim>\<open>.\<close>
  components; \<^verbatim>\<open>..\<close> is kept as a component and is not resolved.
\<close>

datatype anchor = Relative | Root | DoubleRoot

datatype path = Path (anchor: anchor) (segs: "string list")

fun split_on :: "char \<Rightarrow> string \<Rightarrow> string list" where
  "split_on c [] = [[]]"
| "split_on c (x # xs) =
     (if x = c then [] # split_on c xs
      else (case split_on c xs of [] \<Rightarrow> [[x]] | y # ys \<Rightarrow> (x # y) # ys))"

definition PurePath :: "string \<Rightarrow> path" where
  "PurePath s =
     Path (if prefix ''//'' s \<and> \<not> prefix ''///'' s then DoubleRoot
           else if prefix ''/'' s then Root else Relative)
          (filter (\<lambda>x. x \<noteq> [] \<and> x \<noteq> ''.'') (split_on CHR ''/'' s))"

text \<open>\<^verbatim>\<open>p / q\<close>: a rooted right operand replaces the left one.\<close>

definition join_path :: "path \<Rightarrow> path \<Rightarrow> path" where
  "join_path p q = (if anchor q \<noteq> Relative then q else Path (anchor p) (segs p @ segs q))"

definition pjoin :: "path \<Rightarrow> string \<Rightarrow> path" where
  "pjoin p s = join_path p (PurePath s)"

text \<open>\<^verbatim>\<open>str(p)\<close>, which is what an f-string renders.\<close>

definition str_path :: "path \<Rightarrow> string" where
  "str_path p =
     (case anchor p of
        Relative \<Rightarrow> (if segs p = [] then ''.'' else join ''/'' (segs p))
      | Root \<Rightarrow> ''/'' @ join ''/'' (segs p)
      | DoubleRoot \<Rightarrow> ''//'' @ join ''/'' (segs p))"

definition parent :: "path \<Rightarrow> path" where
  "parent p = Path (anchor p) (butlast (segs p))"

text \<open>\<^verbatim>\<open>os.path.basename(str(p))\<close>\<close>

definition basename :: "path \<Rightarrow> string" where
  "basename p =
     (if segs p = [] then (if anchor p = Relative then ''.'' else []) else last (segs p))"

text \<open>\<^verbatim>\<open>p.absolute()\<close>: the working directory is put in front of a relative path.\<close>

definition absolute :: "path \<Rightarrow> path \<Rightarrow> path" where
  "absolute wd p = (if anchor p \<noteq> Relative then p else join_path wd p)"

subsection \<open>The file system, the trace and the host\<close>

text \<open>
  A file system maps absolute paths to nodes: a regular file with its content and
  permission bits, or a directory (the script never reads or sets a directory's mode on
  purpose). There are no symbolic links, and the script's user is taken to own every file
  and not to be the superuser, so that a file is writable when its owner write bit
  (\<^verbatim>\<open>0o200\<close>) is set. The root directory always exists.

  The state also records, in order, every file operation of the script that returned
  normally and every external command with its exit status. The trace is what the
  properties about the order of operations are stated on.
\<close>

datatype node = File (content: string) (perm: int) | Dir

type_synonym filesystem = "(path \<times> node) list"

datatype event =
    Mkdir path
  | Unlink path
  | Copy path path
  | Chmod path int
  | System string int

record state =
  fs :: filesystem
  log :: "event list"

text \<open>
  What the script takes from its host: \<^verbatim>\<open>platform.system()\<close>, \<^verbatim>\<open>platform.machine()\<close>,
  \<^verbatim>\<open>sys.executable\<close>, the working directory, the home directories \<^verbatim>\<open>expanduser\<close> looks
  up, and what an external command does: \<open>os_system env cmd s\<close> is the status
  \<^verbatim>\<open>os.system(cmd)\<close> returns in state \<open>s\<close> and the file system it leaves behind.
\<close>

record env =
  host_system :: string
  host_machine :: string
  executable :: string
  cwd :: path
  gethomedir :: "string \<Rightarrow> string option"
  os_system :: "string \<Rightarrow> state \<Rightarrow> int \<times> filesystem"

type_synonym 'a prog = "state \<Rightarrow> (error + 'a) \<times> state"

definition return :: "'a \<Rightarrow> 'a prog" where
  "return x = (\<lambda>s. (Inr x, s))"

definition raise :: "error \<Rightarrow> 'a prog" where
  "raise e = (\<lambda>s. (Inl e, s))"

definition bind :: "'a prog \<Rightarrow> ('a \<Rightarrow> 'b prog) \<Rightarrow> 'b prog" where
  "bind m k = (\<lambda>s. case m s of (Inl e, s') \<Rightarrow> (Inl e, s') | (Inr x, s') \<Rightarrow> k x s')"

definition lift :: "error + 'a \<Rightarrow> 'a prog" where
  "lift r = (case r of Inl e \<Rightarrow> raise e | Inr x \<Rightarrow> return x)"

text \<open>\<^verbatim>\<open>assert cond\<close>\<close>

definition assert :: "bool \<Rightarrow> unit prog" where
  "assert cond = (if cond then return () else raise AssertionError)"

text \<open>\<^verbatim>\<open>for x in xs: body\<close>\<close>

fun for_each :: "'a list \<Rightarrow> ('a \<Rightarrow> unit prog) \<Rightarrow> unit prog" where
  "for_each [] body = return ()"
| "for_each (x # xs) body = bind (body x) (\<lambda>_. for_each xs body)"

subsection \<open>File operations\<close>

definition node_at :: "filesystem \<Rightarrow> path \<Rightarrow> node option" where
  "node_at f p = (if segs p = [] then Some Dir else map_of f p)"

definition is_regular :: "node option \<Rightarrow> bool" where
  "is_regular n = (case n of Some (File _ _) \<Rightarrow> True | _ \<Rightarrow> False)"

text \<open>A path with a regular file among its proper ancestors cannot be resolved.\<close>

definition blocked :: "filesystem \<Rightarrow> path \<Rightarrow> bool" where
  "blocked f p =
     list_ex (\<lambda>n. is_regular (node_at f (Path (anchor p) (take n (segs p)))))
       [0..<length (segs p)]"

text \<open>\<^verbatim>\<open>os.stat\<close>\<close>

definition stat :: "env \<Rightarrow> state \<Rightarrow> path \<Rightarrow> error + node" where
  "stat env s p =
     (let a = absolute (cwd env) p
      in if blocked (fs s) a then Inl (NotADirectoryError (str_path p))
         else (case node_at (fs s) a of
                 None \<Rightarrow> Inl (FileNotFoundError (str_path p))
               | Some n \<Rightarrow> Inr n))"

text \<open>\<^verbatim>\<open>p.exists()\<close> and \<^verbatim>\<open>p.is_file()\<close> answer \<^verbatim>\<open>False\<close> when the path cannot be resolved.\<close>

definition exists :: "env \<Rightarrow> path \<Rightarrow> bool prog" where
  "exists env p = (\<lambda>s. (Inr (case stat env s p of Inr _ \<Rightarrow> True | Inl _ \<Rightarrow> False), s))"

definition is_file :: "env \<Rightarrow> path \<Rightarrow> bool prog" where
  "is_file env p =
     (\<lambda>s. (Inr (case stat env s p of Inr (File _ _) \<Rightarrow> True | _ \<Rightarrow> False), s))"

text \<open>
  \<^verbatim>\<open>p.mkdir(exist_ok=True, parents=True)\<close>: every missing directory from the root down
  to \<open>p\<close> is created; a directory already there is left alone; a regular file at \<open>p\<close> or
  above it is an error.
\<close>

definition make_dirs :: "path \<Rightarrow> filesystem \<Rightarrow> filesystem" where
  "make_dirs a f =
     fold (\<lambda>n f. let d = Path (anchor a) (take n (segs a))
                  in if node_at f d = None then AList.update d Dir f else f)
          [1..<Suc (length (segs a))] f"

definition mkdir :: "env \<Rightarrow> path \<Rightarrow> unit prog" where
  "mkdir env p =
     (\<lambda>s. let a = absolute (cwd env) p
           in if blocked (fs s) a then (Inl (NotADirectoryError (str_path p)), s)
              else if is_regular (node_at (fs s) a) then (Inl (FileExistsError (str_path p)), s)
              else (Inr (), s\<lparr>fs := make_dirs a (fs s), log := log s @ [Mkdir p]\<rparr>))"

text \<open>
  \<^verbatim>\<open>p.unlink(missing_ok=True)\<close>: a missing file is not an error; a directory is (the
  error Linux reports is used).
\<close>

definition unlink :: "env \<Rightarrow> path \<Rightarrow> unit prog" where
  "unlink env p =
     (\<lambda>s. case stat env s p of
             Inl (FileNotFoundError _) \<Rightarrow> (Inr (), s\<lparr>log := log s @ [Unlink p]\<rparr>)
           | Inl e \<Rightarrow> (Inl e, s)
           | Inr Dir \<Rightarrow> (Inl (IsADirectoryError (str_path p)), s)
           | Inr (File _ _) \<Rightarrow>
               (Inr (), s\<lparr>fs := AList.delete (absolute (cwd env) p) (fs s),
                           log := log s @ [Unlink p]\<rparr>))"

text \<open>\<^verbatim>\<open>p.chmod(mode)\<close>\<close>

definition chmod :: "env \<Rightarrow> path \<Rightarrow> int \<Rightarrow> unit prog" where
  "chmod env p m =
     (\<lambda>s. case stat env s p of
             Inl e \<Rightarrow> (Inl e, s)
           | Inr Dir \<Rightarrow> (Inr (), s\<lparr>log := log s @ [Chmod p m]\<rparr>)
           | Inr (File c _) \<Rightarrow>
               (Inr (), s\<lparr>fs := AList.update (absolute (cwd env) p) (File c m) (fs s),
                           log := log s @ [Chmod p m]\<rparr>))"

text \<open>
  \<^verbatim>\<open>shutil.copy(src, dst)\<close>: when \<open>dst\<close> is a directory the file goes into it under the
  source's base name. The source must be a regular file other than the destination; the
  destination is created in an existing directory, or overwritten if it is a writable
  file. The copy has the content and the permission bits of the source. The event
  records the destination that was written.
\<close>

definition writable :: "int \<Rightarrow> bool" where
  "writable m = bit m 7"

definition copy :: "env \<Rightarrow> path \<Rightarrow> path \<Rightarrow> unit prog" where
  "copy env src dst =
     (\<lambda>s. let dst = (case stat env s dst of Inr Dir \<Rightarrow> pjoin dst (basename src) | _ \<Rightarrow> dst);
               a = absolute (cwd env) src;
               b = absolute (cwd env) dst;
               written = (\<lambda>c m. (Inr (), s\<lparr>fs := AList.update b (File c m) (fs s),
                                             log := log s @ [Copy src dst]\<rparr>))
           in case stat env s src of
                Inl e \<Rightarrow> (Inl e, s)
              | Inr Dir \<Rightarrow> (Inl (IsADirectoryError (str_path src)), s)
              | Inr (File c m) \<Rightarrow>
                  if a = b then (Inl (SameFileError (str_path src)), s)
                  else (case stat env s dst of
                          Inr Dir \<Rightarrow> (Inl (IsADirectoryError (str_path dst)), s)
                        | Inr (File _ m') \<Rightarrow>
                            if writable m' then written c m
                            else (Inl (PermissionError (str_path dst)), s)
                        | Inl (FileNotFoundError _) \<Rightarrow>
                            (case stat env s (parent dst) of
                               Inr Dir \<Rightarrow> written c m
                             | _ \<Rightarrow> (Inl (FileNotFoundError (str_path dst)), s))
                        | Inl e \<Rightarrow> (Inl e, s)))"

text \<open>
  \<^verbatim>\<open>p.rglob("*")\<close>: every entry strictly below the directory \<open>p\<close>, as \<open>p\<close> joined with
  the entry's relative path; nothing if \<open>p\<close> is not a directory. The entries are listed
  when the loop starts, in the order the file system holds them.
\<close>

definition rglob :: "env \<Rightarrow> path \<Rightarrow> path list prog" where
  "rglob env p =
     (\<lambda>s. let a = absolute (cwd env) p
           in (Inr (case stat env s p of
                      Inr Dir \<Rightarrow>
                        [Path (anchor p) (segs p @ drop (length (segs a)) (segs q)).
                           q \<leftarrow> remdups (map fst (fs s)),
                           anchor q = anchor a \<and> strict_prefix (segs a) (segs q)]
                    | _ \<Rightarrow> []), s))"

text \<open>\<^verbatim>\<open>p.relative_to(base)\<close>\<close>

definition relative_to :: "path \<Rightarrow> path \<Rightarrow> error + path" where
  "relative_to p base =
     (if anchor p = anchor base \<and> prefix (segs base) (segs p)
      then Inr (Path Relative (drop (length (segs base)) (segs p)))
      else Inl (ValueError (str_path p)))"

text \<open>\<^verbatim>\<open>p.expanduser()\<close>\<close>

definition expanduser :: "env \<Rightarrow> path \<Rightarrow> error + path" where
  "expanduser env p =
     (if anchor p = Relative \<and> segs p \<noteq> [] \<and> take 1 (hd (segs p)) = ''~'' then
        (case gethomedir env (drop 1 (hd (segs p))) of
           None \<Rightarrow> Inl RuntimeError
         | Some home \<Rightarrow> Inr (join_path (PurePath home) (Path Relative (tl (segs p)))))
      else Inr p)"

text \<open>\<^verbatim>\<open>os.system(cmd)\<close>\<close>

definition system :: "env \<Rightarrow> string \<Rightarrow> int prog" where
  "system env cmd =
     (\<lambda>s. let (r, f) = os_system env cmd s
           in (Inr r, \<lparr>fs = f, log = log s @ [System cmd r]\<rparr>))"

text \<open>\<^verbatim>\<open>hex(n)\<close>\<close>

function hex_digits :: "int \<Rightarrow> string" where
  "hex_digits n =
     (if n < 16 then [''0123456789abcdef'' ! nat n]
      else hex_digits (n div 16) @ [''0123456789abcdef'' ! nat (n mod 16)])"
  by pat_completeness auto
termination
  by (relation "measure nat") auto

definition hex :: "int \<Rightarrow> string" where
  "hex n = (if n < 0 then ''-0x'' @ hex_digits (- n) else ''0x'' @ hex_digits n)"

subsection \<open>The build stages\<close>

text \<open>\<^verbatim>\<open>p / a / b / c\<close>\<close>

definition pjoins :: "path \<Rightarrow> string list \<Rightarrow> path" where
  "pjoins p xs = foldl pjoin p xs"

text \<open>\<^verbatim>\<open>ENV_BIN_DIR = Path(executable).parent\<close>\<close>

definition ENV_BIN_DIR :: "env \<Rightarrow> path" where
  "ENV_BIN_DIR env = parent (PurePath (executable env))"

definition test_tool :: "env \<Rightarrow> unit prog" where
  "test_tool env =
     bind (system env (executable env @ '' -m unittest discover -s tool -v'')) (\<lambda>r.
     assert (r = 0))"

definition build_tool :: "env \<Rightarrow> path \<Rightarrow> string \<Rightarrow> unit prog" where
  "build_tool env tool_target target_triple =
     (let pyoxidizer = pjoin (ENV_BIN_DIR env) ''pyoxidizer''
      in bind (exists env pyoxidizer) (\<lambda>found.
         if \<not> found then
           raise (Exception
             ''pyoxidizer does not appear to be installed in your Python environment'')
         else
           bind (system env (str_path pyoxidizer
                   @ '' build --release --path tool --target-triple '' @ target_triple)) (\<lambda>r.
           bind (assert (r = 0)) (\<lambda>_.
           let tool_output = ''./tool/build/'' @ target_triple @ ''/release/install/microkit''
           in bind (system env (''strip '' @ tool_output)) (\<lambda>r.
              bind (assert (r = 0)) (\<lambda>_.
              bind (copy env (PurePath tool_output) tool_target) (\<lambda>_.
              chmod env tool_target 511)))))))"

text \<open>
  The loop that stages a tree occurs four times in the source with the same body (the
  kernel headers in \<^verbatim>\<open>build_sel4\<close>, the library headers in \<^verbatim>\<open>build_lib_component\<close>, the
  licenses and the examples in \<^verbatim>\<open>main\<close>):
  \<^verbatim>\<open>
  for p in source_dir.rglob("*"):
      if not p.is_file():
          continue
      rel = p.relative_to(source_dir)
      dest = include_dir / rel
      dest.parent.mkdir(exist_ok=True, parents=True)
      dest.unlink(missing_ok=True)
      copy(p, dest)
      dest.chmod(0o444)
  \<close>
\<close>

definition copy_tree :: "env \<Rightarrow> path \<Rightarrow> path \<Rightarrow> unit prog" where
  "copy_tree env source_dir include_dir =
     bind (rglob env source_dir) (\<lambda>ps.
     for_each ps (\<lambda>p.
       bind (is_file env p) (\<lambda>regular.
       if \<not> regular then return ()
       else
         bind (lift (relative_to p source_dir)) (\<lambda>rel.
         let dest = join_path include_dir rel
         in bind (mkdir env (parent dest)) (\<lambda>_.
            bind (unlink env dest) (\<lambda>_.
            bind (copy env p dest) (\<lambda>_.
            chmod env dest 292)))))))"

text \<open>
  \<^verbatim>\<open>build_sel4\<close>. The \<^verbatim>\<open>print\<close> of the arguments is left out. The three commands are
  the strings the f-strings of the source build.
\<close>

definition sel4_configure_cmd :: "env \<Rightarrow> path \<Rightarrow> path \<Rightarrow> path \<Rightarrow> string \<Rightarrow> string" where
  "sel4_configure_cmd env sel4_dir sel4_install_dir sel4_build_dir flags =
     ''cmake -GNinja -DCMAKE_INSTALL_PREFIX='' @ str_path (absolute (cwd env) sel4_install_dir)
       @ '' '' @ '' -DPYTHON3='' @ executable env @ '' ''
       @ '' -DCROSS_COMPILER_PREFIX='' @ TOOLCHAIN_PREFIX
       @ '' '' @ flags @ '' ''
       @ ''-S '' @ str_path (absolute (cwd env) sel4_dir)
       @ '' -B '' @ str_path (absolute (cwd env) sel4_build_dir)"

definition build_sel4 :: "env \<Rightarrow> path \<Rightarrow> path \<Rightarrow> path \<Rightarrow> BoardInfo \<Rightarrow> ConfigInfo \<Rightarrow> unit prog" where
  "build_sel4 env sel4_dir root_dir build_dir board config =
     (let build_dir = pjoins build_dir [name board, cname config, ''sel4'']
      in bind (mkdir env build_dir) (\<lambda>_.
         let sel4_install_dir = pjoin build_dir ''install'';
             sel4_build_dir = pjoin build_dir ''build''
         in bind (mkdir env sel4_install_dir) (\<lambda>_.
            bind (mkdir env sel4_build_dir) (\<lambda>_.
            bind (lift (config_str board config)) (\<lambda>config_str.
            let cmd = sel4_configure_cmd env sel4_dir sel4_install_dir sel4_build_dir config_str
            in bind (system env cmd) (\<lambda>r.
               if r \<noteq> 0 then raise (Exception (''Error configuring sel4: cmd='' @ cmd))
               else
                 let cmd = ''cmake --build '' @ str_path (absolute (cwd env) sel4_build_dir)
                 in bind (system env cmd) (\<lambda>r.
                    if r \<noteq> 0 then raise (Exception (''Error building sel4: cmd='' @ cmd))
                    else
                      let cmd = ''cmake --install ''
                                  @ str_path (absolute (cwd env) sel4_build_dir)
                      in bind (system env cmd) (\<lambda>r.
                         if r \<noteq> 0 then
                           raise (Exception (''Error installing sel4: cmd='' @ cmd))
                         else
                           let elf = pjoins sel4_install_dir [''bin'', ''kernel.elf''];
                               dest = pjoins root_dir
                                 [''board'', name board, cname config, ''elf'', ''sel4.elf'']
                           in bind (unlink env dest) (\<lambda>_.
                              bind (copy env elf dest) (\<lambda>_.
                              bind (chmod env dest 292) (\<lambda>_.
                              let include_dir = pjoins root_dir
                                    [''board'', name board, cname config, ''include'']
                              in for_each
                                   [''kernel_Config'', ''libsel4'', ''libsel4/sel4_Config'',
                                    ''libsel4/autoconf'']
                                   (\<lambda>source.
                                      let source_dir =
                                            pjoin (pjoin sel4_install_dir source) ''include''
                                      in copy_tree env source_dir include_dir))))))))))))"

text \<open>\<^verbatim>\<open>" ".join(f"{k}={v}" for k, v in defines)\<close>\<close>

definition defines_str :: "(string \<times> string) list \<Rightarrow> string" where
  "defines_str defines = join '' '' (map (\<lambda>(k, v). k @ ''='' @ v) defines)"

definition build_elf_component ::
    "env \<Rightarrow> string \<Rightarrow> path \<Rightarrow> path \<Rightarrow> BoardInfo \<Rightarrow> ConfigInfo \<Rightarrow> (string \<times> string) list
      \<Rightarrow> unit prog" where
  "build_elf_component env component_name root_dir build_dir board config defines =
     (let sel4_dir = pjoins root_dir [''board'', name board, cname config];
          build_dir = pjoins build_dir [name board, cname config, component_name]
      in bind (mkdir env build_dir) (\<lambda>_.
         bind (system env
                 (''BOARD='' @ name board
                  @ '' BUILD_DIR='' @ str_path (absolute (cwd env) build_dir)
                  @ '' GCC_CPU='' @ gcc_cpu board
                  @ '' SEL4_SDK='' @ str_path (absolute (cwd env) sel4_dir)
                  @ '' '' @ defines_str defines
                  @ '' make  -C '' @ component_name)) (\<lambda>r.
         if r \<noteq> 0 then
           raise (Exception (''Error building: '' @ component_name @ '' for board: ''
                    @ name board @ '' config: '' @ cname config))
         else
           let elf = pjoin build_dir (component_name @ ''.elf'');
               dest = pjoins root_dir
                 [''board'', name board, cname config, ''elf'', component_name @ ''.elf'']
           in bind (unlink env dest) (\<lambda>_.
              bind (copy env elf dest) (\<lambda>_.
              chmod env dest 292)))))"

definition build_doc :: "env \<Rightarrow> path \<Rightarrow> unit prog" where
  "build_doc env root_dir =
     (let output = pjoins root_dir [''doc'', ''microkit_user_manual.pdf'']
      in bind (system env (''pandoc docs/manual.md -o '' @ str_path output)) (\<lambda>r.
         assert (r = 0)))"

definition build_lib_component ::
    "env \<Rightarrow> string \<Rightarrow> path \<Rightarrow> path \<Rightarrow> BoardInfo \<Rightarrow> ConfigInfo \<Rightarrow> unit prog" where
  "build_lib_component env component_name root_dir build_dir board config =
     (let sel4_dir = pjoins root_dir [''board'', name board, cname config];
          build_dir = pjoins build_dir [name board, cname config, component_name]
      in bind (mkdir env build_dir) (\<lambda>_.
         bind (system env
                 (''BUILD_DIR='' @ str_path (absolute (cwd env) build_dir)
                  @ '' GCC_CPU='' @ gcc_cpu board
                  @ '' SEL4_SDK='' @ str_path (absolute (cwd env) sel4_dir)
                  @ '' make -C '' @ component_name)) (\<lambda>r.
         if r \<noteq> 0 then
           raise (Exception (''Error building: '' @ component_name @ '' for board: ''
                    @ name board @ '' config: '' @ cname config))
         else
           let lib = pjoin build_dir (component_name @ ''.a'');
               lib_dir = pjoins root_dir [''board'', name board, cname config, ''lib''];
               dest = pjoin lib_dir (component_name @ ''.a'')
           in bind (unlink env dest) (\<lambda>_.
              bind (copy env lib dest) (\<lambda>_.
              bind (chmod env dest 292) (\<lambda>_.
              let link_script = pjoin (PurePath component_name) ''microkit.ld'';
                  dest = pjoin lib_dir ''microkit.ld''
              in bind (unlink env dest) (\<lambda>_.
                 bind (copy env link_script dest) (\<lambda>_.
                 bind (chmod env dest 292) (\<lambda>_.
                 let include_dir = pjoins root_dir
                       [''board'', name board, cname config, ''include''];
                     source_dir = pjoin (PurePath component_name) ''include''
                 in copy_tree env source_dir include_dir)))))))))"

subsection \<open>\<^verbatim>\<open>main\<close>\<close>

text \<open>
  The parsed command line: the \<^verbatim>\<open>--sel4\<close> argument, and the \<^verbatim>\<open>--tool-target-triple\<close>
  argument if one was given.
\<close>

record args =
  sel4 :: string
  tool_target_triple :: "string option"

text \<open>
  The three paths \<^verbatim>\<open>main\<close> computes from \<^verbatim>\<open>NAME\<close> and \<^verbatim>\<open>VERSION\<close>. The source assigns
  \<^verbatim>\<open>tar_file\<close> and \<^verbatim>\<open>source_tar_file\<close> and never uses them again.
\<close>

definition main_root_dir :: path where
  "main_root_dir = pjoin (PurePath ''release'') (NAME @ ''-sdk-'' @ VERSION)"

definition main_tar_file :: path where
  "main_tar_file = pjoin (PurePath ''release'') (NAME @ ''-sdk-'' @ VERSION @ ''.tar.gz'')"

definition main_source_tar_file :: path where
  "main_source_tar_file =
     pjoin (PurePath ''release'') (NAME @ ''-source-'' @ VERSION @ ''.tar.gz'')"

text \<open>The list \<^verbatim>\<open>dir_structure\<close> that the first loops of \<^verbatim>\<open>main\<close> build.\<close>

definition dir_structure :: "path \<Rightarrow> BoardInfo list \<Rightarrow> ConfigInfo list \<Rightarrow> path list" where
  "dir_structure root_dir boards configs =
     [pjoin root_dir ''doc'', pjoin root_dir ''bin'', pjoin root_dir ''board'']
     @ concat (map (\<lambda>board.
         let board_dir = pjoins root_dir [''board'', name board]
         in board_dir # concat (map (\<lambda>config.
              let config_dir = pjoin board_dir (cname config)
              in [config_dir, pjoin config_dir ''include'', pjoin config_dir ''lib'',
                  pjoin config_dir ''elf'']) configs)) boards)"

text \<open>The body of the \<^verbatim>\<open>for config in SUPPORTED_CONFIGS\<close> loop.\<close>

definition build_cell :: "env \<Rightarrow> path \<Rightarrow> path \<Rightarrow> path \<Rightarrow> BoardInfo \<Rightarrow> ConfigInfo \<Rightarrow> unit prog" where
  "build_cell env sel4_dir root_dir build_dir board config =
     bind (build_sel4 env sel4_dir root_dir build_dir board config) (\<lambda>_.
     let loader_defines = [(''LINK_ADDRESS'', hex (loader_link_address board))]
     in bind (build_elf_component env ''loader'' root_dir build_dir board config
                loader_defines) (\<lambda>_.
        bind (build_elf_component env ''monitor'' root_dir build_dir board config []) (\<lambda>_.
        build_lib_component env ''libmicrokit'' root_dir build_dir board config)))"

text \<open>The two nested loops over the boards and the configs, with the examples.\<close>

definition build_matrix ::
    "env \<Rightarrow> path \<Rightarrow> path \<Rightarrow> path \<Rightarrow> BoardInfo list \<Rightarrow> ConfigInfo list \<Rightarrow> unit prog" where
  "build_matrix env sel4_dir root_dir build_dir boards configs =
     for_each boards (\<lambda>board.
       bind (for_each configs (build_cell env sel4_dir root_dir build_dir board)) (\<lambda>_.
       for_each (examples board) (\<lambda>(example, example_path).
         let include_dir = pjoins root_dir [''board'', name board, ''example'', example];
             source_dir = PurePath example_path
         in copy_tree env source_dir include_dir)))"

definition main :: "env \<Rightarrow> args \<Rightarrow> unit prog" where
  "main env args =
     bind (lift (get_tool_target_triple (host_system env) (host_machine env))) (\<lambda>default.
     let target_triple = (case tool_target_triple args of None \<Rightarrow> default | Some t \<Rightarrow> t)
     in bind (lift (expanduser env (PurePath (sel4 args)))) (\<lambda>sel4_dir.
        bind (exists env sel4_dir) (\<lambda>found.
        if \<not> found then
          raise (Exception (''sel4_dir: '' @ str_path sel4_dir @ '' does not exist''))
        else
          let root_dir = main_root_dir
          in bind (for_each (dir_structure root_dir SUPPORTED_BOARDS SUPPORTED_CONFIGS)
                     (mkdir env)) (\<lambda>_.
             bind (copy env (PurePath ''LICENSE.md'') root_dir) (\<lambda>_.
             let licenses_dir = PurePath ''LICENSES'';
                 licenses_dest_dir = pjoin root_dir ''LICENSES''
             in bind (copy_tree env licenses_dir licenses_dest_dir) (\<lambda>_.
                let tool_target = pjoins root_dir [''bin'', ''microkit'']
                in bind (exists env tool_target) (\<lambda>present.
                   bind (if \<not> present then
                           bind (test_tool env) (\<lambda>_.
                           build_tool env tool_target target_triple)
                         else return ()) (\<lambda>_.
                   bind (build_doc env root_dir) (\<lambda>_.
                   let build_dir = PurePath ''build''
                   in build_matrix env sel4_dir root_dir build_dir
                        SUPPORTED_BOARDS SUPPORTED_CONFIGS)))))))))"

subsection \<open>Where the script writes\<close>

text \<open>
  \<open>below p d\<close>: the path \<open>d\<close> lies strictly under \<open>p\<close>; \<open>within p d\<close>: under \<open>p\<close> or \<open>p\<close>
  itself. Both compare components, as \<^verbatim>\<open>relative_to\<close> does.
\<close>

definition below :: "path \<Rightarrow> path \<Rightarrow> bool" where
  "below p d = (anchor d = anchor p \<and> strict_prefix (segs p) (segs d))"

definition within :: "path \<Rightarrow> path \<Rightarrow> bool" where
  "within p d = (anchor d = anchor p \<and> prefix (segs p) (segs d))"

text \<open>
  The staged destinations of a release tree: the paths strictly under its \<^verbatim>\<open>board\<close>
  directory or its \<^verbatim>\<open>LICENSES\<close> directory.
\<close>

definition staged_dest :: "path \<Rightarrow> path \<Rightarrow> bool" where
  "staged_dest root_dir d =
     (below (pjoin root_dir ''board'') d \<or> below (pjoin root_dir ''LICENSES'') d)"

text \<open>A name that \<^verbatim>\<open>/\<close> appends to a path instead of replacing it: it has no leading slash.\<close>

definition relname :: "string \<Rightarrow> bool" where
  "relname s = (anchor (PurePath s) = Relative)"

text \<open>The commands of a trace, in order.\<close>

definition commands :: "event list \<Rightarrow> string list" where
  "commands es = concat (map (\<lambda>e. case e of System cmd _ \<Rightarrow> [cmd] | _ \<Rightarrow> []) es)"

text \<open>The state a run starts in: a file system and an empty trace.\<close>

definition init :: "filesystem \<Rightarrow> state" where
  "init f = \<lparr>fs = f, log = []\<rparr>"

subsection \<open>The shape of a run\<close>

text \<open>
  \<^verbatim>\<open>tool_target\<close> of \<^verbatim>\<open>main\<close>, for a release tree.
\<close>

definition tool_path :: "path \<Rightarrow> path" where
  "tool_path root_dir = pjoins root_dir [''bin'', ''microkit'']"

text \<open>
  Every run of the script is a sequence of steps of six kinds, each of which ran to its
  end: a \<^verbatim>\<open>mkdir\<close> under the release tree or the build directory; an external command
  that returned 0; the staging of one file (\<^verbatim>\<open>unlink\<close>, \<^verbatim>\<open>copy\<close>, \<^verbatim>\<open>chmod(0o444)\<close>) at a
  staged destination; the copy of \<^verbatim>\<open>LICENSE.md\<close> into the release tree; and the copy of
  the tool followed by its \<^verbatim>\<open>chmod(0o777)\<close>. \<open>reach env root_dir build_dir s s'\<close> says
  that such a sequence leads from \<open>s\<close> to \<open>s'\<close>.
\<close>

inductive reach :: "env \<Rightarrow> path \<Rightarrow> path \<Rightarrow> state \<Rightarrow> state \<Rightarrow> bool"
  for env :: env and root_dir :: path and build_dir :: path where
  reach_refl: "reach env root_dir build_dir s s"
| reach_mkdir:
    "reach env root_dir build_dir s s1 \<Longrightarrow> within root_dir p \<or> within build_dir p \<Longrightarrow>
     mkdir env p s1 = (Inr (), s2) \<Longrightarrow> reach env root_dir build_dir s s2"
| reach_system:
    "reach env root_dir build_dir s s1 \<Longrightarrow> system env cmd s1 = (Inr 0, s2) \<Longrightarrow>
     reach env root_dir build_dir s s2"
| reach_stage:
    "reach env root_dir build_dir s s1 \<Longrightarrow> staged_dest root_dir d \<Longrightarrow>
     bind (unlink env d) (\<lambda>_. bind (copy env src d) (\<lambda>_. chmod env d 292)) s1 = (Inr (), s2) \<Longrightarrow>
     reach env root_dir build_dir s s2"
| reach_license:
    "reach env root_dir build_dir s s1 \<Longrightarrow>
     copy env (PurePath ''LICENSE.md'') root_dir s1 = (Inr (), s2) \<Longrightarrow>
     reach env root_dir build_dir s s2"
| reach_tool:
    "reach env root_dir build_dir s s1 \<Longrightarrow> basename src = ''microkit'' \<Longrightarrow>
     bind (copy env src (tool_path root_dir)) (\<lambda>_. chmod env (tool_path root_dir) 511) s1
       = (Inr (), s2) \<Longrightarrow>
     reach env root_dir build_dir s s2"

text \<open>
  The step a raised exception cuts short: nothing was done, or a command returned a
  non-zero status, or a destination was unlinked and the copy then failed, or the tool
  was copied and its \<^verbatim>\<open>chmod\<close> failed.
\<close>

definition halted :: "env \<Rightarrow> path \<Rightarrow> state \<Rightarrow> state \<Rightarrow> bool" where
  "halted env root_dir s s' =
     (s' = s \<or>
      (\<exists>cmd r. r \<noteq> 0 \<and> system env cmd s = (Inr r, s')) \<or>
      (\<exists>d. staged_dest root_dir d \<and> unlink env d s = (Inr (), s')) \<or>
      (\<exists>src. basename src = ''microkit'' \<and> copy env src (tool_path root_dir) s = (Inr (), s')))"

definition traced :: "env \<Rightarrow> path \<Rightarrow> path \<Rightarrow> 'a prog \<Rightarrow> bool" where
  "traced env root_dir build_dir m =
     (\<forall>s r s'. m s = (r, s') \<longrightarrow>
        (case r of
           Inr _ \<Rightarrow> reach env root_dir build_dir s s'
         | Inl _ \<Rightarrow> (\<exists>s1. reach env root_dir build_dir s s1 \<and> halted env root_dir s1 s')))"

text \<open>The traces of such runs.\<close>

inductive trace_ok :: "path \<Rightarrow> event list \<Rightarrow> bool" for root_dir :: path where
  trace_nil: "trace_ok root_dir []"
| trace_mkdir: "trace_ok root_dir es \<Longrightarrow> trace_ok root_dir (es @ [Mkdir p])"
| trace_system: "trace_ok root_dir es \<Longrightarrow> trace_ok root_dir (es @ [System cmd 0])"
| trace_stage:
    "trace_ok root_dir es \<Longrightarrow> staged_dest root_dir d \<Longrightarrow>
     trace_ok root_dir (es @ [Unlink d, Copy src d, Chmod d 292])"
| trace_license:
    "trace_ok root_dir es \<Longrightarrow> d = root_dir \<or> d = pjoin root_dir ''LICENSE.md'' \<Longrightarrow>
     trace_ok root_dir (es @ [Copy (PurePath ''LICENSE.md'') d])"
| trace_tool:
    "trace_ok root_dir es \<Longrightarrow>
     d = tool_path root_dir \<or> d = pjoin (tool_path root_dir) ''microkit'' \<Longrightarrow>
     trace_ok root_dir (es @ [Copy src d, Chmod (tool_path root_dir) 511])"

definition trace_end :: "path \<Rightarrow> event list \<Rightarrow> bool" where
  "trace_end root_dir es =
     (es = [] \<or> (\<exists>cmd r. r \<noteq> 0 \<and> es = [System cmd r]) \<or>
      (\<exists>d. staged_dest root_dir d \<and> es = [Unlink d]) \<or>
      (\<exists>src d. (d = tool_path root_dir \<or> d = pjoin (tool_path root_dir) ''microkit'') \<and>
         es = [Copy src d]))"

text \<open>
  The names of a catalog are plain when none starts with a slash, so that joining one
  to a path extends the path.
\<close>

definition plain_names :: "BoardInfo list \<Rightarrow> ConfigInfo list \<Rightarrow> bool" where
  "plain_names boards configs =
     ((\<forall>board\<in>set boards. relname (name board) \<and>
         (\<forall>example\<in>set (examples board). relname (fst example))) \<and>
      (\<forall>config\<in>set configs. relname (cname config)))"

text \<open>
  The place of one event in the trace of a run: a \<^verbatim>\<open>mkdir\<close>; a command that returned 0;
  the \<^verbatim>\<open>unlink\<close>, the \<^verbatim>\<open>copy\<close> or the \<^verbatim>\<open>chmod(0o444)\<close> of the staging of one file, with
  the other two next to it; the copy of \<^verbatim>\<open>LICENSE.md\<close>; the copy of the tool with its
  \<^verbatim>\<open>chmod(0o777)\<close> after it; or that \<^verbatim>\<open>chmod\<close>.
\<close>

definition staged_unlink_at :: "path \<Rightarrow> event list \<Rightarrow> nat \<Rightarrow> bool" where
  "staged_unlink_at root_dir es i =
     (\<exists>d src. staged_dest root_dir d \<and> es ! i = Unlink d \<and> Suc (Suc i) < length es \<and>
        es ! Suc i = Copy src d \<and> es ! Suc (Suc i) = Chmod d 292)"

definition staged_copy_at :: "path \<Rightarrow> event list \<Rightarrow> nat \<Rightarrow> bool" where
  "staged_copy_at root_dir es i =
     (\<exists>d src. staged_dest root_dir d \<and> es ! i = Copy src d \<and> 0 < i \<and> Suc i < length es \<and>
        es ! (i - 1) = Unlink d \<and> es ! Suc i = Chmod d 292)"

definition staged_chmod_at :: "path \<Rightarrow> event list \<Rightarrow> nat \<Rightarrow> bool" where
  "staged_chmod_at root_dir es i =
     (\<exists>d src. staged_dest root_dir d \<and> es ! i = Chmod d 292 \<and> 1 < i \<and>
        es ! (i - 1) = Copy src d \<and> es ! (i - 2) = Unlink d)"

definition license_copy_at :: "path \<Rightarrow> event list \<Rightarrow> nat \<Rightarrow> bool" where
  "license_copy_at root_dir es i =
     (\<exists>d. (d = root_dir \<or> d = pjoin root_dir ''LICENSE.md'') \<and>
        es ! i = Copy (PurePath ''LICENSE.md'') d)"

definition tool_copy_at :: "path \<Rightarrow> event list \<Rightarrow> nat \<Rightarrow> bool" where
  "tool_copy_at root_dir es i =
     (\<exists>d src. (d = tool_path root_dir \<or> d = pjoin (tool_path root_dir) ''microkit'') \<and>
        es ! i = Copy src d \<and> Suc i < length es \<and>
        es ! Suc i = Chmod (tool_path root_dir) 511)"

definition tool_chmod_at :: "path \<Rightarrow> event list \<Rightarrow> nat \<Rightarrow> bool" where
  "tool_chmod_at root_dir es i =
     (\<exists>d src. (d = tool_path root_dir \<or> d = pjoin (tool_path root_dir) ''microkit'') \<and>
        es ! i = Chmod (tool_path root_dir) 511 \<and> 0 < i \<and> es ! (i - 1) = Copy src d)"

definition placed :: "path \<Rightarrow> event list \<Rightarrow> nat \<Rightarrow> bool" where
  "placed root_dir es i =
     ((\<exists>p. es ! i = Mkdir p) \<or> (\<exists>cmd. es ! i = System cmd 0) \<or>
      staged_unlink_at root_dir es i \<or> staged_copy_at root_dir es i \<or>
      staged_chmod_at root_dir es i \<or> license_copy_at root_dir es i \<or>
      tool_copy_at root_dir es i \<or> tool_chmod_at root_dir es i)"

subsection \<open>What a program adds to the trace\<close>

text \<open>
  \<open>emits m P\<close>: whenever \<open>m\<close> runs, the trace grows by some events \<open>es\<close>, and \<open>P\<close> holds
  of the result and \<open>es\<close>.
\<close>

definition emits :: "'a prog \<Rightarrow> ((error + 'a) \<Rightarrow> event list \<Rightarrow> bool) \<Rightarrow> bool" where
  "emits m P = (\<forall>s r s'. m s = (r, s') \<longrightarrow> (\<exists>es. log s' = log s @ es \<and> P r es))"

text \<open>
  A command that returned a non-zero status is the last event, and the program raised.
\<close>

definition failure_last :: "(error + 'a) \<Rightarrow> event list \<Rightarrow> bool" where
  "failure_last r es =
     (\<forall>i cmd st. i < length es \<and> es ! i = System cmd st \<and> st \<noteq> 0 \<longrightarrow>
        isl r \<and> Suc i = length es)"

text \<open>
  Every event before a command is a \<^verbatim>\<open>mkdir\<close> or a command: nothing is unlinked, copied
  or given a mode before the last command has run.
\<close>

definition build_event :: "event \<Rightarrow> bool" where
  "build_event e = (case e of Mkdir _ \<Rightarrow> True | System _ _ \<Rightarrow> True | _ \<Rightarrow> False)"

definition commands_first :: "(error + 'a) \<Rightarrow> event list \<Rightarrow> bool" where
  "commands_first r es =
     (\<forall>i j cmd st. i < j \<and> j < length es \<and> es ! j = System cmd st \<longrightarrow> build_event (es ! i))"

text \<open>
  The commands run are the first ones of the list \<open>cs\<close>, and all of \<open>cs\<close> if the program
  returned normally.
\<close>

definition issues :: "string list \<Rightarrow> (error + 'a) \<Rightarrow> event list \<Rightarrow> bool" where
  "issues cs r es = (prefix (commands es) cs \<and> (\<not> isl r \<longrightarrow> commands es = cs))"

text \<open>A program that runs no command.\<close>

definition silent :: "'a prog \<Rightarrow> bool" where
  "silent m = emits m (\<lambda>r es. commands es = [])"

text \<open>A program that only creates directories and runs commands.\<close>

definition builds :: "'a prog \<Rightarrow> bool" where
  "builds m = emits m (\<lambda>r es. \<forall>e\<in>set es. build_event e)"

subsection \<open>A concrete invocation\<close>

text \<open>
  \<open>mkdirs wd ds f\<close> is the file system after \<^verbatim>\<open>mkdir(parents=True, exist_ok=True)\<close> on each of
  \<open>ds\<close> in turn, none of them failing.
\<close>

definition mkdirs :: "path \<Rightarrow> path list \<Rightarrow> filesystem \<Rightarrow> filesystem" where
  "mkdirs wd ds f = fold (\<lambda>d. make_dirs (absolute wd d)) ds f"

text \<open>
  A host on which the script is started in \<^verbatim>\<open>/w\<close> with \<^verbatim>\<open>--sel4 seL4\<close>: Linux on x86_64, the
  Python interpreter at \<^verbatim>\<open>/usr/bin/python3\<close>, a built tool binary, \<^verbatim>\<open>LICENSE.md\<close> and one file
  in \<^verbatim>\<open>LICENSES\<close> in place, and every external command succeeding without touching the file
  system, except \<^verbatim>\<open>pandoc\<close>, which exits with status 1.
\<close>

definition example_fs :: filesystem where
  "example_fs =
     [(Path Root [''w''], Dir),
      (Path Root [''w'', ''seL4''], Dir),
      (Path Root [''w'', ''LICENSE.md''], File ''BSD-2-Clause'' 420),
      (Path Root [''w'', ''LICENSES''], Dir),
      (Path Root [''w'', ''LICENSES'', ''BSD-2-Clause.txt''], File ''Redistribution'' 420),
      (Path Root [''usr'', ''bin'', ''pyoxidizer''], File ''pyoxidizer'' 493),
      (Path Root [''w'', ''tool'', ''build'', ''x86_64-unknown-linux-musl'', ''release'',
         ''install'', ''microkit''], File ''tool'' 493)]"

definition example_env :: env where
  "example_env =
     \<lparr>host_system = ''Linux'', host_machine = ''x86_64'', executable = ''/usr/bin/python3'',
      cwd = Path Root [''w''], gethomedir = (\<lambda>_. None),
      os_system = (\<lambda>cmd s. (if prefix ''pandoc'' cmd then 1 else 0, fs s))\<rparr>"

definition example_args :: args where
  "example_args = \<lparr>sel4 = ''seL4'', tool_target_triple = None\<rparr>"

definition example_dirs :: "path list" where
  "example_dirs = dir_structure main_root_dir SUPPORTED_BOARDS SUPPORTED_CONFIGS"

text \<open>
  The file systems this invocation passes through (after the directory structure, after the
  copy of \<^verbatim>\<open>LICENSE.md\<close>, after the staging of \<^verbatim>\<open>LICENSES\<close>, after the copy of the tool, after
  its \<^verbatim>\<open>chmod\<close>), and its trace.
\<close>

definition example_tree :: filesystem where
  "example_tree = mkdirs (Path Root [''w'']) example_dirs example_fs"

definition example_licensed :: filesystem where
  "example_licensed =
     AList.update (Path Root [''w'', ''release'', ''microkit-sdk-1.2.6'', ''LICENSE.md''])
       (File ''BSD-2-Clause'' 420) example_tree"

definition example_staged :: filesystem where
  "example_staged =
     AList.update
       (Path Root [''w'', ''release'', ''microkit-sdk-1.2.6'', ''LICENSES'', ''BSD-2-Clause.txt''])
       (File ''Redistribution'' 292)
       (AList.update
          (Path Root [''w'', ''release'', ''microkit-sdk-1.2.6'', ''LICENSES'', ''BSD-2-Clause.txt''])
          (File ''Redistribution'' 420)
          (make_dirs (Path Root [''w'', ''release'', ''microkit-sdk-1.2.6'', ''LICENSES''])
             example_licensed))"

definition example_copied :: filesystem where
  "example_copied =
     AList.update (Path Root [''w'', ''release'', ''microkit-sdk-1.2.6'', ''bin'', ''microkit''])
       (File ''tool'' 493) example_staged"

definition example_final :: filesystem where
  "example_final =
     AList.update (Path Root [''w'', ''release'', ''microkit-sdk-1.2.6'', ''bin'', ''microkit''])
       (File ''tool'' 511) example_copied"

definition example_log :: "event list" where
  "example_log = map Mkdir example_dirs @
     [Copy (PurePath ''LICENSE.md'') (pjoin main_root_dir ''LICENSE.md''),
      Mkdir (pjoin main_root_dir ''LICENSES''),
      Unlink (pjoins main_root_dir [''LICENSES'', ''BSD-2-Clause.txt'']),
      Copy (pjoin (PurePath ''LICENSES'') ''BSD-2-Clause.txt'')
           (pjoins main_root_dir [''LICENSES'', ''BSD-2-Clause.txt'']),
      Chmod (pjoins main_root_dir [''LICENSES'', ''BSD-2-Clause.txt'']) 292,
      System ''/usr/bin/python3 -m unittest discover -s tool -v'' 0,
      System ''/usr/bin/pyoxidizer build --release --path tool --target-triple x86_64-unknown-linux-musl'' 0,
      System ''strip ./tool/build/x86_64-unknown-linux-musl/release/install/microkit'' 0,
      Copy (PurePath ''./tool/build/x86_64-unknown-linux-musl/release/install/microkit'')
           (pjoins main_root_dir [''bin'', ''microkit'']),
      Chmod (pjoins main_root_dir [''bin'', ''microkit'']) 511,
      System ''pandoc docs/manual.md -o release/microkit-sdk-1.2.6/doc/microkit_user_manual.pdf'' 1]"

section \<open>Properties of the kernel option rendering\<close>

text \<open>
  What \<^const>\<open>sorted_items\<close> returns when no comparison raises: the same items, each as
  often as before, ordered by option name and, under one name, by value.
\<close>

lemma insort_item_set:
  "insort_item x ys = Inr zs \<Longrightarrow> set zs = insert x (set ys)"
proof (induction ys arbitrary: zs)
  case Nil then show ?case by auto
next
  case (Cons y ys)
  show ?case
  proof (cases "lt_item y x")
    case (Inl e) with Cons.prems show ?thesis by simp
  next
    case (Inr b)
    show ?thesis
    proof (cases b)
      case False with Inr Cons.prems show ?thesis by auto
    next
      case True
      with Inr Cons.prems obtain zs' where z: "insort_item x ys = Inr zs'" "zs = y # zs'"
        by (auto split: sum.splits)
      from Cons.IH[OF z(1)] z(2) show ?thesis by auto
    qed
  qed
qed

lemma insort_item_count:
  "insort_item x ys = Inr zs \<Longrightarrow>
     length (filter P zs) = (if P x then 1 else 0) + length (filter P ys)"
proof (induction ys arbitrary: zs)
  case Nil then show ?case by auto
next
  case (Cons y ys)
  show ?case
  proof (cases "lt_item y x")
    case (Inl e) with Cons.prems show ?thesis by simp
  next
    case (Inr b)
    show ?thesis
    proof (cases b)
      case False with Inr Cons.prems show ?thesis by auto
    next
      case True
      with Inr Cons.prems obtain zs' where z: "insort_item x ys = Inr zs'" "zs = y # zs'"
        by (auto split: sum.splits)
      from Cons.IH[OF z(1)] z(2) show ?thesis by simp
    qed
  qed
qed

lemma sorted_items_set: "sorted_items xs = Inr ys \<Longrightarrow> set ys = set xs"
proof (induction xs arbitrary: ys)
  case Nil then show ?case by simp
next
  case (Cons x xs)
  then obtain ys' where y: "sorted_items xs = Inr ys'" "insort_item x ys' = Inr ys"
    by (auto split: sum.splits)
  from insort_item_set[OF y(2)] Cons.IH[OF y(1)] show ?case by simp
qed

lemma sorted_items_count:
  "sorted_items xs = Inr ys \<Longrightarrow> length (filter P ys) = length (filter P xs)"
proof (induction xs arbitrary: ys)
  case Nil then show ?case by simp
next
  case (Cons x xs)
  then obtain ys' where y: "sorted_items xs = Inr ys'" "insort_item x ys' = Inr ys"
    by (auto split: sum.splits)
  from insort_item_count[OF y(2), of P] Cons.IH[OF y(1)] show ?case by simp
qed

lemma lt_item_key: "lt_item y x = Inr b \<Longrightarrow> (if b then fst y \<le> fst x else fst x \<le> fst y)"
  by (cases y; cases x) (auto split: if_splits)

lemma insort_item_sorted:
  "insort_item x ys = Inr zs \<Longrightarrow> sorted (map fst ys) \<Longrightarrow> sorted (map fst zs)"
proof (induction ys arbitrary: zs)
  case Nil then show ?case by auto
next
  case (Cons y ys)
  show ?case
  proof (cases "lt_item y x")
    case (Inl e) with Cons.prems show ?thesis by simp
  next
    case (Inr b)
    show ?thesis
    proof (cases b)
      case False
      with Inr have xy: "fst x \<le> fst y" using lt_item_key[OF Inr] by simp
      from Cons.prems(2) have "\<forall>z\<in>set ys. fst y \<le> fst z" by auto
      with xy have "\<forall>z\<in>set ys. fst x \<le> fst z" by (meson order_trans)
      with False Inr Cons.prems xy show ?thesis by auto
    next
      case True
      with Inr Cons.prems obtain zs' where z: "insort_item x ys = Inr zs'" "zs = y # zs'"
        by (auto split: sum.splits)
      from insort_item_set[OF z(1)] have "set zs' = insert x (set ys)" .
      with Cons z True lt_item_key[OF Inr] show ?thesis by auto
    qed
  qed
qed

lemma sorted_items_sorted: "sorted_items xs = Inr ys \<Longrightarrow> sorted (map fst ys)"
proof (induction xs arbitrary: ys)
  case Nil then show ?case by simp
next
  case (Cons x xs)
  then obtain ys' where y: "sorted_items xs = Inr ys'" "insort_item x ys' = Inr ys"
    by (auto split: sum.splits)
  from insort_item_sorted[OF y(2)] Cons.IH[OF y(1)] show ?case by simp
qed

lemma count_key_distinct:
  "distinct (map fst xs) \<Longrightarrow>
     length (filter (\<lambda>it. fst it = k) xs) = (if k \<in> fst ` set xs then 1 else 0)"
  by (induction xs) (auto simp: image_iff)

lemma lt_item_trans:
  "lt_item c b = Inr False \<Longrightarrow> lt_item b a = Inr False \<Longrightarrow> lt_item c a = Inr False"
  by (cases a; cases b; cases c; cases "snd a"; cases "snd b"; cases "snd c")
     (auto split: if_splits)

lemma lt_item_asym: "lt_item b a = Inr True \<Longrightarrow> lt_item a b = Inr False"
  by (cases a; cases b; cases "snd a"; cases "snd b") (auto split: if_splits)

lemma insort_item_sorted_wrt:
  "insort_item x ys = Inr zs \<Longrightarrow> sorted_wrt item_le ys \<Longrightarrow> sorted_wrt item_le zs"
proof (induction ys arbitrary: zs)
  case Nil then show ?case by auto
next
  case (Cons y ys)
  show ?case
  proof (cases "lt_item y x")
    case (Inl e) with Cons.prems show ?thesis by simp
  next
    case (Inr b)
    show ?thesis
    proof (cases b)
      case False
      with Inr have xy: "item_le x y" by (simp add: item_le_def)
      from Cons.prems(2) have "\<forall>z\<in>set ys. item_le y z" by auto
      with xy have "\<forall>z\<in>set ys. item_le x z"
        unfolding item_le_def by (blast intro: lt_item_trans)
      with False Inr Cons.prems xy show ?thesis by auto
    next
      case True
      with Inr Cons.prems obtain zs' where z: "insort_item x ys = Inr zs'" "zs = y # zs'"
        by (auto split: sum.splits)
      from insort_item_set[OF z(1)] have s: "set zs' = insert x (set ys)" .
      from True Inr have "item_le y x" by (simp add: item_le_def lt_item_asym)
      with Cons z s show ?thesis by auto
    qed
  qed
qed

lemma sorted_items_sorted_wrt: "sorted_items xs = Inr ys \<Longrightarrow> sorted_wrt item_le ys"
proof (induction xs arbitrary: ys)
  case Nil then show ?case by simp
next
  case (Cons x xs)
  then obtain ys' where y: "sorted_items xs = Inr ys'" "insort_item x ys' = Inr ys"
    by (auto split: sum.splits)
  from insort_item_sorted_wrt[OF y(2)] Cons.IH[OF y(1)] show ?case by simp
qed

lemma lt_item_error: "lt_item a b = Inl e \<Longrightarrow> e = TypeError"
  by (cases a; cases b; cases "snd a"; cases "snd b") (auto split: if_splits)

lemma insort_item_error: "insort_item x ys = Inl e \<Longrightarrow> e = TypeError"
proof (induction ys)
  case Nil then show ?case by simp
next
  case (Cons y ys)
  show ?case
  proof (cases "lt_item y x")
    case (Inl e') with Cons.prems show ?thesis by (simp add: lt_item_error)
  next
    case (Inr b)
    with Cons show ?thesis by (cases b) (auto split: sum.splits)
  qed
qed

lemma sorted_items_error: "sorted_items xs = Inl e \<Longrightarrow> e = TypeError"
proof (induction xs)
  case Nil then show ?case by simp
next
  case (Cons x xs)
  then show ?case by (auto split: sum.splits dest: insort_item_error)
qed

lemma filter_two:
  assumes "length (filter P xs) = 2" 
  shows "\<exists>a b. filter P xs = [a, b]"
proof -
  from assms obtain a ys where 1: "filter P xs = a # ys" by (cases "filter P xs") auto
  with assms obtain b zs where 2: "ys = b # zs" by (cases ys) auto
  with 1 assms have "zs = []" by auto
  with 1 2 show ?thesis by simp
qed

lemma key_unique:
  "distinct (map fst xs) \<Longrightarrow> (k, v) \<in> set xs \<Longrightarrow> (k, w) \<in> set xs \<Longrightarrow> v = w"
  by (induction xs) (auto simp: image_iff)

lemma lt_value_total:
  "lt_value v w = Inr False \<Longrightarrow> v \<noteq> w \<Longrightarrow> lt_value w v = Inr True"
  by (cases v; cases w) auto

lemma shared_key_entries:
  assumes db: "distinct (map fst bo)" and dc: "distinct (map fst co)"
    and b: "(k, vb) \<in> set bo" and c: "(k, vc) \<in> set co"
    and s: "sorted_items (bo @ co) = Inr items"
  shows "filter (\<lambda>it. fst it = k) items =
           (if lt_value vc vb = Inr True then [(k, vc), (k, vb)] else [(k, vb), (k, vc)])"
proof -
  let ?P = "\<lambda>it::string \<times> kernel_config_type. fst it = k"
  from b c have kin: "k \<in> fst ` set bo" "k \<in> fst ` set co" by force+
  have "length (filter ?P items) = length (filter ?P (bo @ co))"
    by (rule sorted_items_count[OF s])
  also have "\<dots> = 2"
    using count_key_distinct[OF db, of k] count_key_distinct[OF dc, of k] kin by simp
  finally obtain x y where xy: "filter ?P items = [x, y]" by (blast dest: filter_two)
  have set_items: "set items = set bo \<union> set co" using sorted_items_set[OF s] by simp
  have mem: "\<And>z. z \<in> set (filter ?P items) \<Longrightarrow> z = (k, vb) \<or> z = (k, vc)"
  proof -
    fix z assume "z \<in> set (filter ?P items)"
    then have z: "z \<in> set bo \<union> set co" "fst z = k" using set_items by auto
    then obtain v where zv: "z = (k, v)" by (cases z) auto
    with z key_unique[OF db _ b] key_unique[OF dc _ c] show "z = (k, vb) \<or> z = (k, vc)"
      by auto
  qed
  have inb: "(k, vb) \<in> set (filter ?P items)" and inc: "(k, vc) \<in> set (filter ?P items)"
    using b c set_items by auto
  have "sorted_wrt item_le (filter ?P items)"
    by (rule sorted_wrt_filter[OF sorted_items_sorted_wrt[OF s]])
  with xy have le: "lt_item y x = Inr False" by (simp add: item_le_def)
  from mem[of x] mem[of y] xy have cases: "(x = (k, vb) \<or> x = (k, vc)) \<and> (y = (k, vb) \<or> y = (k, vc))"
    by simp
  from inb inc xy have both: "(k, vb) \<in> {x, y}" "(k, vc) \<in> {x, y}" by auto
  show ?thesis
  proof (cases "vb = vc")
    case True
    with cases xy show ?thesis by (cases vb) auto
  next
    case False
    with cases both have "(x = (k, vb) \<and> y = (k, vc)) \<or> (x = (k, vc) \<and> y = (k, vb))"
      by auto
    then show ?thesis
    proof
      assume a: "x = (k, vb) \<and> y = (k, vc)"
      with le False have "lt_value vc vb = Inr False" by (auto split: if_splits)
      with a xy show ?thesis by simp
    next
      assume a: "x = (k, vc) \<and> y = (k, vb)"
      with le False have "lt_value vb vc = Inr False" by (auto split: if_splits)
      with False have "lt_value vc vb = Inr True" by (simp add: lt_value_total)
      with a xy show ?thesis by simp
    qed
  qed
qed

lemma shared_key_type_error:
  assumes db: "distinct (map fst bo)" and dc: "distinct (map fst co)"
    and b: "(k, vb) \<in> set bo" and c: "(k, vc) \<in> set co"
    and m: "lt_value vb vc = Inl TypeError"
  shows "sorted_items (bo @ co) = Inl TypeError"
proof (cases "sorted_items (bo @ co)")
  case (Inl e)
  then show ?thesis by (simp add: sorted_items_error)
next
  case (Inr items)
  let ?P = "\<lambda>it::string \<times> kernel_config_type. fst it = k"
  have f: "filter ?P items =
           (if lt_value vc vb = Inr True then [(k, vc), (k, vb)] else [(k, vb), (k, vc)])"
    by (rule shared_key_entries[OF db dc b c Inr])
  from m have m': "lt_value vc vb = Inl TypeError" "vb \<noteq> vc" by (cases vb; cases vc; auto)+
  have "sorted_wrt item_le (filter ?P items)"
    by (rule sorted_wrt_filter[OF sorted_items_sorted_wrt[OF Inr]])
  with f m' have False by (simp add: item_le_def)
  then show ?thesis ..
qed

subsection \<open>Claim C2: a key shared by the board and the config\<close>

text \<open>
  Counterexample to C2 as stated. The board sets \<^verbatim>\<open>KernelIsMCS\<close> to \<^verbatim>\<open>True\<close> and the
  config sets it to \<^verbatim>\<open>False\<close>: the flag list has two entries for the key, and the
  board's value \<^verbatim>\<open>ON\<close> is the later one.
\<close>

theorem config_precedence_counterexample:
  "config_str collide_board collide_config =
     Inr ''-DKernelIsMCS=OFF -DKernelIsMCS=ON -DKernelPlatform=zcu102''"
  by (simp add: config_strs_def config_str_def config_args_def std_board_def config_flag_def
      collide_board_def collide_config_def)

text \<open>
  C2, amended. For every board and config whose option dicts share a key \<open>k\<close>, with the
  board's value \<open>vb\<close> and the config's value \<open>vc\<close>: the items are concatenated, not merged.
  If one value is a \<^verbatim>\<open>bool\<close> and the other a \<^verbatim>\<open>str\<close>, sorting raises \<^verbatim>\<open>TypeError\<close>.
  Otherwise the rendered list is sorted by option name, holds exactly the items of both
  dicts, and has exactly two entries for \<open>k\<close>: the board's and the config's, the smaller
  value first (\<^verbatim>\<open>False\<close> before \<^verbatim>\<open>True\<close>, strings in lexicographic order), so neither
  side takes precedence.
\<close>

theorem config_args_keep_both_values:
  assumes "distinct (map fst (kernel_options board))"
    and "distinct (map fst (ckernel_options config))"
    and "(k, vb) \<in> set (kernel_options board)"
    and "(k, vc) \<in> set (ckernel_options config)"
  shows "(lt_value vb vc = Inl TypeError \<longrightarrow> config_strs board config = Inl TypeError) \<and>
         (\<forall>strs. config_strs board config = Inr strs \<longrightarrow>
            (\<exists>items. strs = map config_flag items \<and> sorted (map fst items) \<and>
               set items = set (kernel_options board) \<union> set (ckernel_options config) \<and>
               filter (\<lambda>it. fst it = k) items =
                 (if lt_value vc vb = Inr True then [(k, vc), (k, vb)]
                  else [(k, vb), (k, vc)])))"
proof (intro conjI impI allI)
  assume "lt_value vb vc = Inl TypeError"
  from shared_key_type_error[OF assms this]
  show "config_strs board config = Inl TypeError"
    by (simp add: config_strs_def config_args_def)
next
  fix strs
  assume "config_strs board config = Inr strs"
  then obtain items where
    i: "sorted_items (kernel_options board @ ckernel_options config) = Inr items"
    and s: "strs = map config_flag items"
    by (auto simp: config_strs_def config_args_def split: sum.splits)
  from shared_key_entries[OF assms i] sorted_items_sorted[OF i] sorted_items_set[OF i] s
  show "\<exists>items. strs = map config_flag items \<and> sorted (map fst items) \<and>
               set items = set (kernel_options board) \<union> set (ckernel_options config) \<and>
               filter (\<lambda>it. fst it = k) items =
                 (if lt_value vc vb = Inr True then [(k, vc), (k, vb)]
                  else [(k, vb), (k, vc)])"
    by auto
qed

lemmas eval_cfg = config_strs_def config_str_def config_args_def std_board_def config_flag_def
  collide_board_def collide_config_def

theorem config_args_keep_both_values_witness:
  "config_strs collide_board collide_config =
     Inr [''-DKernelIsMCS=OFF'', ''-DKernelIsMCS=ON'', ''-DKernelPlatform=zcu102''] \<and>
   (\<exists>items. [''-DKernelIsMCS=OFF'', ''-DKernelIsMCS=ON'', ''-DKernelPlatform=zcu102'']
        = map config_flag items \<and> sorted (map fst items) \<and>
      filter (\<lambda>it. fst it = ''KernelIsMCS'') items =
        [(''KernelIsMCS'', PyBool False), (''KernelIsMCS'', PyBool True)])"
proof -
  have e: "config_strs collide_board collide_config =
     Inr [''-DKernelIsMCS=OFF'', ''-DKernelIsMCS=ON'', ''-DKernelPlatform=zcu102'']"
    by (simp add: eval_cfg)
  have d1: "distinct (map fst (kernel_options collide_board))"
    and d2: "distinct (map fst (ckernel_options collide_config))"
    and m1: "(''KernelIsMCS'', PyBool True) \<in> set (kernel_options collide_board)"
    and m2: "(''KernelIsMCS'', PyBool False) \<in> set (ckernel_options collide_config)"
    by (simp_all add: eval_cfg)
  have "\<forall>strs. config_strs collide_board collide_config = Inr strs \<longrightarrow>
      (\<exists>items. strs = map config_flag items \<and> sorted (map fst items) \<and>
         filter (\<lambda>it. fst it = ''KernelIsMCS'') items =
           [(''KernelIsMCS'', PyBool False), (''KernelIsMCS'', PyBool True)])"
    using config_args_keep_both_values[OF d1 d2 m1 m2] by simp blast
  with e show ?thesis by blast
qed


subsection \<open>Claim C4: the rendered flag string\<close>

text \<open>
  C4. Board options \<^verbatim>\<open>{KernelPlatform: "zcu102", KernelIsMCS: True}\<close> with config
  options \<^verbatim>\<open>{KernelDebugBuild: True}\<close> render as
  \<^verbatim>\<open>-DKernelDebugBuild=ON -DKernelIsMCS=ON -DKernelPlatform=zcu102\<close>. A \<^verbatim>\<open>True\<close> renders
  as \<^verbatim>\<open>ON\<close>, a \<^verbatim>\<open>False\<close> as \<^verbatim>\<open>OFF\<close>, a string verbatim; whenever a flag list is
  produced it is the flags of the items of both dicts, sorted by option name, and the
  flag string is that list joined by single spaces.
\<close>

theorem option_merge_render:
  "config_str
      (std_board n cpu a
         [(''KernelPlatform'', PyStr ''zcu102''), (''KernelIsMCS'', PyBool True)] ex)
      \<lparr>cname = c, debug = d, ckernel_options = [(''KernelDebugBuild'', PyBool True)]\<rparr>
     = Inr ''-DKernelDebugBuild=ON -DKernelIsMCS=ON -DKernelPlatform=zcu102'' \<and>
   config_flag (arg, PyBool True) = ''-D'' @ arg @ ''=ON'' \<and>
   config_flag (arg, PyBool False) = ''-D'' @ arg @ ''=OFF'' \<and>
   config_flag (arg, PyStr s) = ''-D'' @ arg @ ''='' @ s \<and>
   (\<forall>strs. config_strs board config = Inr strs \<longrightarrow>
      config_str board config = Inr (join '' '' strs) \<and>
      (\<exists>items. strs = map config_flag items \<and> sorted (map fst items) \<and>
         set items = set (kernel_options board) \<union> set (ckernel_options config)))"
proof (intro conjI allI impI)
  fix strs
  assume a: "config_strs board config = Inr strs"
  then show "config_str board config = Inr (join '' '' strs)"
    by (simp add: config_str_def)
  from a obtain items where
    i: "sorted_items (kernel_options board @ ckernel_options config) = Inr items"
    and s: "strs = map config_flag items"
    by (auto simp: config_strs_def config_args_def split: sum.splits)
  from sorted_items_sorted[OF i] sorted_items_set[OF i] s
  show "\<exists>items. strs = map config_flag items \<and> sorted (map fst items) \<and>
         set items = set (kernel_options board) \<union> set (ckernel_options config)"
    by auto
qed (simp_all add: config_str_def config_strs_def config_args_def std_board_def config_flag_def)

theorem option_merge_render_witness:
  "config_strs (SUPPORTED_BOARDS ! 1) (SUPPORTED_CONFIGS ! 0) =
     Inr [''-DKernelARMPlatform=zcu102'', ''-DKernelArmExportPCNTUser=ON'',
          ''-DKernelIsMCS=ON'', ''-DKernelPlatform=zynqmp''] \<and>
   config_str (SUPPORTED_BOARDS ! 1) (SUPPORTED_CONFIGS ! 0) =
     Inr ''-DKernelARMPlatform=zcu102 -DKernelArmExportPCNTUser=ON -DKernelIsMCS=ON -DKernelPlatform=zynqmp''"
proof -
  have e: "config_strs (SUPPORTED_BOARDS ! 1) (SUPPORTED_CONFIGS ! 0) =
     Inr [''-DKernelARMPlatform=zcu102'', ''-DKernelArmExportPCNTUser=ON'',
          ''-DKernelIsMCS=ON'', ''-DKernelPlatform=zynqmp'']"
    by (simp add: SUPPORTED_BOARDS_def SUPPORTED_CONFIGS_def config_strs_def config_args_def
        std_board_def config_flag_def)
  from option_merge_render[where board = "SUPPORTED_BOARDS ! 1"
      and config = "SUPPORTED_CONFIGS ! 0"] e
  have "config_str (SUPPORTED_BOARDS ! 1) (SUPPORTED_CONFIGS ! 0) =
     Inr (join '' '' [''-DKernelARMPlatform=zcu102'', ''-DKernelArmExportPCNTUser=ON'',
          ''-DKernelIsMCS=ON'', ''-DKernelPlatform=zynqmp''])"
    by blast
  with e show ?thesis by simp
qed

section \<open>Properties of \<^verbatim>\<open>tar_filter\<close> and \<^verbatim>\<open>get_tool_target_triple\<close>\<close>

lemma set_perm_bits:
  "and (set_perm m 367) 511 = 367" "and (set_perm m 493) 511 = 493"
  "and (set_perm m 420) 511 = 420"
proof -
  have z: "and (and m (not 511)) 511 = 0"
    by (simp add: and.assoc)
  show "and (set_perm m 367) 511 = 367" "and (set_perm m 493) 511 = 493"
    "and (set_perm m 420) 511 = 420"
    unfolding set_perm_def bit.conj_disj_distrib2 z by simp_all
qed





text \<open>
  C8. The target triple is \<^verbatim>\<open>x86_64-unknown-linux-musl\<close> on Linux,
  \<^verbatim>\<open>x86_64-apple-darwin\<close> on Darwin with \<^verbatim>\<open>x86_64\<close>, \<^verbatim>\<open>aarch64-apple-darwin\<close> on Darwin
  with \<^verbatim>\<open>arm64\<close>; every other Darwin architecture and every other host system raises
  an exception.
\<close>

theorem get_tool_target_triple_cases:
  "get_tool_target_triple ''Linux'' arch = Inr ''x86_64-unknown-linux-musl'' \<and>
   get_tool_target_triple ''Darwin'' ''x86_64'' = Inr ''x86_64-apple-darwin'' \<and>
   get_tool_target_triple ''Darwin'' ''arm64'' = Inr ''aarch64-apple-darwin'' \<and>
   (arch \<noteq> ''x86_64'' \<and> arch \<noteq> ''arm64'' \<longrightarrow>
      get_tool_target_triple ''Darwin'' arch =
        Inl (Exception (''Unexpected Darwin architecture: '' @ arch))) \<and>
   (sysname \<noteq> ''Linux'' \<and> sysname \<noteq> ''Darwin'' \<longrightarrow>
      get_tool_target_triple sysname arch =
        Inl (Exception (''The platform \"'' @ sysname @ ''\" is not supported'')))"
  by (simp add: get_tool_target_triple_def)

theorem get_tool_target_triple_cases_witness:
  "get_tool_target_triple ''Darwin'' ''ppc64'' =
     Inl (Exception ''Unexpected Darwin architecture: ppc64'') \<and>
   get_tool_target_triple ''Windows'' ''AMD64'' =
     Inl (Exception ''The platform \"Windows\" is not supported'')"
  using get_tool_target_triple_cases[where arch = "''ppc64''" and sysname = "''Darwin''"]
    get_tool_target_triple_cases[where arch = "''AMD64''" and sysname = "''Windows''"]
  by simp

section \<open>The monad\<close>

lemma bind_return [simp]: "bind (return x) k = k x"
  by (simp add: bind_def return_def)

lemma bind_raise [simp]: "bind (raise e) k = raise e"
  by (simp add: bind_def raise_def)

lemma bind_assoc: "bind (bind m k) h = bind m (\<lambda>x. bind (k x) h)"
  by (auto simp: bind_def fun_eq_iff split: prod.splits sum.splits)

lemma bind_Inr: "m s = (Inr x, s1) \<Longrightarrow> bind m k s = k x s1"
  by (simp add: bind_def)

lemma bind_Inl: "m s = (Inl e, s1) \<Longrightarrow> bind m k s = (Inl e, s1)"
  by (simp add: bind_def)

lemma bind_cases:
  assumes "bind m k s = (r, s')"
  obtains (fail) e where "m s = (Inl e, s')" "r = Inl e"
        | (ok) x s1 where "m s = (Inr x, s1)" "k x s1 = (r, s')"
  using assms by (auto simp: bind_def split: prod.splits sum.splits)

lemma return_eq [simp]: "return x s = (r, s') \<longleftrightarrow> r = Inr x \<and> s' = s"
  by (auto simp: return_def)

lemma raise_eq [simp]: "raise e s = (r, s') \<longleftrightarrow> r = Inl e \<and> s' = s"
  by (auto simp: raise_def)

lemma lift_eq: "lift v s = (r, s') \<longleftrightarrow> r = v \<and> s' = s"
  by (cases v) (auto simp: lift_def)

lemma assert_eq: "assert b s = (r, s') \<longleftrightarrow> s' = s \<and> r = (if b then Inr () else Inl AssertionError)"
  by (auto simp: assert_def)

section \<open>Paths\<close>

lemma PurePath_simple [simp]:
  "PurePath ''board'' = Path Relative [''board'']"
  "PurePath ''LICENSES'' = Path Relative [''LICENSES'']"
  "PurePath ''LICENSE.md'' = Path Relative [''LICENSE.md'']"
  "PurePath ''release'' = Path Relative [''release'']"
  "PurePath ''build'' = Path Relative [''build'']"
  "PurePath ''bin'' = Path Relative [''bin'']"
  "PurePath ''doc'' = Path Relative [''doc'']"
  "PurePath ''microkit'' = Path Relative [''microkit'']"
  "PurePath ''elf'' = Path Relative [''elf'']"
  "PurePath ''lib'' = Path Relative [''lib'']"
  "PurePath ''include'' = Path Relative [''include'']"
  "PurePath ''example'' = Path Relative [''example'']"
  "PurePath ''sel4'' = Path Relative [''sel4'']"
  "PurePath ''install'' = Path Relative [''install'']"
  "PurePath ''sel4.elf'' = Path Relative [''sel4.elf'']"
  "PurePath ''kernel.elf'' = Path Relative [''kernel.elf'']"
  "PurePath ''microkit.ld'' = Path Relative [''microkit.ld'']"
  by (simp_all add: PurePath_def)

lemma join_path_rel: "anchor q = Relative \<Longrightarrow> join_path p q = Path (anchor p) (segs p @ segs q)"
  by (simp add: join_path_def)

lemma pjoin_rel: "relname s \<Longrightarrow> pjoin p s = Path (anchor p) (segs p @ segs (PurePath s))"
  by (simp add: pjoin_def relname_def join_path_def)

lemma absolute_anchor: "anchor wd \<noteq> Relative \<Longrightarrow> anchor (absolute wd p) \<noteq> Relative"
  by (simp add: absolute_def join_path_def)

lemma absolute_rel:
  "anchor p = Relative \<Longrightarrow> absolute wd p = Path (anchor wd) (segs wd @ segs p)"
  by (simp add: absolute_def join_path_def)

lemma absolute_inj:
  "anchor p = anchor q \<Longrightarrow> absolute wd p = absolute wd q \<longleftrightarrow> p = q"
  by (cases p; cases q) (auto simp: absolute_def join_path_def)

section \<open>What the file operations do\<close>

lemma node_at_update:
  "segs b \<noteq> [] \<Longrightarrow> node_at (AList.update b n f) = (node_at f)(b \<mapsto> n)"
  by (auto simp: node_at_def fun_eq_iff update_conv')

lemma node_at_delete:
  "segs b \<noteq> [] \<Longrightarrow> node_at (AList.delete b f) = (node_at f)(b := None)"
  by (auto simp: node_at_def fun_eq_iff delete_conv')

lemma node_at_root: "segs p = [] \<Longrightarrow> node_at f p = Some Dir"
  by (simp add: node_at_def)

lemma stat_cases:
  "stat env s p = Inr n \<Longrightarrow> node_at (fs s) (absolute (cwd env) p) = Some n"
  "stat env s p = Inl (FileNotFoundError x) \<Longrightarrow> node_at (fs s) (absolute (cwd env) p) = None"
  by (auto simp: stat_def Let_def split: if_splits option.splits)

text \<open>mkdir\<close>

lemma make_dirs_step:
  "node_at (let d = Path an (take n xs)
            in if node_at f d = None then AList.update d Dir f else f) q =
     (if node_at f q = None \<and> q = Path an (take n xs) \<and> segs q \<noteq> [] then Some Dir
      else node_at f q)"
proof (cases "node_at f (Path an (take n xs)) = None")
  case True
  then have "segs (Path an (take n xs)) \<noteq> []" by (auto simp: node_at_def split: if_splits)
  with True show ?thesis by (auto simp: Let_def node_at_update)
next
  case False
  then show ?thesis by (auto simp: Let_def)
qed

lemma make_dirs_fold:
  "node_at (fold (\<lambda>n f. let d = Path an (take n xs)
                  in if node_at f d = None then AList.update d Dir f else f) ns f) q =
     (if node_at f q = None \<and> (\<exists>k\<in>set ns. q = Path an (take k xs)) \<and> segs q \<noteq> []
      then Some Dir else node_at f q)"
proof (induction ns arbitrary: f)
  case Nil
  then show ?case by simp
next
  case (Cons n ns)
  show ?case
    unfolding fold_simps Cons.IH make_dirs_step
    by auto
qed

lemma node_at_make_dirs:
  "node_at (make_dirs a f) q =
     (if node_at f q = None \<and> anchor q = anchor a \<and> prefix (segs q) (segs a) \<and> segs q \<noteq> []
      then Some Dir else node_at f q)"
proof -
  have "(\<exists>k. 1 \<le> k \<and> k \<le> length (segs a) \<and> q = Path (anchor a) (take k (segs a))) \<and> segs q \<noteq> []
      \<longleftrightarrow> anchor q = anchor a \<and> prefix (segs q) (segs a) \<and> segs q \<noteq> []"
  proof
    assume "(\<exists>k. 1 \<le> k \<and> k \<le> length (segs a) \<and> q = Path (anchor a) (take k (segs a))) \<and> segs q \<noteq> []"
    then show "anchor q = anchor a \<and> prefix (segs q) (segs a) \<and> segs q \<noteq> []"
      by (auto simp: take_is_prefix)
  next
    assume r: "anchor q = anchor a \<and> prefix (segs q) (segs a) \<and> segs q \<noteq> []"
    then obtain zs where "segs a = segs q @ zs" by (auto simp: prefix_def)
    with r have "1 \<le> length (segs q) \<and> length (segs q) \<le> length (segs a) \<and>
        q = Path (anchor a) (take (length (segs q)) (segs a))"
      by (cases q) (auto simp: Suc_le_eq)
    with r show "(\<exists>k. 1 \<le> k \<and> k \<le> length (segs a) \<and> q = Path (anchor a) (take k (segs a))) \<and> segs q \<noteq> []"
      by blast
  qed
  moreover have "(\<exists>k\<in>set [1..<Suc (length (segs a))]. q = Path (anchor a) (take k (segs a)))
      \<longleftrightarrow> (\<exists>k. 1 \<le> k \<and> k \<le> length (segs a) \<and> q = Path (anchor a) (take k (segs a)))"
    by (auto simp: less_Suc_eq_le)
  ultimately show ?thesis
    unfolding make_dirs_def make_dirs_fold by auto
qed

lemma mkdir_result:
  assumes "mkdir env p s = (r, s')"
  shows "(\<exists>e. r = Inl e \<and> s' = s) \<or>
         (r = Inr () \<and> log s' = log s @ [Mkdir p] \<and>
          fs s' = make_dirs (absolute (cwd env) p) (fs s))"
  using assms by (auto simp: mkdir_def Let_def split: if_splits)

text \<open>unlink\<close>

lemma unlink_result:
  assumes "unlink env p s = (r, s')"
  shows "(\<exists>e. r = Inl e \<and> s' = s) \<or>
         (r = Inr () \<and> log s' = log s @ [Unlink p] \<and>
          node_at (fs s') = (node_at (fs s))(absolute (cwd env) p := None))"
proof (cases "stat env s p")
  case (Inl e)
  show ?thesis
  proof (cases e)
    case (FileNotFoundError x)
    with Inl have "node_at (fs s) (absolute (cwd env) p) = None" by (simp add: stat_cases)
    then have "node_at (fs s) = (node_at (fs s))(absolute (cwd env) p := None)" by auto
    with Inl FileNotFoundError assms show ?thesis by (auto simp: unlink_def)
  qed (use Inl assms in \<open>auto simp: unlink_def\<close>)
next
  case (Inr n)
  show ?thesis
  proof (cases n)
    case (File c m)
    with Inr have "node_at (fs s) (absolute (cwd env) p) = Some (File c m)" by (simp add: stat_cases)
    then have "segs (absolute (cwd env) p) \<noteq> []" by (auto simp: node_at_def split: if_splits)
    with Inr File assms show ?thesis by (auto simp: unlink_def node_at_delete)
  next
    case Dir
    with Inr assms show ?thesis by (auto simp: unlink_def)
  qed
qed

text \<open>chmod\<close>

lemma chmod_result:
  assumes "chmod env p m s = (r, s')"
  shows "(\<exists>e. r = Inl e \<and> s' = s) \<or>
         (r = Inr () \<and> log s' = log s @ [Chmod p m] \<and>
          (node_at (fs s) (absolute (cwd env) p) = Some Dir \<and> fs s' = fs s \<or>
           (\<exists>c m0. node_at (fs s) (absolute (cwd env) p) = Some (File c m0) \<and>
              node_at (fs s') = (node_at (fs s))(absolute (cwd env) p \<mapsto> File c m))))"
proof (cases "stat env s p")
  case (Inl e)
  with assms show ?thesis by (auto simp: chmod_def)
next
  case (Inr n)
  show ?thesis
  proof (cases n)
    case (File c m0)
    with Inr have n: "node_at (fs s) (absolute (cwd env) p) = Some (File c m0)" by (simp add: stat_cases)
    then have "segs (absolute (cwd env) p) \<noteq> []" by (auto simp: node_at_def split: if_splits)
    with Inr File assms n show ?thesis by (auto simp: chmod_def node_at_update)
  next
    case Dir
    with Inr assms stat_cases(1)[OF Inr] show ?thesis by (auto simp: chmod_def)
  qed
qed

text \<open>system\<close>

lemma system_result:
  "system env cmd s =
     (Inr (fst (os_system env cmd s)),
      \<lparr>fs = snd (os_system env cmd s), log = log s @ [System cmd (fst (os_system env cmd s))]\<rparr>)"
  by (simp add: system_def split: prod.splits)

lemma blocked_cong:
  assumes "\<And>q. q \<noteq> a \<Longrightarrow> node_at f' q = node_at f q"
  shows "blocked f' a = blocked f a"
proof -
  have "Path (anchor a) (take n (segs a)) \<noteq> a" if "n < length (segs a)" for n
  proof
    assume "Path (anchor a) (take n (segs a)) = a"
    then have "segs (Path (anchor a) (take n (segs a))) = segs a" by simp
    then have "length (take n (segs a)) = length (segs a)" by simp
    with that show False by simp
  qed
  with assms show ?thesis
    by (auto simp: blocked_def list_ex_iff)
qed

lemma stat_missing:
  assumes "\<not> blocked (fs s) (absolute (cwd env) p)"
    and "node_at (fs s) (absolute (cwd env) p) = None"
  shows "stat env s p = Inl (FileNotFoundError (str_path p))"
  using assms by (simp add: stat_def)

lemma stat_present:
  assumes "\<not> blocked (fs s) (absolute (cwd env) p)"
    and "node_at (fs s) (absolute (cwd env) p) = Some n"
  shows "stat env s p = Inr n"
  using assms by (simp add: stat_def)

lemma stat_not_blocked:
  "stat env s p = Inr n \<Longrightarrow> \<not> blocked (fs s) (absolute (cwd env) p)"
  "stat env s p = Inl (FileNotFoundError x) \<Longrightarrow> \<not> blocked (fs s) (absolute (cwd env) p)"
  by (auto simp: stat_def Let_def split: if_splits option.splits)

text \<open>copy\<close>

lemma copy_result:
  assumes "copy env src dst s = (r, s')"
  shows "(\<exists>e. r = Inl e \<and> s' = s) \<or>
         (r = Inr () \<and>
          (\<exists>d c m. d = (if stat env s dst = Inr Dir then pjoin dst (basename src) else dst) \<and>
             log s' = log s @ [Copy src d] \<and>
             node_at (fs s) (absolute (cwd env) src) = Some (File c m) \<and>
             absolute (cwd env) src \<noteq> absolute (cwd env) d \<and>
             node_at (fs s') = (node_at (fs s))(absolute (cwd env) d \<mapsto> File c m) \<and>
             \<not> blocked (fs s) (absolute (cwd env) d) \<and>
             segs (absolute (cwd env) d) \<noteq> []))"
proof -
  define d where "d = (if stat env s dst = Inr Dir then pjoin dst (basename src) else dst)"
  have d: "(case stat env s dst of Inr Dir \<Rightarrow> pjoin dst (basename src) | _ \<Rightarrow> dst) = d"
    by (auto simp: d_def split: sum.splits node.splits)
  let ?a = "absolute (cwd env) src" and ?b = "absolute (cwd env) d"
  show ?thesis
  proof (cases "stat env s src")
    case (Inl e)
    with assms show ?thesis by (auto simp: copy_def d Let_def)
  next
    case (Inr n)
    show ?thesis
    proof (cases n)
      case Dir
      with Inr assms show ?thesis by (auto simp: copy_def d Let_def)
    next
      case (File c m)
      with Inr have src: "node_at (fs s) ?a = Some (File c m)" by (simp add: stat_cases)
      show ?thesis
      proof (cases "?a = ?b")
        case True
        with Inr File assms show ?thesis by (auto simp: copy_def d Let_def)
      next
        case ab: False
        have written: ?thesis
          if w: "r = Inr ()" "s' = s\<lparr>fs := AList.update ?b (File c m) (fs s), log := log s @ [Copy src d]\<rparr>"
            and nb: "\<not> blocked (fs s) ?b" and nd: "node_at (fs s) ?b \<noteq> Some Dir"
        proof -
          from nd have ne: "segs ?b \<noteq> []" by (auto simp: node_at_def)
          with w src ab nb show ?thesis
            by (auto simp: node_at_update d_def)
        qed
        show ?thesis
        proof (cases "stat env s d")
          case (Inl e)
          show ?thesis
          proof (cases e)
            case (FileNotFoundError x)
            note nf = Inl[unfolded FileNotFoundError]
            show ?thesis
            proof (cases "stat env s (parent d)")
              case (Inl e')
              with Inr File ab nf assms show ?thesis by (auto simp: copy_def d Let_def)
            next
              case pr: (Inr n')
              show ?thesis
              proof (cases n')
                case Dir
                with pr Inr File ab nf assms
                have "r = Inr ()" "s' = s\<lparr>fs := AList.update ?b (File c m) (fs s), log := log s @ [Copy src d]\<rparr>"
                  by (auto simp: copy_def d Let_def)
                moreover from nf have "\<not> blocked (fs s) ?b" "node_at (fs s) ?b \<noteq> Some Dir"
                  by (simp_all add: stat_not_blocked stat_cases)
                ultimately show ?thesis by (rule written)
              next
                case (File c' m')
                with pr Inr \<open>n = File c m\<close> ab nf assms show ?thesis by (auto simp: copy_def d Let_def)
              qed
            qed
          qed (use Inl Inr File ab assms in \<open>auto simp: copy_def d Let_def\<close>)
        next
          case dst: (Inr n')
          show ?thesis
          proof (cases n')
            case Dir
            with dst Inr File ab assms show ?thesis by (auto simp: copy_def d Let_def)
          next
            case f': (File c' m')
            show ?thesis
            proof (cases "writable m'")
              case True
              with f' dst Inr File ab assms
              have "r = Inr ()" "s' = s\<lparr>fs := AList.update ?b (File c m) (fs s), log := log s @ [Copy src d]\<rparr>"
                by (auto simp: copy_def d Let_def)
              moreover from dst f' have "\<not> blocked (fs s) ?b" "node_at (fs s) ?b \<noteq> Some Dir"
                by (simp_all add: stat_not_blocked stat_cases)
              ultimately show ?thesis by (rule written)
            next
              case False
              with f' dst Inr File ab assms show ?thesis by (auto simp: copy_def d Let_def)
            qed
          qed
        qed
      qed
    qed
  qed
qed

lemma unlink_not_blocked:
  assumes "unlink env p s = (Inr (), s')"
  shows "\<not> blocked (fs s) (absolute (cwd env) p)"
proof (cases "stat env s p")
  case (Inl e)
  with assms show ?thesis by (cases e) (auto simp: unlink_def stat_not_blocked)
next
  case (Inr n)
  then show ?thesis by (simp add: stat_not_blocked)
qed

lemma chmod_file:
  assumes "stat env s p = Inr (File c m0)"
  shows "chmod env p m s =
     (Inr (), s\<lparr>fs := AList.update (absolute (cwd env) p) (File c m) (fs s),
                 log := log s @ [Chmod p m]\<rparr>)"
  using assms by (simp add: chmod_def)

lemma chmod_after_write:
  assumes nb: "\<not> blocked (fs s1) (absolute (cwd env) d)"
    and upd: "node_at (fs s2) = (node_at (fs s1))(absolute (cwd env) d \<mapsto> File c m0)"
    and ch: "chmod env d m s2 = (r, s')"
  shows "r = Inr () \<and> log s' = log s2 @ [Chmod d m] \<and>
         node_at (fs s') = (node_at (fs s1))(absolute (cwd env) d \<mapsto> File c m)"
proof -
  let ?a = "absolute (cwd env) d"
  have "blocked (fs s2) ?a = blocked (fs s1) ?a"
    by (rule blocked_cong) (simp add: upd)
  with nb upd have st: "stat env s2 d = Inr (File c m0)"
    by (simp add: stat_present)
  then have "node_at (fs s2) ?a = Some (File c m0)" by (simp add: stat_cases)
  then have ne: "segs ?a \<noteq> []" by (auto simp: node_at_def split: if_splits)
  from chmod_file[OF st, of m] ch ne upd show ?thesis
    by (auto simp: node_at_update)
qed

text \<open>Staging one file: unlink, copy, chmod.\<close>

lemma stage_result:
  assumes "bind (unlink env d) (\<lambda>_. bind (copy env src d) (\<lambda>_. chmod env d m)) s = (r, s')"
  shows "(\<exists>e. r = Inl e \<and>
            (s' = s \<or> log s' = log s @ [Unlink d] \<and>
               node_at (fs s') = (node_at (fs s))(absolute (cwd env) d := None) \<and>
               unlink env d s = (Inr (), s'))) \<or>
         (r = Inr () \<and> log s' = log s @ [Unlink d, Copy src d, Chmod d m] \<and>
            (\<exists>c m0. node_at (fs s) (absolute (cwd env) src) = Some (File c m0) \<and>
               node_at (fs s') = (node_at (fs s))(absolute (cwd env) d \<mapsto> File c m)))"
  using assms
proof (cases rule: bind_cases)
  case (fail e)
  with unlink_result[OF fail(1)] show ?thesis by auto
next
  case (ok x s1)
  let ?a = "absolute (cwd env) d"
  from ok(1) have u: "unlink env d s = (Inr (), s1)" by simp
  from unlink_result[OF ok(1)]
  have l1: "log s1 = log s @ [Unlink d]" and n1: "node_at (fs s1) = (node_at (fs s))(?a := None)"
    by auto
  have "blocked (fs s1) ?a = blocked (fs s) ?a"
    by (rule blocked_cong) (simp add: n1)
  with unlink_not_blocked[OF u] have nb1: "\<not> blocked (fs s1) ?a" by simp
  with n1 have st1: "stat env s1 d = Inl (FileNotFoundError (str_path d))"
    by (simp add: stat_missing)
  from ok(2) show ?thesis
  proof (cases rule: bind_cases)
    case (fail e)
    with copy_result[OF fail(1)] l1 n1 u show ?thesis by auto
  next
    case (ok y s2)
    from copy_result[OF ok(1)] st1 obtain c m0 where
      l2: "log s2 = log s1 @ [Copy src d]"
      and src: "node_at (fs s1) (absolute (cwd env) src) = Some (File c m0)"
      and ne: "absolute (cwd env) src \<noteq> ?a"
      and n2: "node_at (fs s2) = (node_at (fs s1))(?a \<mapsto> File c m0)"
      by auto
    from chmod_after_write[OF nb1 n2 ok(2)] l1 l2 n1 src ne show ?thesis
      by auto
  qed
qed

text \<open>Copying the tool and making it executable.\<close>

lemma tool_result:
  assumes "bind (copy env src t) (\<lambda>_. chmod env t m) s = (r, s')"
  shows "(\<exists>e. r = Inl e \<and> (s' = s \<or> copy env src t s = (Inr (), s'))) \<or>
         (r = Inr () \<and>
            (\<exists>d. (d = t \<or> d = pjoin t (basename src)) \<and>
               log s' = log s @ [Copy src d, Chmod t m] \<and>
               (\<forall>q. q \<noteq> absolute (cwd env) d \<longrightarrow> q \<noteq> absolute (cwd env) t \<longrightarrow>
                  node_at (fs s') q = node_at (fs s) q)))"
  using assms
proof (cases rule: bind_cases)
  case (fail e)
  with copy_result[OF fail(1)] show ?thesis by auto
next
  case (ok x s1)
  from copy_result[OF ok(1)] obtain d c m0 where
    d: "d = t \<or> d = pjoin t (basename src)"
    and l1: "log s1 = log s @ [Copy src d]"
    and n1: "node_at (fs s1) = (node_at (fs s))(absolute (cwd env) d \<mapsto> File c m0)"
    by (auto split: if_splits)
  from chmod_result[OF ok(2)] show ?thesis
  proof
    assume "\<exists>e. r = Inl e \<and> s' = s1"
    moreover from ok(1) have "copy env src t s = (Inr (), s1)" by simp
    ultimately show ?thesis by auto
  next
    assume a: "r = Inr () \<and> log s' = log s1 @ [Chmod t m] \<and>
      (node_at (fs s1) (absolute (cwd env) t) = Some Dir \<and> fs s' = fs s1 \<or>
       (\<exists>c m0. node_at (fs s1) (absolute (cwd env) t) = Some (File c m0) \<and>
          node_at (fs s') = (node_at (fs s1))(absolute (cwd env) t \<mapsto> File c m)))"
    then have "\<forall>q. q \<noteq> absolute (cwd env) d \<longrightarrow> q \<noteq> absolute (cwd env) t \<longrightarrow>
                  node_at (fs s') q = node_at (fs s) q"
      using n1 by auto
    with a d l1 show ?thesis by auto
  qed
qed

text \<open>rglob\<close>

lemma rglob_result:
  assumes "rglob env sd s = (r, s')"
  shows "s' = s \<and> (\<exists>ps. r = Inr ps \<and>
           (\<forall>p\<in>set ps. \<exists>extra. extra \<noteq> [] \<and> p = Path (anchor sd) (segs sd @ extra)))"
proof -
  have "drop (length xs) ys \<noteq> []" if "strict_prefix xs ys" for xs ys :: "string list"
    using that by (auto simp: strict_prefix_def prefix_def)
  with assms show ?thesis
    by (auto simp: rglob_def Let_def split: sum.splits node.splits)
qed

lemma relative_to_below:
  "relative_to (Path (anchor sd) (segs sd @ extra)) sd = Inr (Path Relative extra)"
  by (simp add: relative_to_def)

section \<open>Every run is a sequence of complete steps\<close>

lemma reach_trans:
  "reach env root build s1 s2 \<Longrightarrow> reach env root build s s1 \<Longrightarrow> reach env root build s s2"
proof (induction rule: reach.induct)
  case (reach_refl s) then show ?case by simp
next
  case (reach_mkdir s s1 p s2) then show ?case by (blast intro: reach.reach_mkdir)
next
  case (reach_system s s1 cmd s2) then show ?case by (blast intro: reach.reach_system)
next
  case (reach_stage s s1 d src s2) then show ?case by (blast intro: reach.reach_stage)
next
  case (reach_license s s1 s2) then show ?case by (blast intro: reach.reach_license)
next
  case (reach_tool s s1 src s2) then show ?case by (blast intro: reach.reach_tool)
qed

lemma halted_refl: "halted env root s s"
  by (simp add: halted_def)

lemma tracedI:
  assumes "\<And>s x s'. m s = (Inr x, s') \<Longrightarrow> reach env root build s s'"
    and "\<And>s e s'. m s = (Inl e, s') \<Longrightarrow> \<exists>s1. reach env root build s s1 \<and> halted env root s1 s'"
  shows "traced env root build m"
  unfolding traced_def using assms by (auto split: sum.splits)

lemma tracedD_ok: "traced env root build m \<Longrightarrow> m s = (Inr x, s') \<Longrightarrow> reach env root build s s'"
  unfolding traced_def by fastforce

lemma tracedD_fail:
  "traced env root build m \<Longrightarrow> m s = (Inl e, s') \<Longrightarrow>
     \<exists>s1. reach env root build s s1 \<and> halted env root s1 s'"
  unfolding traced_def by fastforce

lemma traced_pure:
  assumes "\<And>s r s'. m s = (r, s') \<Longrightarrow> s' = s"
  shows "traced env root build m"
proof (rule tracedI)
  fix s x s' assume "m s = (Inr x, s')"
  with assms have "s' = s" by blast
  then show "reach env root build s s'" by (simp add: reach_refl)
next
  fix s e s' assume "m s = (Inl e, s')"
  with assms have "s' = s" by blast
  then show "\<exists>s1. reach env root build s s1 \<and> halted env root s1 s'"
    using reach_refl halted_refl by blast
qed

lemma traced_return [simp]: "traced env root build (return x)"
  by (rule traced_pure) simp

lemma traced_raise [simp]: "traced env root build (raise e)"
  by (rule traced_pure) simp

lemma traced_lift [simp]: "traced env root build (lift v)"
  by (rule traced_pure) (simp add: lift_eq)

lemma traced_assert [simp]: "traced env root build (assert b)"
  by (rule traced_pure) (simp add: assert_eq)

lemma traced_exists [simp]: "traced env root build (exists env p)"
  by (rule traced_pure) (auto simp: exists_def)

lemma traced_is_file [simp]: "traced env root build (is_file env p)"
  by (rule traced_pure) (auto simp: is_file_def)

lemma traced_rglob [simp]: "traced env root build (rglob env p)"
  by (rule traced_pure) (auto dest: rglob_result)

lemma traced_bind:
  assumes m: "traced env root build m" and k: "\<And>x. traced env root build (k x)"
  shows "traced env root build (bind m k)"
proof (rule tracedI)
  fix s y s' assume "bind m k s = (Inr y, s')"
  then show "reach env root build s s'"
  proof (cases rule: bind_cases)
    case (ok x s1)
    from tracedD_ok[OF k ok(2)] tracedD_ok[OF m ok(1)] show ?thesis by (rule reach_trans)
  qed simp
next
  fix s e s' assume "bind m k s = (Inl e, s')"
  then show "\<exists>s1. reach env root build s s1 \<and> halted env root s1 s'"
  proof (cases rule: bind_cases)
    case (fail e')
    from tracedD_fail[OF m fail(1)] show ?thesis .
  next
    case (ok x s1)
    from tracedD_fail[OF k ok(2)] obtain s2 where
      "reach env root build s1 s2" "halted env root s2 s'" by blast
    with tracedD_ok[OF m ok(1)] show ?thesis by (blast intro: reach_trans)
  qed
qed

lemma traced_if:
  "(c \<Longrightarrow> traced env root build m) \<Longrightarrow> (\<not> c \<Longrightarrow> traced env root build n) \<Longrightarrow>
   traced env root build (if c then m else n)"
  by simp

lemma traced_for_each:
  assumes "\<And>x. x \<in> set xs \<Longrightarrow> traced env root build (body x)"
  shows "traced env root build (for_each xs body)"
  using assms by (induction xs) (auto intro: traced_bind)

lemma traced_mkdir:
  assumes "within root p \<or> within build p"
  shows "traced env root build (mkdir env p)"
proof (rule tracedI)
  fix s x s' assume "mkdir env p s = (Inr x, s')"
  then have "mkdir env p s = (Inr (), s')" by simp
  from reach_mkdir[OF reach_refl assms this] show "reach env root build s s'" .
next
  fix s e s' assume "mkdir env p s = (Inl e, s')"
  from mkdir_result[OF this] have "s' = s" by auto
  then show "\<exists>s1. reach env root build s s1 \<and> halted env root s1 s'"
    using reach_refl halted_refl by blast
qed

lemma traced_system_if:
  assumes "traced env root build k"
  shows "traced env root build (bind (system env cmd) (\<lambda>r. if r \<noteq> 0 then raise e else k))"
proof (rule tracedI)
  fix s x s' assume a: "bind (system env cmd) (\<lambda>r. if r \<noteq> 0 then raise e else k) s = (Inr x, s')"
  then show "reach env root build s s'"
  proof (cases rule: bind_cases)
    case (ok r s1)
    then have r: "r = 0" and k: "k s1 = (Inr x, s')" by (auto split: if_splits)
    from ok(1) r have "system env cmd s = (Inr 0, s1)" by simp
    from reach_system[OF reach_refl this] tracedD_ok[OF assms k]
    show ?thesis by (blast intro: reach_trans)
  qed simp
next
  fix s e' s' assume a: "bind (system env cmd) (\<lambda>r. if r \<noteq> 0 then raise e else k) s = (Inl e', s')"
  then show "\<exists>s1. reach env root build s s1 \<and> halted env root s1 s'"
  proof (cases rule: bind_cases)
    case (fail e'')
    then show ?thesis by (simp add: system_result)
  next
    case (ok r s1)
    show ?thesis
    proof (cases "r = 0")
      case True
      with ok have "system env cmd s = (Inr 0, s1)" "k s1 = (Inl e', s')" by auto
      from reach_system[OF reach_refl this(1)] tracedD_fail[OF assms this(2)]
      show ?thesis by (blast intro: reach_trans)
    next
      case False
      with ok have "s' = s1" by simp
      with ok(1) False have "halted env root s s'" unfolding halted_def by blast
      then show ?thesis using reach_refl by blast
    qed
  qed
qed

lemma system_assert_eq:
  "bind (system env cmd) (\<lambda>r. bind (assert (r = 0)) k) =
   bind (system env cmd) (\<lambda>r. if r \<noteq> 0 then raise AssertionError else k ())"
  by (rule arg_cong[where f = "bind (system env cmd)"]) (auto simp: assert_def fun_eq_iff)

lemma traced_system_assert_then:
  assumes "traced env root build (k ())"
  shows "traced env root build (bind (system env cmd) (\<lambda>r. bind (assert (r = 0)) k))"
  unfolding system_assert_eq by (rule traced_system_if[OF assms])

lemma traced_system_assert:
  "traced env root build (bind (system env cmd) (\<lambda>r. assert (r = 0)))"
proof -
  have "bind (system env cmd) (\<lambda>r. assert (r = 0)) =
        bind (system env cmd) (\<lambda>r. if r \<noteq> 0 then raise AssertionError else return ())"
    by (rule arg_cong[where f = "bind (system env cmd)"]) (auto simp: assert_def fun_eq_iff)
  then show ?thesis by (simp add: traced_system_if)
qed

lemma traced_stage:
  assumes "staged_dest root d"
  shows "traced env root build
           (bind (unlink env d) (\<lambda>_. bind (copy env src d) (\<lambda>_. chmod env d 292)))"
proof (rule tracedI)
  fix s x s'
  assume "bind (unlink env d) (\<lambda>_. bind (copy env src d) (\<lambda>_. chmod env d 292)) s = (Inr x, s')"
  then have "bind (unlink env d) (\<lambda>_. bind (copy env src d) (\<lambda>_. chmod env d 292)) s = (Inr (), s')"
    by simp
  from reach_stage[OF reach_refl assms this] show "reach env root build s s'" .
next
  fix s e s'
  assume "bind (unlink env d) (\<lambda>_. bind (copy env src d) (\<lambda>_. chmod env d 292)) s = (Inl e, s')"
  from stage_result[OF this] assms have "halted env root s s'"
    unfolding halted_def by auto
  then show "\<exists>s1. reach env root build s s1 \<and> halted env root s1 s'"
    using reach_refl by blast
qed

lemma traced_stage_then:
  assumes "staged_dest root d" and "traced env root build k"
  shows "traced env root build
           (bind (unlink env d) (\<lambda>_. bind (copy env src d) (\<lambda>_. bind (chmod env d 292) (\<lambda>_. k))))"
proof -
  have "bind (unlink env d) (\<lambda>_. bind (copy env src d) (\<lambda>_. bind (chmod env d 292) (\<lambda>_. k))) =
        bind (bind (unlink env d) (\<lambda>_. bind (copy env src d) (\<lambda>_. chmod env d 292))) (\<lambda>_. k)"
    by (simp add: bind_assoc)
  then show ?thesis
    using traced_bind[OF traced_stage[OF assms(1)], where k = "\<lambda>_. k"] assms(2) by simp
qed

lemma traced_license: "traced env root build (copy env (PurePath ''LICENSE.md'') root)"
proof (rule tracedI)
  fix s x s' assume "copy env (PurePath ''LICENSE.md'') root s = (Inr x, s')"
  then have "copy env (PurePath ''LICENSE.md'') root s = (Inr (), s')" by simp
  from reach_license[OF reach_refl this] show "reach env root build s s'" .
next
  fix s e s' assume "copy env (PurePath ''LICENSE.md'') root s = (Inl e, s')"
  from copy_result[OF this] have "s' = s" by auto
  then show "\<exists>s1. reach env root build s s1 \<and> halted env root s1 s'"
    using reach_refl halted_refl by blast
qed

lemma traced_tool:
  assumes "basename src = ''microkit''"
  shows "traced env root build
           (bind (copy env src (tool_path root)) (\<lambda>_. chmod env (tool_path root) 511))"
proof (rule tracedI)
  fix s x s'
  assume "bind (copy env src (tool_path root)) (\<lambda>_. chmod env (tool_path root) 511) s = (Inr x, s')"
  then have "bind (copy env src (tool_path root)) (\<lambda>_. chmod env (tool_path root) 511) s = (Inr (), s')"
    by simp
  from reach_tool[OF reach_refl assms this] show "reach env root build s s'" .
next
  fix s e s'
  assume "bind (copy env src (tool_path root)) (\<lambda>_. chmod env (tool_path root) 511) s = (Inl e, s')"
  from tool_result[OF this] assms have "halted env root s s'"
    unfolding halted_def by auto
  then show "\<exists>s1. reach env root build s s1 \<and> halted env root s1 s'"
    using reach_refl by blast
qed

section \<open>Where the stages write\<close>

lemma split_on_nonempty: "split_on c xs \<noteq> []"
  by (induction xs) (auto split: list.splits)

lemma split_on_append:
  "split_on c (xs @ c # ys) = split_on c xs @ split_on c ys"
proof (induction xs)
  case Nil
  then show ?case by simp
next
  case (Cons x xs)
  obtain y zs where "split_on c xs = y # zs"
    using split_on_nonempty[of c xs] by (cases "split_on c xs") auto
  with Cons show ?case by (auto split: list.splits)
qed

lemma basename_tool_output:
  "basename (PurePath (''./tool/build/'' @ triple @ ''/release/install/microkit'')) = ''microkit''"
proof -
  have "''./tool/build/'' @ triple @ ''/release/install/microkit'' =
        (''./tool/build/'' @ triple @ ''/release/install'') @ CHR ''/'' # ''microkit''"
    by simp
  then have "split_on CHR ''/'' (''./tool/build/'' @ triple @ ''/release/install/microkit'') =
        split_on CHR ''/'' (''./tool/build/'' @ triple @ ''/release/install'') @ [''microkit'']"
    by (simp only: split_on_append) simp
  then show ?thesis
    by (simp add: basename_def PurePath_def)
qed

lemma relname_iff: "relname s \<longleftrightarrow> \<not> prefix ''/'' s"
  by (auto simp: relname_def PurePath_def prefix_def)

lemma pjoin_anchor [simp]: "relname s \<Longrightarrow> anchor (pjoin p s) = anchor p"
  by (simp add: pjoin_rel)

lemma pjoin_segs [simp]: "relname s \<Longrightarrow> segs (pjoin p s) = segs p @ segs (PurePath s)"
  by (simp add: pjoin_rel)

lemma relname_simple [simp]:
  "relname ''board''" "relname ''LICENSES''" "relname ''LICENSE.md''" "relname ''bin''"
  "relname ''doc''" "relname ''microkit''" "relname ''elf''" "relname ''lib''"
  "relname ''include''" "relname ''example''" "relname ''sel4''" "relname ''install''"
  "relname ''build''" "relname ''sel4.elf''" "relname ''kernel.elf''" "relname ''microkit.ld''"
  "relname ''microkit_user_manual.pdf''"
  by (simp_all add: relname_iff)

lemma pjoins_Nil [simp]: "pjoins p [] = p"
  by (simp add: pjoins_def)

lemma pjoins_Cons [simp]: "pjoins p (x # xs) = pjoins (pjoin p x) xs"
  by (simp add: pjoins_def)

lemma within_refl [simp]: "within p p"
  by (simp add: within_def)

lemma prefix_strict_append:
  "prefix xs ys \<Longrightarrow> zs \<noteq> [] \<Longrightarrow> strict_prefix xs (ys @ zs)"
proof -
  assume "prefix xs ys" "zs \<noteq> []"
  then obtain us where "ys = xs @ us" by (auto simp: prefix_def)
  with \<open>zs \<noteq> []\<close> show ?thesis by (simp add: strict_prefix_def)
qed

lemma strict_prefix_append:
  "strict_prefix xs ys \<Longrightarrow> strict_prefix xs (ys @ zs)"
proof -
  assume "strict_prefix xs ys"
  then obtain us where "ys = xs @ us" "us \<noteq> []" by (auto simp: strict_prefix_def prefix_def)
  then show ?thesis by (simp add: strict_prefix_def)
qed

lemma within_pjoin: "within r p \<Longrightarrow> relname s \<Longrightarrow> within r (pjoin p s)"
  by (simp add: within_def)

lemma below_pjoin: "within r p \<Longrightarrow> relname s \<Longrightarrow> segs (PurePath s) \<noteq> [] \<Longrightarrow> below r (pjoin p s)"
  by (simp add: within_def below_def prefix_strict_append)

lemma below_pjoin': "below r p \<Longrightarrow> relname s \<Longrightarrow> below r (pjoin p s)"
  by (simp add: below_def strict_prefix_append)

lemma within_trans: "within a b \<Longrightarrow> within b c \<Longrightarrow> within a c"
  by (auto simp: within_def)

lemma below_within: "below a b \<Longrightarrow> within a b"
  by (simp add: below_def within_def strict_prefix_def)

lemma segs_simple [simp]:
  "segs (PurePath ''elf'') \<noteq> []" "segs (PurePath ''lib'') \<noteq> []"
  "segs (PurePath ''include'') \<noteq> []" "segs (PurePath ''example'') \<noteq> []"
  by (simp_all add: PurePath_def)

text \<open>Destinations under \<^verbatim>\<open>board/<board>/<config>/<category>/\<close> are staged destinations.\<close>

lemma staged_category:
  assumes "relname n" "relname c" "relname cat" "segs (PurePath cat) \<noteq> []" "relname x"
  shows "staged_dest root (pjoins root [''board'', n, c, cat, x])"
    and "within (pjoin root ''board'') (pjoins root [''board'', n, c, cat])"
    and "within root (pjoins root [''board'', n, c, cat])"
proof -
  have w: "within (pjoin root ''board'') (pjoin (pjoin root ''board'') n)"
    using assms by (simp add: within_pjoin)
  then have "within (pjoin root ''board'') (pjoin (pjoin (pjoin root ''board'') n) c)"
    using assms by (simp add: within_pjoin)
  then have b: "below (pjoin root ''board'') (pjoin (pjoin (pjoin (pjoin root ''board'') n) c) cat)"
    using assms by (simp add: below_pjoin)
  then show "staged_dest root (pjoins root [''board'', n, c, cat, x])"
    using assms by (simp add: staged_dest_def below_pjoin')
  from b show "within (pjoin root ''board'') (pjoins root [''board'', n, c, cat])"
    by (simp add: below_within)
  moreover have "within root (pjoin root ''board'')" by (simp add: within_pjoin)
  ultimately show "within root (pjoins root [''board'', n, c, cat])"
    by (blast intro: within_trans)
qed

lemma within_build:
  assumes "relname n" "relname c" "relname x"
  shows "within build (pjoins build [n, c, x])"
  using assms by (simp add: within_pjoin)

section \<open>The stages are sequences of complete steps\<close>

lemma traced_bind_rglob:
  assumes "\<And>ps. \<forall>p\<in>set ps. \<exists>extra. extra \<noteq> [] \<and> p = Path (anchor sd) (segs sd @ extra) \<Longrightarrow>
             traced env root build (k ps)"
  shows "traced env root build (bind (rglob env sd) k)"
proof (rule tracedI)
  fix s x s' assume "bind (rglob env sd) k s = (Inr x, s')"
  then show "reach env root build s s'"
  proof (cases rule: bind_cases)
    case (ok ps s1)
    from rglob_result[OF ok(1)] have "s1 = s"
      "\<forall>p\<in>set ps. \<exists>extra. extra \<noteq> [] \<and> p = Path (anchor sd) (segs sd @ extra)" by auto
    with tracedD_ok[OF assms, of ps s1 x s'] ok(2) show ?thesis by simp
  qed simp
next
  fix s e s' assume "bind (rglob env sd) k s = (Inl e, s')"
  then show "\<exists>s1. reach env root build s s1 \<and> halted env root s1 s'"
  proof (cases rule: bind_cases)
    case (fail e')
    from rglob_result[OF fail(1)] show ?thesis by auto
  next
    case (ok ps s1)
    from rglob_result[OF ok(1)] have "s1 = s"
      "\<forall>p\<in>set ps. \<exists>extra. extra \<noteq> [] \<and> p = Path (anchor sd) (segs sd @ extra)" by auto
    with tracedD_fail[OF assms, of ps s1 e s'] ok(2) show ?thesis by simp
  qed
qed

lemma traced_copy_tree:
  assumes inc: "within (pjoin root ''board'') inc \<or> within (pjoin root ''LICENSES'') inc"
  shows "traced env root build (copy_tree env sd inc)"
  unfolding copy_tree_def
proof (rule traced_bind_rglob, rule traced_for_each)
  fix ps p
  assume ps: "\<forall>p\<in>set ps. \<exists>extra. extra \<noteq> [] \<and> p = Path (anchor sd) (segs sd @ extra)"
    and p: "p \<in> set ps"
  then obtain extra where e: "extra \<noteq> []" "p = Path (anchor sd) (segs sd @ extra)" by blast
  let ?dest = "Path (anchor inc) (segs inc @ extra)"
  have rel: "relative_to p sd = Inr (Path Relative extra)"
    using e by (simp add: relative_to_def)
  have dest: "join_path inc (Path Relative extra) = ?dest"
    by (simp add: join_path_def)
  have st: "staged_dest root ?dest"
    using inc e(1) by (auto simp: staged_dest_def below_def within_def prefix_strict_append)
  have "within root (pjoin root ''board'')" "within root (pjoin root ''LICENSES'')"
    by (simp_all add: within_pjoin)
  with inc have "within root inc" by (blast intro: within_trans)
  then have par: "within root (parent ?dest)"
    using e(1) by (simp add: within_def parent_def butlast_append)
  show "traced env root build
          (bind (is_file env p) (\<lambda>regular.
             if \<not> regular then return ()
             else bind (lift (relative_to p sd)) (\<lambda>rel.
                    let dest = join_path inc rel
                    in bind (mkdir env (parent dest)) (\<lambda>_.
                       bind (unlink env dest) (\<lambda>_.
                       bind (copy env p dest) (\<lambda>_. chmod env dest 292))))))"
  proof (rule traced_bind[OF traced_is_file])
    fix regular
    have inner: "traced env root build
          (bind (mkdir env (parent ?dest)) (\<lambda>_.
           bind (unlink env ?dest) (\<lambda>_.
           bind (copy env p ?dest) (\<lambda>_. chmod env ?dest 292))))"
      by (intro traced_stage[OF st] traced_mkdir[OF disjI1[OF par]] traced_bind)
    then show "traced env root build
          (if \<not> regular then return ()
           else bind (lift (relative_to p sd)) (\<lambda>rel.
                  let dest = join_path inc rel
                  in bind (mkdir env (parent dest)) (\<lambda>_.
                     bind (unlink env dest) (\<lambda>_.
                     bind (copy env p dest) (\<lambda>_. chmod env dest 292)))))"
      by (simp add: rel lift_def dest Let_def)
  qed
qed

lemma traced_test_tool: "traced env root build (test_tool env)"
  unfolding test_tool_def by (rule traced_system_assert)

lemma traced_build_doc: "traced env root build (build_doc env r)"
  unfolding build_doc_def by (simp add: traced_system_assert)

lemma traced_build_tool: "traced env root build (build_tool env (tool_path root) triple)"
  unfolding build_tool_def Let_def
  by (intro traced_tool basename_tool_output traced_system_assert_then traced_if traced_raise
        traced_exists traced_bind)

lemma traced_build_elf_component:
  assumes "relname (name board)" "relname (cname config)" "relname component_name"
    "relname (component_name @ ''.elf'')"
  shows "traced env root build
           (build_elf_component env component_name root build board config defines)"
  unfolding build_elf_component_def Let_def
  by (intro traced_stage traced_system_if traced_mkdir disjI2
        within_build staged_category assms traced_bind) simp_all

lemma traced_build_lib_component:
  assumes "relname (name board)" "relname (cname config)" "relname component_name"
    "relname (component_name @ ''.a'')"
  shows "traced env root build
           (build_lib_component env component_name root build board config)"
proof -
  have a: "staged_dest root (pjoin (pjoins root [''board'', name board, cname config, ''lib''])
             (component_name @ ''.a''))"
    using staged_category(1)[where n = "name board" and c = "cname config" and cat = "''lib''"
        and x = "component_name @ ''.a''" and root = root]
      assms by simp
  have b: "staged_dest root (pjoin (pjoins root [''board'', name board, cname config, ''lib''])
             ''microkit.ld'')"
    using staged_category(1)[where n = "name board" and c = "cname config" and cat = "''lib''"
        and x = "''microkit.ld''" and root = root]
      assms by simp
  have c: "within (pjoin root ''board'') (pjoins root [''board'', name board, cname config, ''include''])"
    using staged_category(2)[where n = "name board" and c = "cname config" and cat = "''include''"
        and root = root] assms by simp
  show ?thesis
    unfolding build_lib_component_def Let_def
    by (intro traced_stage_then traced_system_if traced_mkdir disjI2
          within_build assms a b traced_copy_tree disjI1 c traced_bind)
qed

lemma traced_build_sel4:
  assumes "relname (name board)" "relname (cname config)"
  shows "traced env root build (build_sel4 env sel4_dir root build board config)"
proof -
  have d: "within build (pjoins build [name board, cname config, ''sel4''])"
    using assms by (simp add: within_pjoin)
  then have d2: "within build (pjoin (pjoins build [name board, cname config, ''sel4'']) ''install'')"
    "within build (pjoin (pjoins build [name board, cname config, ''sel4'']) ''build'')"
    by (simp_all add: within_pjoin)
  have a: "staged_dest root (pjoins root [''board'', name board, cname config, ''elf'', ''sel4.elf''])"
    using staged_category(1)[where n = "name board" and c = "cname config" and cat = "''elf''"
        and x = "''sel4.elf''" and root = root] assms by simp
  have c: "within (pjoin root ''board'') (pjoins root [''board'', name board, cname config, ''include''])"
    using staged_category(2)[where n = "name board" and c = "cname config" and cat = "''include''"
        and root = root] assms by simp
  show ?thesis
    unfolding build_sel4_def Let_def
    by (intro traced_stage_then traced_system_if traced_lift traced_mkdir disjI2
          d d2 a traced_for_each traced_copy_tree disjI1 c traced_bind)
qed

lemma relname_components [simp]:
  "relname ''loader''" "relname ''loader.elf''" "relname ''monitor''" "relname ''monitor.elf''"
  "relname ''libmicrokit''" "relname ''libmicrokit.a''"
  by (simp_all add: relname_iff)

lemma traced_build_cell:
  assumes "relname (name board)" "relname (cname config)"
  shows "traced env root build (build_cell env sel4_dir root build board config)"
  unfolding build_cell_def Let_def
  by (intro traced_bind traced_build_sel4 traced_build_elf_component traced_build_lib_component
        assms) simp_all

lemma traced_build_matrix:
  assumes "plain_names boards configs"
  shows "traced env root build (build_matrix env sel4_dir root build boards configs)"
  unfolding build_matrix_def
proof (rule traced_for_each)
  fix board assume b: "board \<in> set boards"
  with assms have n: "relname (name board)" by (simp add: plain_names_def)
  have cells: "traced env root build (for_each configs (build_cell env sel4_dir root build board))"
  proof (rule traced_for_each)
    fix config assume "config \<in> set configs"
    with assms have "relname (cname config)" by (simp add: plain_names_def)
    with n show "traced env root build (build_cell env sel4_dir root build board config)"
      by (rule traced_build_cell)
  qed
  have exs: "traced env root build
        (for_each (examples board) (\<lambda>(example, example_path).
           let include_dir = pjoins root [''board'', name board, ''example'', example];
               source_dir = PurePath example_path
           in copy_tree env source_dir include_dir))"
  proof (rule traced_for_each)
    fix x assume x: "x \<in> set (examples board)"
    obtain example example_path where xe: "x = (example, example_path)" by (cases x)
    from x b assms have "relname (fst x)" unfolding plain_names_def by blast
    with xe have "relname example" by simp
    with n have "within (pjoin root ''board'') (pjoins root [''board'', name board, ''example'', example])"
      by (simp add: within_pjoin)
    then show "traced env root build
        ((\<lambda>(example, example_path).
           let include_dir = pjoins root [''board'', name board, ''example'', example];
               source_dir = PurePath example_path
           in copy_tree env source_dir include_dir) x)"
      unfolding xe by (simp only: prod.case Let_def) (rule traced_copy_tree, rule disjI1)
  qed
  from cells exs show "traced env root build
        (bind (for_each configs (build_cell env sel4_dir root build board)) (\<lambda>_.
         for_each (examples board) (\<lambda>(example, example_path).
           let include_dir = pjoins root [''board'', name board, ''example'', example];
               source_dir = PurePath example_path
           in copy_tree env source_dir include_dir)))"
    by (intro traced_bind)
qed

lemma dir_structure_within:
  assumes "plain_names boards configs" and "p \<in> set (dir_structure root boards configs)"
  shows "within root p"
  using assms
  by (auto simp: dir_structure_def plain_names_def Let_def within_pjoin)

lemma plain_catalog: "plain_names SUPPORTED_BOARDS SUPPORTED_CONFIGS"
  by (simp add: plain_names_def SUPPORTED_BOARDS_def SUPPORTED_CONFIGS_def std_board_def
      relname_iff)

lemma traced_main: "traced env main_root_dir (PurePath ''build'') (main env args)"
proof -
  have mk: "traced env main_root_dir (PurePath ''build'')
      (for_each (dir_structure main_root_dir SUPPORTED_BOARDS SUPPORTED_CONFIGS) (mkdir env))"
    by (rule traced_for_each, rule traced_mkdir, rule disjI1)
       (rule dir_structure_within[OF plain_catalog])
  have lic: "traced env main_root_dir (PurePath ''build'')
      (copy_tree env (PurePath ''LICENSES'') (pjoin main_root_dir ''LICENSES''))"
    by (rule traced_copy_tree) simp
  have tool: "pjoins main_root_dir [''bin'', ''microkit''] = tool_path main_root_dir"
    by (simp add: tool_path_def)
  show ?thesis
    unfolding main_def Let_def tool
    by (intro mk lic traced_license traced_build_matrix plain_catalog traced_build_doc
          traced_test_tool traced_build_tool traced_if traced_return traced_raise
          traced_exists traced_lift traced_bind)
qed

section \<open>The traces of runs\<close>

lemma basename_license [simp]: "basename (Path Relative [''LICENSE.md'']) = ''LICENSE.md''"
  by (simp add: basename_def)

lemma reach_log:
  "reach env root build s s' \<Longrightarrow> \<exists>es. log s' = log s @ es \<and> trace_ok root es"
proof (induction rule: reach.induct)
  case (reach_refl s)
  show ?case by (simp add: trace_nil)
next
  case (reach_mkdir s s1 p s2)
  then obtain es where es: "log s1 = log s @ es" "trace_ok root es" by blast
  from mkdir_result[OF reach_mkdir(3)] have "log s2 = log s1 @ [Mkdir p]" by auto
  with es have "log s2 = log s @ (es @ [Mkdir p])" by simp
  with trace_mkdir[OF es(2)] show ?case by blast
next
  case (reach_system s s1 cmd s2)
  then obtain es where es: "log s1 = log s @ es" "trace_ok root es" by blast
  from reach_system(2) have "log s2 = log s1 @ [System cmd 0]"
    by (auto simp: system_result)
  with es have "log s2 = log s @ (es @ [System cmd 0])" by simp
  with trace_system[OF es(2)] show ?case by blast
next
  case (reach_stage s s1 d src s2)
  then obtain es where es: "log s1 = log s @ es" "trace_ok root es" by blast
  from stage_result[OF reach_stage(3)] have "log s2 = log s1 @ [Unlink d, Copy src d, Chmod d 292]"
    by auto
  with es have "log s2 = log s @ (es @ [Unlink d, Copy src d, Chmod d 292])" by simp
  with trace_stage[OF es(2) reach_stage(2)] show ?case by blast
next
  case (reach_license s s1 s2)
  then obtain es where es: "log s1 = log s @ es" "trace_ok root es" by blast
  from copy_result[OF reach_license(2)] obtain d where
    d: "d = root \<or> d = pjoin root ''LICENSE.md''"
    and l: "log s2 = log s1 @ [Copy (PurePath ''LICENSE.md'') d]"
    by (auto split: if_splits)
  from l es have "log s2 = log s @ (es @ [Copy (PurePath ''LICENSE.md'') d])" by simp
  with trace_license[OF es(2) d] show ?case by blast
next
  case (reach_tool s s1 src s2)
  then obtain es where es: "log s1 = log s @ es" "trace_ok root es" by blast
  from tool_result[OF reach_tool(3)] reach_tool(2) obtain d where
    d: "d = tool_path root \<or> d = pjoin (tool_path root) ''microkit''"
    and l: "log s2 = log s1 @ [Copy src d, Chmod (tool_path root) 511]"
    by auto
  from l es have "log s2 = log s @ (es @ [Copy src d, Chmod (tool_path root) 511])" by simp
  with trace_tool[OF es(2) d] show ?case by blast
qed

lemma halted_log:
  assumes "halted env root s s'"
  shows "\<exists>tail. log s' = log s @ tail \<and> trace_end root tail"
proof -
  from assms consider "s' = s"
    | cmd r where "r \<noteq> 0" "system env cmd s = (Inr r, s')"
    | d where "staged_dest root d" "unlink env d s = (Inr (), s')"
    | src where "basename src = ''microkit''" "copy env src (tool_path root) s = (Inr (), s')"
    unfolding halted_def by blast
  then show ?thesis
  proof cases
    case 1
    then show ?thesis by (simp add: trace_end_def)
  next
    case 2
    then have "log s' = log s @ [System cmd r]" by (auto simp: system_result)
    with 2(1) show ?thesis unfolding trace_end_def by blast
  next
    case 3
    from unlink_result[OF 3(2)] have "log s' = log s @ [Unlink d]" by auto
    with 3(1) show ?thesis unfolding trace_end_def by blast
  next
    case 4
    from copy_result[OF 4(2)] 4(1) obtain d where
      "d = tool_path root \<or> d = pjoin (tool_path root) ''microkit''"
      "log s' = log s @ [Copy src d]"
      by (auto split: if_splits)
    then show ?thesis unfolding trace_end_def by blast
  qed
qed

lemma traced_log:
  assumes "traced env root build m" and "m s = (r, s')"
  shows "\<exists>es tail. log s' = log s @ es @ tail \<and> trace_ok root es \<and> trace_end root tail \<and>
           (tail \<noteq> [] \<longrightarrow> isl r)"
proof (cases r)
  case (Inr x)
  with assms have "reach env root build s s'" by (auto dest: tracedD_ok)
  from reach_log[OF this] obtain es where "log s' = log s @ es" "trace_ok root es" by blast
  then have "log s' = log s @ es @ [] \<and> trace_ok root es \<and> trace_end root [] \<and>
      ([] \<noteq> ([]::event list) \<longrightarrow> isl r)"
    by (simp add: trace_end_def)
  then show ?thesis by blast
next
  case (Inl e)
  with assms obtain s1 where "reach env root build s s1" "halted env root s1 s'"
    by (auto dest: tracedD_fail)
  with reach_log[of env root build s s1] halted_log[of env root s1 s'] obtain es tail where
    "log s1 = log s @ es" "trace_ok root es" "log s' = log s1 @ tail" "trace_end root tail"
    by blast
  with Inl have "log s' = log s @ es @ tail \<and> trace_ok root es \<and> trace_end root tail \<and>
      (tail \<noteq> [] \<longrightarrow> isl r)"
    by simp
  then show ?thesis by blast
qed

lemma nth_append_left: "j < length es \<Longrightarrow> (es @ xs) ! j = es ! j"
  by (simp add: nth_append)

lemma staged_unlink_at_append:
  "staged_unlink_at root es i \<Longrightarrow> i < length es \<Longrightarrow> staged_unlink_at root (es @ xs) i"
  unfolding staged_unlink_at_def by (auto simp: nth_append)

lemma staged_copy_at_append:
  "staged_copy_at root es i \<Longrightarrow> i < length es \<Longrightarrow> staged_copy_at root (es @ xs) i"
  unfolding staged_copy_at_def by (auto simp: nth_append)

lemma staged_chmod_at_append:
  "staged_chmod_at root es i \<Longrightarrow> i < length es \<Longrightarrow> staged_chmod_at root (es @ xs) i"
  unfolding staged_chmod_at_def by (auto simp: nth_append)

lemma license_copy_at_append:
  "license_copy_at root es i \<Longrightarrow> i < length es \<Longrightarrow> license_copy_at root (es @ xs) i"
  unfolding license_copy_at_def by (auto simp: nth_append)

lemma tool_copy_at_append:
  "tool_copy_at root es i \<Longrightarrow> i < length es \<Longrightarrow> tool_copy_at root (es @ xs) i"
  unfolding tool_copy_at_def by (auto simp: nth_append)

lemma tool_chmod_at_append:
  "tool_chmod_at root es i \<Longrightarrow> i < length es \<Longrightarrow> tool_chmod_at root (es @ xs) i"
  unfolding tool_chmod_at_def by (auto simp: nth_append)

lemma placed_append:
  assumes "placed root es i" and "i < length es"
  shows "placed root (es @ xs) i"
  using assms unfolding placed_def
  by (auto simp: nth_append_left dest: staged_unlink_at_append staged_copy_at_append
      staged_chmod_at_append license_copy_at_append tool_copy_at_append tool_chmod_at_append)

lemma nth_block:
  "(es @ xs) ! (length es) = xs ! 0"
  "(es @ xs) ! Suc (length es) = xs ! 1"
  "(es @ xs) ! Suc (Suc (length es)) = xs ! 2"
  by (simp_all add: nth_append)

lemma trace_ok_placed:
  "trace_ok root es \<Longrightarrow> i < length es \<Longrightarrow> placed root es i"
proof (induction arbitrary: i rule: trace_ok.induct)
  case trace_nil
  then show ?case by simp
next
  case (trace_mkdir es p)
  show ?case
  proof (cases "i < length es")
    case True
    with trace_mkdir show ?thesis by (simp add: placed_append)
  next
    case False
    with trace_mkdir.prems have "i = length es" by simp
    then show ?thesis by (simp add: placed_def)
  qed
next
  case (trace_system es cmd)
  show ?case
  proof (cases "i < length es")
    case True
    with trace_system show ?thesis by (simp add: placed_append)
  next
    case False
    with trace_system.prems have "i = length es" by simp
    then show ?thesis by (simp add: placed_def)
  qed
next
  case (trace_stage es d src)
  show ?case
  proof (cases "i < length es")
    case True
    with trace_stage show ?thesis by (simp add: placed_append)
  next
    case False
    with trace_stage.prems
    consider "i = length es" | "i = Suc (length es)" | "i = Suc (Suc (length es))"
      by (auto simp: less_Suc_eq)
    then show ?thesis
    proof cases
      case 1
      with trace_stage(2) have "staged_unlink_at root (es @ [Unlink d, Copy src d, Chmod d 292]) i"
        by (simp add: staged_unlink_at_def nth_append)
      then show ?thesis by (simp add: placed_def)
    next
      case 2
      with trace_stage(2) have "staged_copy_at root (es @ [Unlink d, Copy src d, Chmod d 292]) i"
        by (simp add: staged_copy_at_def nth_append)
      then show ?thesis by (simp add: placed_def)
    next
      case 3
      with trace_stage(2) have "staged_chmod_at root (es @ [Unlink d, Copy src d, Chmod d 292]) i"
        by (simp add: staged_chmod_at_def nth_append)
      then show ?thesis by (simp add: placed_def)
    qed
  qed
next
  case (trace_license es d)
  show ?case
  proof (cases "i < length es")
    case True
    with trace_license show ?thesis by (simp add: placed_append)
  next
    case False
    with trace_license.prems have "i = length es" by simp
    with trace_license(2) have "license_copy_at root (es @ [Copy (PurePath ''LICENSE.md'') d]) i"
      by (simp add: license_copy_at_def)
    then show ?thesis by (simp add: placed_def)
  qed
next
  case (trace_tool es d src)
  show ?case
  proof (cases "i < length es")
    case True
    with trace_tool show ?thesis by (simp add: placed_append)
  next
    case False
    with trace_tool.prems consider "i = length es" | "i = Suc (length es)"
      by (auto simp: less_Suc_eq)
    then show ?thesis
    proof cases
      case 1
      with trace_tool(2) have "tool_copy_at root (es @ [Copy src d, Chmod (tool_path root) 511]) i"
        by (simp add: tool_copy_at_def nth_append)
      then show ?thesis by (simp add: placed_def)
    next
      case 2
      with trace_tool(2) have "tool_chmod_at root (es @ [Copy src d, Chmod (tool_path root) 511]) i"
        by (auto simp: tool_chmod_at_def nth_append)
      then show ?thesis by (simp add: placed_def)
    qed
  qed
qed

text \<open>Destinations that are not staged destinations.\<close>

lemma not_prefix_append: "ys \<noteq> [] \<Longrightarrow> \<not> prefix (xs @ ys) xs"
  by (auto simp: prefix_def)

lemma not_staged:
  "\<not> staged_dest root root"
  "\<not> staged_dest root (pjoin root ''LICENSE.md'')"
  "\<not> staged_dest root (tool_path root)"
  "\<not> staged_dest root (pjoin (tool_path root) ''microkit'')"
  by (simp_all add: staged_dest_def below_def strict_prefix_def not_prefix_append tool_path_def)

text \<open>The trace of a run of \<^verbatim>\<open>main\<close> from an empty trace.\<close>

lemma traced_trace:
  assumes "traced env root build m" and "m s = (r, s')" and "log s = []"
  shows "\<exists>es tail. log s' = es @ tail \<and> (\<forall>i<length es. placed root (log s') i) \<and>
           trace_end root tail \<and> (tail \<noteq> [] \<longrightarrow> isl r)"
proof -
  from traced_log[OF assms(1,2)] assms(3) obtain es tail where
    l: "log s' = es @ tail" and t: "trace_ok root es" "trace_end root tail" "tail \<noteq> [] \<longrightarrow> isl r"
    by auto
  have "\<forall>i<length es. placed root (log s') i"
    unfolding l using trace_ok_placed[OF t(1)] by (simp add: placed_append)
  with l t show ?thesis by blast
qed

section \<open>What the programs add to the trace\<close>

lemma emitsI:
  assumes "\<And>s r s'. m s = (r, s') \<Longrightarrow> \<exists>es. log s' = log s @ es \<and> P r es"
  shows "emits m P"
  using assms unfolding emits_def by blast

lemma emitsD: "emits m P \<Longrightarrow> m s = (r, s') \<Longrightarrow> \<exists>es. log s' = log s @ es \<and> P r es"
  unfolding emits_def by blast

lemma emits_weaken: "emits m P \<Longrightarrow> (\<And>r es. P r es \<Longrightarrow> Q r es) \<Longrightarrow> emits m Q"
  unfolding emits_def by blast

lemma emits_seq:
  assumes m: "emits m P" and k: "\<And>x. emits (k x) Q"
    and fail: "\<And>e es. P (Inl e) es \<Longrightarrow> R (Inl e) es"
    and ok: "\<And>x es1 r es2. P (Inr x) es1 \<Longrightarrow> Q r es2 \<Longrightarrow> R r (es1 @ es2)"
  shows "emits (bind m k) R"
proof (rule emitsI)
  fix s r s' assume "bind m k s = (r, s')"
  then show "\<exists>es. log s' = log s @ es \<and> R r es"
  proof (cases rule: bind_cases)
    case (fail e)
    from emitsD[OF m fail(1)] obtain es where "log s' = log s @ es" "P (Inl e) es" by blast
    with assms(3) fail(2) show ?thesis by blast
  next
    case (ok x s1)
    from emitsD[OF m ok(1)] obtain es1 where 1: "log s1 = log s @ es1" "P (Inr x) es1" by blast
    from emitsD[OF k ok(2)] obtain es2 where 2: "log s' = log s1 @ es2" "Q r es2" by blast
    from 1 2 have "log s' = log s @ (es1 @ es2)" by simp
    with assms(4)[OF 1(2) 2(2)] show ?thesis by blast
  qed
qed

text \<open>What each operation adds.\<close>

lemma emits_pure:
  assumes "\<And>s r s'. m s = (r, s') \<Longrightarrow> s' = s"
  shows "emits m (\<lambda>r es. es = [])"
  by (rule emitsI) (auto dest: assms)

lemma emits_mkdir: "emits (mkdir env p) (\<lambda>r es. es = [] \<or> es = [Mkdir p])"
  by (rule emitsI) (auto dest: mkdir_result)

lemma emits_unlink: "emits (unlink env p) (\<lambda>r es. es = [] \<or> es = [Unlink p])"
  by (rule emitsI) (auto dest: unlink_result)

lemma emits_chmod: "emits (chmod env p m) (\<lambda>r es. es = [] \<or> es = [Chmod p m])"
  by (rule emitsI) (auto dest: chmod_result)

lemma emits_copy: "emits (copy env src dst) (\<lambda>r es. es = [] \<or> (\<exists>d. es = [Copy src d]))"
  by (rule emitsI) (auto dest: copy_result)

lemma emits_system: "emits (system env cmd) (\<lambda>r es. \<exists>st. r = Inr st \<and> es = [System cmd st])"
  by (rule emitsI) (auto simp: system_result)

subsection \<open>Programs that run no command\<close>

lemma commands_append [simp]: "commands (xs @ ys) = commands xs @ commands ys"
  by (simp add: commands_def)

lemma commands_simps [simp]:
  "commands [] = []"
  "commands (Mkdir p # es) = commands es"
  "commands (Unlink p # es) = commands es"
  "commands (Copy a b # es) = commands es"
  "commands (Chmod p m # es) = commands es"
  "commands (System cmd st # es) = cmd # commands es"
  by (simp_all add: commands_def)

lemma commands_Nil_iff: "commands es = [] \<longleftrightarrow> (\<forall>cmd st. System cmd st \<notin> set es)"
proof (induction es)
  case Nil
  then show ?case by simp
next
  case (Cons e es)
  then show ?case by (cases e) auto
qed

lemma silent_pure:
  assumes "\<And>s r s'. m s = (r, s') \<Longrightarrow> s' = s"
  shows "silent m"
proof -
  have "emits m (\<lambda>r es. es = [])" by (rule emits_pure) (rule assms)
  then show ?thesis
    unfolding silent_def emits_def by fastforce
qed

lemma silent_return [simp]: "silent (return x)"
  by (rule silent_pure) simp

lemma silent_raise [simp]: "silent (raise e)"
  by (rule silent_pure) simp

lemma silent_lift [simp]: "silent (lift v)"
  by (rule silent_pure) (simp add: lift_eq)

lemma silent_exists [simp]: "silent (exists env p)"
  by (rule silent_pure) (auto simp: exists_def)

lemma silent_is_file [simp]: "silent (is_file env p)"
  by (rule silent_pure) (auto simp: is_file_def)

lemma silent_rglob [simp]: "silent (rglob env p)"
  by (rule silent_pure) (auto dest: rglob_result)

lemma silent_mkdir [simp]: "silent (mkdir env p)"
  unfolding silent_def by (rule emits_weaken[OF emits_mkdir]) auto

lemma silent_unlink [simp]: "silent (unlink env p)"
  unfolding silent_def by (rule emits_weaken[OF emits_unlink]) auto

lemma silent_chmod [simp]: "silent (chmod env p m)"
  unfolding silent_def by (rule emits_weaken[OF emits_chmod]) auto

lemma silent_copy [simp]: "silent (copy env src dst)"
  unfolding silent_def by (rule emits_weaken[OF emits_copy]) auto

lemma silent_bind:
  assumes "silent m" and "\<And>x. silent (k x)"
  shows "silent (bind m k)"
  unfolding silent_def
  by (rule emits_seq[OF assms(1)[unfolded silent_def] assms(2)[unfolded silent_def]]) simp_all

lemma silent_if: "(c \<Longrightarrow> silent m) \<Longrightarrow> (\<not> c \<Longrightarrow> silent n) \<Longrightarrow> silent (if c then m else n)"
  by simp

lemma silent_for_each:
  assumes "\<And>x. x \<in> set xs \<Longrightarrow> silent (body x)"
  shows "silent (for_each xs body)"
  using assms by (induction xs) (auto intro: silent_bind)

lemma silent_copy_tree: "silent (copy_tree env sd inc)"
  unfolding copy_tree_def Let_def
  by (intro silent_bind silent_for_each silent_if silent_return silent_rglob silent_is_file
        silent_lift silent_mkdir silent_unlink silent_copy silent_chmod)

subsection \<open>A failed command is the last event\<close>

lemma failure_last_silent: "commands es = [] \<Longrightarrow> failure_last r es"
  unfolding failure_last_def commands_Nil_iff by (metis nth_mem)

lemma failure_last_append:
  assumes "failure_last (Inr x) es1" and "failure_last r es2"
  shows "failure_last r (es1 @ es2)"
  unfolding failure_last_def
proof (intro allI impI)
  fix i cmd st
  assume a: "i < length (es1 @ es2) \<and> (es1 @ es2) ! i = System cmd st \<and> st \<noteq> 0"
  show "isl r \<and> Suc i = length (es1 @ es2)"
  proof (cases "i < length es1")
    case True
    with a have "es1 ! i = System cmd st" by (simp add: nth_append)
    with True a assms(1) show ?thesis unfolding failure_last_def by fastforce
  next
    case False
    with a have "i - length es1 < length es2" "es2 ! (i - length es1) = System cmd st"
      by (auto simp: nth_append)
    with a assms(2) have "isl r \<and> Suc (i - length es1) = length es2"
      unfolding failure_last_def by blast
    with False show ?thesis by auto
  qed
qed

lemma fl_silent: "silent m \<Longrightarrow> emits m failure_last"
  unfolding silent_def by (erule emits_weaken) (rule failure_last_silent)

lemma fl_bind:
  assumes "emits m failure_last" and "\<And>x. emits (k x) failure_last"
  shows "emits (bind m k) failure_last"
proof (rule emits_seq[OF assms])
  fix e es assume "failure_last (Inl e :: error + 'a) es"
  then show "failure_last (Inl e :: error + 'b) es" by (simp add: failure_last_def)
next
  fix x es1 r es2
  assume "failure_last (Inr x :: error + 'a) es1" "failure_last (r :: error + 'b) es2"
  then show "failure_last r (es1 @ es2)" by (rule failure_last_append)
qed

lemma fl_system_if:
  assumes "emits k failure_last"
  shows "emits (bind (system env cmd) (\<lambda>r. if r \<noteq> 0 then raise e else k)) failure_last"
proof (rule emitsI)
  fix s r s'
  assume "bind (system env cmd) (\<lambda>r. if r \<noteq> 0 then raise e else k) s = (r, s')"
  then show "\<exists>es. log s' = log s @ es \<and> failure_last r es"
  proof (cases rule: bind_cases)
    case (fail e')
    then show ?thesis by (simp add: system_result)
  next
    case (ok st s1)
    then have l1: "log s1 = log s @ [System cmd st]" by (auto simp: system_result)
    show ?thesis
    proof (cases "st = 0")
      case True
      with ok have "k s1 = (r, s')" by simp
      from emitsD[OF assms this] obtain es2 where 2: "log s' = log s1 @ es2" "failure_last r es2"
        by blast
      have "failure_last (Inr ()) [System cmd 0]"
        by (auto simp: failure_last_def nth_Cons' split: if_splits)
      from failure_last_append[OF this 2(2)] 2(1) l1 True show ?thesis by auto
    next
      case False
      with ok have "r = Inl e" "s' = s1" by auto
      with l1 show ?thesis by (auto simp: failure_last_def)
    qed
  qed
qed

lemma fl_system_assert_then:
  assumes "emits (k ()) failure_last"
  shows "emits (bind (system env cmd) (\<lambda>r. bind (assert (r = 0)) k)) failure_last"
  unfolding system_assert_eq by (rule fl_system_if[OF assms])

lemma fl_system_assert:
  "emits (bind (system env cmd) (\<lambda>r. assert (r = 0))) failure_last"
proof -
  have "bind (system env cmd) (\<lambda>r. assert (r = 0)) =
        bind (system env cmd) (\<lambda>r. if r \<noteq> 0 then raise AssertionError else return ())"
    by (rule arg_cong[where f = "bind (system env cmd)"]) (auto simp: assert_def fun_eq_iff)
  then show ?thesis by (simp add: fl_system_if fl_silent)
qed

lemma fl_if:
  "(c \<Longrightarrow> emits m failure_last) \<Longrightarrow> (\<not> c \<Longrightarrow> emits n failure_last) \<Longrightarrow>
   emits (if c then m else n) failure_last"
  by simp

lemma fl_for_each:
  assumes "\<And>x. x \<in> set xs \<Longrightarrow> emits (body x) failure_last"
  shows "emits (for_each xs body) failure_last"
  using assms by (induction xs) (auto intro: fl_bind fl_silent)

lemmas fl_leaves =
  fl_silent[OF silent_return] fl_silent[OF silent_raise] fl_silent[OF silent_lift]
  fl_silent[OF silent_exists] fl_silent[OF silent_mkdir] fl_silent[OF silent_unlink]
  fl_silent[OF silent_copy] fl_silent[OF silent_chmod] fl_silent[OF silent_copy_tree]

lemma fl_build_sel4: "emits (build_sel4 env sel4_dir root build board config) failure_last"
  unfolding build_sel4_def Let_def
  by (intro fl_system_if fl_leaves fl_for_each fl_bind)

lemma fl_build_elf_component:
  "emits (build_elf_component env component_name root build board config defines) failure_last"
  unfolding build_elf_component_def Let_def
  by (intro fl_system_if fl_leaves fl_bind)

lemma fl_build_lib_component:
  "emits (build_lib_component env component_name root build board config) failure_last"
  unfolding build_lib_component_def Let_def
  by (intro fl_system_if fl_leaves fl_bind)

lemma fl_build_cell: "emits (build_cell env sel4_dir root build board config) failure_last"
  unfolding build_cell_def Let_def
  by (intro fl_build_sel4 fl_build_elf_component fl_build_lib_component fl_bind)

lemma fl_build_matrix:
  "emits (build_matrix env sel4_dir root build boards configs) failure_last"
  unfolding build_matrix_def
  by (intro fl_for_each fl_bind fl_build_cell) (simp add: split_def Let_def fl_leaves)

lemma fl_main: "emits (main env args) failure_last"
  unfolding main_def Let_def test_tool_def build_tool_def build_doc_def
  by (intro fl_system_assert_then fl_system_assert fl_build_matrix fl_for_each fl_if fl_leaves
        fl_bind)

subsection \<open>All commands of a stage run before anything is staged\<close>

lemma commands_first_silent: "commands es = [] \<Longrightarrow> commands_first r es"
  unfolding commands_first_def commands_Nil_iff by (metis nth_mem)

lemma commands_first_append:
  assumes "\<forall>e\<in>set es1. build_event e" and "commands_first r es2"
  shows "commands_first r' (es1 @ es2)"
  unfolding commands_first_def
proof (intro allI impI)
  fix i j cmd st
  assume a: "i < j \<and> j < length (es1 @ es2) \<and> (es1 @ es2) ! j = System cmd st"
  show "build_event ((es1 @ es2) ! i)"
  proof (cases "i < length es1")
    case True
    with assms(1) show ?thesis by (simp add: nth_append)
  next
    case False
    with a have "i - length es1 < j - length es1" "j - length es1 < length es2"
      "es2 ! (j - length es1) = System cmd st"
      by (auto simp: nth_append)
    with assms(2) have "build_event (es2 ! (i - length es1))"
      unfolding commands_first_def by blast
    with False show ?thesis by (simp add: nth_append)
  qed
qed

lemma cf_silent: "silent m \<Longrightarrow> emits m commands_first"
  unfolding silent_def by (erule emits_weaken) (rule commands_first_silent)

lemma builds_mkdir: "builds (mkdir env p)"
  unfolding builds_def by (rule emits_weaken[OF emits_mkdir]) (auto simp: build_event_def)

lemma builds_system: "builds (system env cmd)"
  unfolding builds_def by (rule emits_weaken[OF emits_system]) (auto simp: build_event_def)

lemma builds_lift: "builds (lift v)"
  unfolding builds_def emits_def by (auto simp: lift_eq)

lemma cf_bind:
  assumes "builds m" and "\<And>x. emits (k x) commands_first"
  shows "emits (bind m k) commands_first"
proof (rule emits_seq[OF assms(1)[unfolded builds_def] assms(2)])
  fix e es assume "\<forall>e\<in>set es. build_event e"
  then show "commands_first (Inl e) es"
    unfolding commands_first_def by (metis nth_mem order_less_trans)
next
  fix x es1 r es2
  assume "\<forall>e\<in>set es1. build_event e" "commands_first r es2"
  then show "commands_first r (es1 @ es2)" by (rule commands_first_append)
qed

lemma cf_if:
  "(c \<Longrightarrow> emits m commands_first) \<Longrightarrow> (\<not> c \<Longrightarrow> emits n commands_first) \<Longrightarrow>
   emits (if c then m else n) commands_first"
  by simp

lemma cf_build_elf_component:
  "emits (build_elf_component env component_name root build board config defines) commands_first"
proof -
  have s: "silent (bind (unlink env d) (\<lambda>_. bind (copy env src d) (\<lambda>_. chmod env d 292)))" for d src
    by (intro silent_bind silent_unlink silent_copy silent_chmod)
  show ?thesis
    unfolding build_elf_component_def Let_def
    by (intro cf_bind builds_mkdir builds_system cf_if cf_silent[OF silent_raise] cf_silent[OF s])
qed

lemma cf_build_lib_component:
  "emits (build_lib_component env component_name root build board config) commands_first"
proof -
  have s: "silent (bind (unlink env d) (\<lambda>_. bind (copy env src d) (\<lambda>_. bind (chmod env d 292) (\<lambda>_.
             bind (unlink env d') (\<lambda>_. bind (copy env src' d') (\<lambda>_. bind (chmod env d' 292) (\<lambda>_.
             copy_tree env sd inc)))))))" for d src d' src' sd inc
    by (intro silent_bind silent_unlink silent_copy silent_chmod silent_copy_tree)
  show ?thesis
    unfolding build_lib_component_def Let_def
    by (intro cf_bind builds_mkdir builds_system cf_if cf_silent[OF silent_raise] cf_silent[OF s])
qed

lemma cf_build_sel4:
  "emits (build_sel4 env sel4_dir root build board config) commands_first"
proof -
  have s: "silent (bind (unlink env d) (\<lambda>_. bind (copy env src d) (\<lambda>_. bind (chmod env d 292) (\<lambda>_.
             for_each xs (\<lambda>source. copy_tree env (sd source) inc)))))" for d src xs sd inc
    by (intro silent_bind silent_unlink silent_copy silent_chmod silent_for_each silent_copy_tree)
  show ?thesis
    unfolding build_sel4_def Let_def
    by (intro cf_bind builds_mkdir builds_system builds_lift cf_if cf_silent[OF silent_raise]
          cf_silent[OF s])
qed

subsection \<open>The commands a stage runs\<close>

lemma iss_raise: "emits (raise e) (issues cs)"
  by (rule emitsI) (simp add: issues_def)

lemma iss_silent: "silent m \<Longrightarrow> emits m (issues [])"
  unfolding silent_def by (erule emits_weaken) (simp add: issues_def)

lemma iss_bind_silent:
  assumes "silent m" and "\<And>x. emits (k x) (issues cs)"
  shows "emits (bind m k) (issues cs)"
  by (rule emits_seq[OF assms(1)[unfolded silent_def] assms(2)]) (simp_all add: issues_def)

lemma iss_bind:
  assumes "emits m (issues cs)" and "\<And>x. emits (k x) (issues ds)"
  shows "emits (bind m k) (issues (cs @ ds))"
  by (rule emits_seq[OF assms]) (auto simp: issues_def)

lemma iss_system_if:
  assumes "emits k (issues cs)"
  shows "emits (bind (system env cmd) (\<lambda>r. if r \<noteq> 0 then raise e else k)) (issues (cmd # cs))"
proof (rule emitsI)
  fix s r s'
  assume "bind (system env cmd) (\<lambda>r. if r \<noteq> 0 then raise e else k) s = (r, s')"
  then show "\<exists>es. log s' = log s @ es \<and> issues (cmd # cs) r es"
  proof (cases rule: bind_cases)
    case (fail e')
    then show ?thesis by (simp add: system_result)
  next
    case (ok st s1)
    then have l1: "log s1 = log s @ [System cmd st]" by (auto simp: system_result)
    show ?thesis
    proof (cases "st = 0")
      case True
      with ok have "k s1 = (r, s')" by simp
      from emitsD[OF assms this] obtain es2 where 2: "log s' = log s1 @ es2" "issues cs r es2"
        by blast
      from 2 l1 have "log s' = log s @ (System cmd st # es2)" by simp
      moreover from 2(2) have "issues (cmd # cs) r (System cmd st # es2)"
        by (simp add: issues_def)
      ultimately show ?thesis by blast
    next
      case False
      with ok have "r = Inl e" "s' = s1" by auto
      with l1 show ?thesis by (auto simp: issues_def)
    qed
  qed
qed

lemma silent_stage:
  "silent (bind (unlink env d) (\<lambda>_. bind (copy env src d) (\<lambda>_. chmod env d m)))"
  by (intro silent_bind silent_unlink silent_copy silent_chmod)

lemma iss_build_elf_component:
  "emits (build_elf_component env component_name root_dir build_dir board config defines)
     (issues
        [''BOARD='' @ name board
         @ '' BUILD_DIR='' @ str_path (absolute (cwd env)
             (pjoins build_dir [name board, cname config, component_name]))
         @ '' GCC_CPU='' @ gcc_cpu board
         @ '' SEL4_SDK='' @ str_path (absolute (cwd env)
             (pjoins root_dir [''board'', name board, cname config]))
         @ '' '' @ defines_str defines
         @ '' make  -C '' @ component_name])"
  unfolding build_elf_component_def Let_def
  apply (rule iss_bind_silent, rule silent_mkdir)
  apply (rule iss_system_if)
  apply (rule iss_silent, rule silent_stage)
  done

lemma iss_build_lib_component:
  "emits (build_lib_component env component_name root_dir build_dir board config)
     (issues
        [''BUILD_DIR='' @ str_path (absolute (cwd env)
             (pjoins build_dir [name board, cname config, component_name]))
         @ '' GCC_CPU='' @ gcc_cpu board
         @ '' SEL4_SDK='' @ str_path (absolute (cwd env)
             (pjoins root_dir [''board'', name board, cname config]))
         @ '' make -C '' @ component_name])"
  unfolding build_lib_component_def Let_def
  apply (rule iss_bind_silent, rule silent_mkdir)
  apply (rule iss_system_if)
  apply (rule iss_silent)
  apply (intro silent_bind silent_unlink silent_copy silent_chmod silent_copy_tree)
  done

lemma iss_build_sel4:
  assumes "config_str board config = Inr flags"
  shows "emits (build_sel4 env sel4_dir root_dir build_dir board config)
     (issues
        [sel4_configure_cmd env sel4_dir
           (pjoins build_dir [name board, cname config, ''sel4'', ''install''])
           (pjoins build_dir [name board, cname config, ''sel4'', ''build'']) flags,
         ''cmake --build '' @ str_path (absolute (cwd env)
             (pjoins build_dir [name board, cname config, ''sel4'', ''build''])),
         ''cmake --install '' @ str_path (absolute (cwd env)
             (pjoins build_dir [name board, cname config, ''sel4'', ''build'']))])"
  unfolding build_sel4_def Let_def assms lift_def
  apply (simp only: sum.case bind_return pjoins_Cons pjoins_Nil)
  apply (rule iss_bind_silent, rule silent_mkdir)
  apply (rule iss_bind_silent, rule silent_mkdir)
  apply (rule iss_bind_silent, rule silent_mkdir)
  apply (rule iss_system_if)
  apply (rule iss_system_if)
  apply (rule iss_system_if)
  apply (rule iss_silent)
  apply (intro silent_bind silent_unlink silent_copy silent_chmod silent_for_each
      silent_copy_tree)
  done

lemma defines_str_simps [simp]:
  "defines_str [] = []"
  "defines_str [(k, v)] = k @ ''='' @ v"
  by (simp_all add: defines_str_def)

lemma iss_build_cell:
  assumes "config_str board config = Inr flags"
  shows "emits (build_cell env sel4_dir root_dir build_dir board config)
     (issues
        [sel4_configure_cmd env sel4_dir
           (pjoins build_dir [name board, cname config, ''sel4'', ''install''])
           (pjoins build_dir [name board, cname config, ''sel4'', ''build'']) flags,
         ''cmake --build '' @ str_path (absolute (cwd env)
             (pjoins build_dir [name board, cname config, ''sel4'', ''build''])),
         ''cmake --install '' @ str_path (absolute (cwd env)
             (pjoins build_dir [name board, cname config, ''sel4'', ''build''])),
         ''BOARD='' @ name board
         @ '' BUILD_DIR='' @ str_path (absolute (cwd env)
             (pjoins build_dir [name board, cname config, ''loader'']))
         @ '' GCC_CPU='' @ gcc_cpu board
         @ '' SEL4_SDK='' @ str_path (absolute (cwd env)
             (pjoins root_dir [''board'', name board, cname config]))
         @ '' LINK_ADDRESS='' @ hex (loader_link_address board)
         @ '' make  -C loader'',
         ''BOARD='' @ name board
         @ '' BUILD_DIR='' @ str_path (absolute (cwd env)
             (pjoins build_dir [name board, cname config, ''monitor'']))
         @ '' GCC_CPU='' @ gcc_cpu board
         @ '' SEL4_SDK='' @ str_path (absolute (cwd env)
             (pjoins root_dir [''board'', name board, cname config]))
         @ ''  make  -C monitor'',
         ''BUILD_DIR='' @ str_path (absolute (cwd env)
             (pjoins build_dir [name board, cname config, ''libmicrokit'']))
         @ '' GCC_CPU='' @ gcc_cpu board
         @ '' SEL4_SDK='' @ str_path (absolute (cwd env)
             (pjoins root_dir [''board'', name board, cname config]))
         @ '' make -C libmicrokit''])"
proof -
  let ?a = "emits (build_sel4 env sel4_dir root_dir build_dir board config)"
  note a = iss_build_sel4[OF assms, of env sel4_dir root_dir build_dir]
  note b = iss_build_elf_component[of env "''loader''" root_dir build_dir board config
      "[(''LINK_ADDRESS'', hex (loader_link_address board))]"]
  note c = iss_build_elf_component[of env "''monitor''" root_dir build_dir board config "[]"]
  note d = iss_build_lib_component[of env "''libmicrokit''" root_dir build_dir board config]
  from iss_bind[OF a iss_bind[OF b iss_bind[OF c d]]]
  show ?thesis
    unfolding build_cell_def Let_def by simp
qed

section \<open>The concrete invocation\<close>

subsection \<open>Creating the directory skeleton\<close>

lemma regular_make_dirs: "is_regular (node_at (make_dirs a f) q) = is_regular (node_at f q)"
  by (simp add: node_at_make_dirs is_regular_def)

lemma blocked_make_dirs: "blocked (make_dirs a f) p = blocked f p"
  by (simp add: blocked_def regular_make_dirs)

lemma mkdirs_simps [simp]:
  "mkdirs wd [] f = f"
  "mkdirs wd (d # ds) f = mkdirs wd ds (make_dirs (absolute wd d) f)"
  by (simp_all add: mkdirs_def)

lemma regular_mkdirs: "is_regular (node_at (mkdirs wd ds f) q) = is_regular (node_at f q)"
  by (induction ds arbitrary: f) (simp_all add: regular_make_dirs)

lemma blocked_mkdirs: "blocked (mkdirs wd ds f) p = blocked f p"
  by (simp add: blocked_def regular_mkdirs)

lemma node_at_mkdirs:
  "node_at (mkdirs wd ds f) q =
     (if node_at f q = None \<and> segs q \<noteq> [] \<and>
         (\<exists>d\<in>set ds. anchor q = anchor (absolute wd d) \<and> prefix (segs q) (segs (absolute wd d)))
      then Some Dir else node_at f q)"
proof (induction ds arbitrary: f)
  case Nil
  then show ?case by simp
next
  case (Cons d ds)
  show ?case
    unfolding mkdirs_simps Cons.IH node_at_make_dirs by auto
qed

lemma for_each_mkdir:
  assumes "\<forall>d\<in>set ds. \<not> blocked (fs s) (absolute (cwd env) d) \<and>
             \<not> is_regular (node_at (fs s) (absolute (cwd env) d))"
  shows "for_each ds (mkdir env) s =
           (Inr (), \<lparr>fs = mkdirs (cwd env) ds (fs s), log = log s @ map Mkdir ds\<rparr>)"
  using assms
proof (induction ds arbitrary: s)
  case Nil
  then show ?case by simp
next
  case (Cons d ds)
  let ?s1 = "s\<lparr>fs := make_dirs (absolute (cwd env) d) (fs s), log := log s @ [Mkdir d]\<rparr>"
  from Cons.prems have 1: "mkdir env d s = (Inr (), ?s1)"
    by (simp add: mkdir_def Let_def)
  have "\<forall>d'\<in>set ds. \<not> blocked (fs ?s1) (absolute (cwd env) d') \<and>
             \<not> is_regular (node_at (fs ?s1) (absolute (cwd env) d'))"
    using Cons.prems by (simp add: blocked_make_dirs regular_make_dirs)
  from Cons.IH[OF this] 1 show ?case
    by (simp add: bind_Inr)
qed

text \<open>The paths of \<^verbatim>\<open>dir_structure\<close>.\<close>

lemma dir_structure_cases:
  assumes "plain_names boards configs" and "d \<in> set (dir_structure root boards configs)"
  shows "d = pjoin root ''doc'' \<or> d = pjoin root ''bin'' \<or> within (pjoin root ''board'') d"
  using assms
  by (auto simp: dir_structure_def plain_names_def Let_def within_pjoin)

lemma dir_structure_first:
  "pjoin root ''doc'' \<in> set (dir_structure root boards configs)"
  "pjoin root ''bin'' \<in> set (dir_structure root boards configs)"
  by (simp_all add: dir_structure_def)

lemma main_root_dir_eq: "main_root_dir = Path Relative [''release'', ''microkit-sdk-1.2.6'']"
  by (simp add: main_root_dir_def pjoin_def join_path_def PurePath_def NAME_def VERSION_def)

lemma example_cwd [simp]: "cwd example_env = Path Root [''w'']"
  by (simp add: example_env_def)

lemma regular_example:
  "is_regular (node_at example_fs q) \<longleftrightarrow>
     q = Path Root [''w'', ''LICENSE.md''] \<or>
     q = Path Root [''w'', ''LICENSES'', ''BSD-2-Clause.txt''] \<or>
     q = Path Root [''usr'', ''bin'', ''pyoxidizer''] \<or>
     q = Path Root [''w'', ''tool'', ''build'', ''x86_64-unknown-linux-musl'', ''release'',
           ''install'', ''microkit'']"
  by (auto simp: is_regular_def node_at_def example_fs_def split: if_splits)

lemma example_dirs_abs:
  assumes "d \<in> set example_dirs"
  shows "\<exists>rest. d = Path Relative (''release'' # ''microkit-sdk-1.2.6'' # rest) \<and>
           (rest = [''doc''] \<or> rest = [''bin''] \<or> (\<exists>more. rest = ''board'' # more))"
proof -
  from dir_structure_cases[OF plain_catalog assms[unfolded example_dirs_def]]
  show ?thesis
    by (cases d) (auto simp: main_root_dir_eq pjoin_def join_path_def within_def prefix_def)
qed

lemma example_dirs_free:
  assumes "d \<in> set example_dirs"
  shows "\<not> blocked example_fs (absolute (Path Root [''w'']) d) \<and>
         \<not> is_regular (node_at example_fs (absolute (Path Root [''w'']) d))"
proof -
  from example_dirs_abs[OF assms] obtain rest where
    d: "d = Path Relative (''release'' # ''microkit-sdk-1.2.6'' # rest)" by blast
  have a: "absolute (Path Root [''w'']) d = Path Root (''w'' # ''release'' # ''microkit-sdk-1.2.6'' # rest)"
    by (simp add: d absolute_def join_path_def)
  have "\<not> is_regular (node_at example_fs (Path Root (take n (''w'' # ''release'' # ''microkit-sdk-1.2.6'' # rest))))"
    for n
    by (cases n; cases "n - 1") (auto simp: regular_example take_Cons')
  moreover have "\<not> is_regular (node_at example_fs (Path Root (''w'' # ''release'' # ''microkit-sdk-1.2.6'' # rest)))"
    by (simp add: regular_example)
  ultimately show ?thesis
    unfolding a blocked_def by (simp add: list_ex_iff)
qed

lemma example_mkdirs:
  "for_each example_dirs (mkdir example_env) (init example_fs) =
     (Inr (), \<lparr>fs = example_tree, log = map Mkdir example_dirs\<rparr>)"
  using for_each_mkdir[of example_dirs "init example_fs" example_env] example_dirs_free
  by (simp add: init_def example_tree_def)

lemma regular_example_tree: "is_regular (node_at example_tree q) = is_regular (node_at example_fs q)"
  by (simp add: example_tree_def regular_mkdirs)

lemma blocked_example_tree: "blocked example_tree p = blocked example_fs p"
  by (simp add: example_tree_def blocked_mkdirs)

lemma node_example_tree_keep: "node_at example_fs q = Some n \<Longrightarrow> node_at example_tree q = Some n"
  by (simp add: example_tree_def node_at_mkdirs)

lemma example_dirs_doc_bin:
  "Path Relative [''release'', ''microkit-sdk-1.2.6'', ''doc''] \<in> set example_dirs"
  "Path Relative [''release'', ''microkit-sdk-1.2.6'', ''bin''] \<in> set example_dirs"
  using dir_structure_first[of main_root_dir SUPPORTED_BOARDS SUPPORTED_CONFIGS]
  by (simp_all add: example_dirs_def main_root_dir_eq pjoin_def join_path_def PurePath_def)

lemma node_example_tree_root:
  "node_at example_tree (Path Root [''w'', ''release'', ''microkit-sdk-1.2.6'']) = Some Dir"
proof -
  have "node_at example_fs (Path Root [''w'', ''release'', ''microkit-sdk-1.2.6'']) = None"
    by (simp add: node_at_def example_fs_def)
  moreover have "\<exists>d\<in>set example_dirs.
      anchor (Path Root [''w'', ''release'', ''microkit-sdk-1.2.6'']) = anchor (absolute (Path Root [''w'']) d) \<and>
      prefix (segs (Path Root [''w'', ''release'', ''microkit-sdk-1.2.6''])) (segs (absolute (Path Root [''w'']) d))"
    by (rule bexI[OF _ example_dirs_doc_bin(1)]) (simp add: absolute_def join_path_def)
  ultimately show ?thesis
    unfolding example_tree_def node_at_mkdirs by simp
qed

lemma node_example_tree_bin:
  "node_at example_tree (Path Root [''w'', ''release'', ''microkit-sdk-1.2.6'', ''bin'']) = Some Dir"
proof -
  have "node_at example_fs (Path Root [''w'', ''release'', ''microkit-sdk-1.2.6'', ''bin'']) = None"
    by (simp add: node_at_def example_fs_def)
  moreover have "\<exists>d\<in>set example_dirs.
      anchor (Path Root [''w'', ''release'', ''microkit-sdk-1.2.6'', ''bin'']) = anchor (absolute (Path Root [''w'']) d) \<and>
      prefix (segs (Path Root [''w'', ''release'', ''microkit-sdk-1.2.6'', ''bin''])) (segs (absolute (Path Root [''w'']) d))"
    by (rule bexI[OF _ example_dirs_doc_bin(2)]) (simp add: absolute_def join_path_def)
  ultimately show ?thesis
    unfolding example_tree_def node_at_mkdirs by simp
qed

lemma node_example_tree_none:
  assumes "node_at example_fs (Path Root q) = None"
    and "\<not> prefix q [''w'', ''release'', ''microkit-sdk-1.2.6'', ''doc'']"
    and "\<not> prefix q [''w'', ''release'', ''microkit-sdk-1.2.6'', ''bin'']"
    and "\<And>more. \<not> prefix q (''w'' # ''release'' # ''microkit-sdk-1.2.6'' # ''board'' # more)"
  shows "node_at example_tree (Path Root q) = None"
proof -
  have "\<not> prefix q (segs (absolute (Path Root [''w'']) d))" if "d \<in> set example_dirs" for d
    using example_dirs_abs[OF that] assms(2-4)
    by (auto simp: absolute_def join_path_def)
  with assms(1) show ?thesis
    unfolding example_tree_def node_at_mkdirs by auto
qed

lemma node_example_tree_licdst:
  "node_at example_tree (Path Root [''w'', ''release'', ''microkit-sdk-1.2.6'', ''LICENSE.md'']) = None"
  by (rule node_example_tree_none) (simp_all add: node_at_def example_fs_def)

lemma node_example_tree_licenses:
  "node_at example_tree (Path Root [''w'', ''release'', ''microkit-sdk-1.2.6'', ''LICENSES'']) = None"
  "node_at example_tree (Path Root [''w'', ''release'', ''microkit-sdk-1.2.6'', ''LICENSES'',
      ''BSD-2-Clause.txt'']) = None"
  by (rule node_example_tree_none; simp add: node_at_def example_fs_def)+

lemma node_example_tree_tool:
  "node_at example_tree (Path Root [''w'', ''release'', ''microkit-sdk-1.2.6'', ''bin'', ''microkit'']) = None"
  by (rule node_example_tree_none) (simp_all add: node_at_def example_fs_def)

lemma node_example_tree_files:
  "node_at example_tree (Path Root [''w'', ''LICENSE.md'']) = Some (File ''BSD-2-Clause'' 420)"
  "node_at example_tree (Path Root [''usr'', ''bin'', ''pyoxidizer'']) = Some (File ''pyoxidizer'' 493)"
  "node_at example_tree (Path Root [''w'', ''tool'', ''build'', ''x86_64-unknown-linux-musl'', ''release'',
         ''install'', ''microkit'']) = Some (File ''tool'' 493)"
  "node_at example_tree (Path Root [''w'', ''LICENSES'']) = Some Dir"
  "node_at example_tree (Path Root [''w'', ''LICENSES'', ''BSD-2-Clause.txt''])
     = Some (File ''Redistribution'' 420)"
  by (rule node_example_tree_keep, simp add: node_at_def example_fs_def)+

lemma node_at_update_pt:
  "segs b \<noteq> [] \<Longrightarrow> node_at (AList.update b n f) q = (if q = b then Some n else node_at f q)"
  by (simp add: node_at_update)

lemmas ev_stat = stat_def blocked_def Let_def absolute_def join_path_def node_at_update_pt
  regular_example_tree regular_example is_regular_def

lemma stat_sel4: "stat example_env (init example_fs) (Path Relative [''seL4'']) = Inr Dir"
  by (simp add: stat_def blocked_def Let_def absolute_def join_path_def init_def
      regular_example) (simp add: node_at_def example_fs_def)

lemma stat1:
  "stat example_env \<lparr>fs = example_tree, log = L\<rparr> (Path Relative [''release'', ''microkit-sdk-1.2.6'']) = Inr Dir"
  "stat example_env \<lparr>fs = example_tree, log = L\<rparr> (Path Relative [''LICENSE.md''])
     = Inr (File ''BSD-2-Clause'' 420)"
  "stat example_env \<lparr>fs = example_tree, log = L\<rparr>
     (Path Relative [''release'', ''microkit-sdk-1.2.6'', ''LICENSE.md''])
     = Inl (FileNotFoundError ''release/microkit-sdk-1.2.6/LICENSE.md'')"
  by (simp_all add: stat_def blocked_def Let_def absolute_def join_path_def regular_example_tree
      regular_example node_example_tree_root node_example_tree_files node_example_tree_licdst str_path_def)

lemma regular_example_licensed:
  "is_regular (node_at example_licensed q) \<longleftrightarrow>
     q = Path Root [''w'', ''release'', ''microkit-sdk-1.2.6'', ''LICENSE.md''] \<or>
     is_regular (node_at example_fs q)"
  by (simp add: example_licensed_def node_at_update_pt regular_example_tree) (simp add: is_regular_def)

lemma node_example_licensed:
  "q \<noteq> Path Root [''w'', ''release'', ''microkit-sdk-1.2.6'', ''LICENSE.md''] \<Longrightarrow>
     node_at example_licensed q = node_at example_tree q"
  by (simp add: example_licensed_def node_at_update_pt)

lemma pjoin_eval:
  "pjoin (Path a xs) ''LICENSE.md'' = Path a (xs @ [''LICENSE.md''])"
  "pjoin (Path a xs) ''LICENSES'' = Path a (xs @ [''LICENSES''])"
  "pjoin (Path a xs) ''bin'' = Path a (xs @ [''bin''])"
  "pjoin (Path a xs) ''doc'' = Path a (xs @ [''doc''])"
  "pjoin (Path a xs) ''microkit'' = Path a (xs @ [''microkit''])"
  "pjoin (Path a xs) ''pyoxidizer'' = Path a (xs @ [''pyoxidizer''])"
  "pjoin (Path a xs) ''microkit_user_manual.pdf'' = Path a (xs @ [''microkit_user_manual.pdf''])"
  "pjoin (Path a xs) ''BSD-2-Clause.txt'' = Path a (xs @ [''BSD-2-Clause.txt''])"
  by (simp_all add: pjoin_def join_path_def PurePath_def)

lemma step_triple:
  "lift (get_tool_target_triple (host_system example_env) (host_machine example_env)) s
     = (Inr ''x86_64-unknown-linux-musl'', s)"
  by (simp add: lift_eq get_tool_target_triple_def example_env_def)

lemma step_expanduser:
  "lift (expanduser example_env (PurePath (sel4 example_args))) s
     = (Inr (Path Relative [''seL4'']), s)"
  by (simp add: lift_eq expanduser_def example_args_def PurePath_def)

lemma step_exists_sel4:
  "exists example_env (Path Relative [''seL4'']) (init example_fs) = (Inr True, init example_fs)"
  by (simp add: exists_def stat_sel4)

lemma step_license:
  "copy example_env (PurePath ''LICENSE.md'') main_root_dir \<lparr>fs = example_tree, log = L\<rparr> =
     (Inr (), \<lparr>fs = example_licensed, log = L @ [Copy (PurePath ''LICENSE.md'') (pjoin main_root_dir ''LICENSE.md'')]\<rparr>)"
  by (simp add: copy_def main_root_dir_eq stat1 pjoin_eval Let_def parent_def writable_def
      absolute_def join_path_def example_licensed_def)

subsection \<open>Staging the license files\<close>

lemma keys_update:
  "\<not> P k \<Longrightarrow> filter P (map fst (AList.update k v f)) = filter P (map fst f)"
  by (induction f) auto

lemma keys_make_dirs:
  assumes "\<And>n. \<not> P (Path (anchor a) (take n (segs a)))"
  shows "filter P (map fst (make_dirs a f)) = filter P (map fst f)"
proof -
  have "filter P (map fst (fold (\<lambda>n f. let d = Path (anchor a) (take n (segs a))
                  in if node_at f d = None then AList.update d Dir f else f) ns f))
      = filter P (map fst f)" for ns
    by (induction ns arbitrary: f) (simp_all add: Let_def keys_update assms)
  then show ?thesis by (simp add: make_dirs_def)
qed

lemma keys_mkdirs:
  assumes "\<And>d n. d \<in> set ds \<Longrightarrow>
     \<not> P (Path (anchor (absolute wd d)) (take n (segs (absolute wd d))))"
  shows "filter P (map fst (mkdirs wd ds f)) = filter P (map fst f)"
  using assms by (induction ds arbitrary: f) (simp_all add: keys_make_dirs)

lemma comprehension_filter:
  "concat (map (\<lambda>q. if P q then [g q] else []) xs) = map g (filter P xs)"
  by (induction xs) simp_all

lemma example_licensed_keys:
  "filter (\<lambda>q. anchor q = Root \<and> strict_prefix [''w'', ''LICENSES''] (segs q))
     (map fst example_licensed) = [Path Root [''w'', ''LICENSES'', ''BSD-2-Clause.txt'']]"
proof -
  let ?P = "\<lambda>q. anchor q = Root \<and> strict_prefix [''w'', ''LICENSES''] (segs q)"
  have dirs: "\<not> ?P (Path (anchor (absolute (Path Root [''w'']) d))
      (take n (segs (absolute (Path Root [''w'']) d))))" if "d \<in> set example_dirs" for d n
  proof -
    from example_dirs_abs[OF that] obtain rest where
      d: "d = Path Relative (''release'' # ''microkit-sdk-1.2.6'' # rest)" by blast
    show ?thesis
      by (cases n; cases "n - 1") (simp_all add: d absolute_def join_path_def take_Cons')
  qed
  have "filter ?P (map fst example_licensed) = filter ?P (map fst example_tree)"
    unfolding example_licensed_def by (rule keys_update) simp
  also have "\<dots> = filter ?P (map fst example_fs)"
    unfolding example_tree_def by (rule keys_mkdirs) (rule dirs)
  also have "\<dots> = [Path Root [''w'', ''LICENSES'', ''BSD-2-Clause.txt'']]"
    by (simp add: example_fs_def)
  finally show ?thesis .
qed

lemma stat2:
  "stat example_env \<lparr>fs = example_licensed, log = L\<rparr> (Path Relative [''LICENSES'']) = Inr Dir"
  "stat example_env \<lparr>fs = example_licensed, log = L\<rparr>
     (Path Relative [''LICENSES'', ''BSD-2-Clause.txt'']) = Inr (File ''Redistribution'' 420)"
  by (simp_all add: stat_def blocked_def Let_def absolute_def join_path_def regular_example_licensed
      regular_example node_example_licensed node_example_tree_files)

lemma step_rglob:
  "rglob example_env (Path Relative [''LICENSES'']) \<lparr>fs = example_licensed, log = L\<rparr> =
     (Inr [Path Relative [''LICENSES'', ''BSD-2-Clause.txt'']], \<lparr>fs = example_licensed, log = L\<rparr>)"
proof -
  have "remdups (filter (\<lambda>q. anchor q = Root \<and> strict_prefix [''w'', ''LICENSES''] (segs q))
     (map fst example_licensed)) = [Path Root [''w'', ''LICENSES'', ''BSD-2-Clause.txt'']]"
    unfolding example_licensed_keys by simp
  then show ?thesis
    by (simp add: rglob_def stat2 Let_def comprehension_filter absolute_def join_path_def
        remdups_filter)
qed

lemma node_example_licensed_dest:
  "node_at example_licensed (Path Root [''w'', ''release'', ''microkit-sdk-1.2.6'', ''LICENSES'']) = None"
  "node_at example_licensed (Path Root [''w'', ''release'', ''microkit-sdk-1.2.6'', ''LICENSES'',
      ''BSD-2-Clause.txt'']) = None"
  "node_at example_licensed (Path Root [''w'', ''LICENSES'', ''BSD-2-Clause.txt''])
     = Some (File ''Redistribution'' 420)"
  by (simp_all add: node_example_licensed node_example_tree_licenses node_example_tree_files)

lemma step_mkdir_licenses:
  "mkdir example_env (Path Relative [''release'', ''microkit-sdk-1.2.6'', ''LICENSES''])
     \<lparr>fs = example_licensed, log = L\<rparr> =
   (Inr (), \<lparr>fs = make_dirs (Path Root [''w'', ''release'', ''microkit-sdk-1.2.6'', ''LICENSES''])
                  example_licensed,
            log = L @ [Mkdir (Path Relative [''release'', ''microkit-sdk-1.2.6'', ''LICENSES''])]\<rparr>)"
  by (simp add: mkdir_def Let_def absolute_def join_path_def blocked_def regular_example_licensed
      regular_example)

lemma stat3:
  "stat example_env
     \<lparr>fs = make_dirs (Path Root [''w'', ''release'', ''microkit-sdk-1.2.6'', ''LICENSES''])
             example_licensed, log = L\<rparr>
     (Path Relative [''release'', ''microkit-sdk-1.2.6'', ''LICENSES'', ''BSD-2-Clause.txt''])
   = Inl (FileNotFoundError ''release/microkit-sdk-1.2.6/LICENSES/BSD-2-Clause.txt'')"
  "stat example_env
     \<lparr>fs = make_dirs (Path Root [''w'', ''release'', ''microkit-sdk-1.2.6'', ''LICENSES''])
             example_licensed, log = L\<rparr>
     (Path Relative [''LICENSES'', ''BSD-2-Clause.txt'']) = Inr (File ''Redistribution'' 420)"
  "stat example_env
     \<lparr>fs = make_dirs (Path Root [''w'', ''release'', ''microkit-sdk-1.2.6'', ''LICENSES''])
             example_licensed, log = L\<rparr>
     (Path Relative [''release'', ''microkit-sdk-1.2.6'', ''LICENSES'']) = Inr Dir"
  by (simp_all add: stat_def blocked_make_dirs Let_def absolute_def join_path_def str_path_def)
     (simp_all add: blocked_def regular_example_licensed regular_example node_at_make_dirs
      node_example_licensed_dest str_path_def)

lemma step_unlink_license:
  "unlink example_env
     (Path Relative [''release'', ''microkit-sdk-1.2.6'', ''LICENSES'', ''BSD-2-Clause.txt''])
     \<lparr>fs = make_dirs (Path Root [''w'', ''release'', ''microkit-sdk-1.2.6'', ''LICENSES''])
             example_licensed, log = L\<rparr>
   = (Inr (),
      \<lparr>fs = make_dirs (Path Root [''w'', ''release'', ''microkit-sdk-1.2.6'', ''LICENSES''])
              example_licensed,
       log = L @ [Unlink (Path Relative [''release'', ''microkit-sdk-1.2.6'', ''LICENSES'',
                    ''BSD-2-Clause.txt''])]\<rparr>)"
  by (simp add: unlink_def stat3)

lemma step_copy_license:
  "copy example_env (Path Relative [''LICENSES'', ''BSD-2-Clause.txt''])
     (Path Relative [''release'', ''microkit-sdk-1.2.6'', ''LICENSES'', ''BSD-2-Clause.txt''])
     \<lparr>fs = make_dirs (Path Root [''w'', ''release'', ''microkit-sdk-1.2.6'', ''LICENSES''])
             example_licensed, log = L\<rparr>
   = (Inr (),
      \<lparr>fs = AList.update
          (Path Root [''w'', ''release'', ''microkit-sdk-1.2.6'', ''LICENSES'', ''BSD-2-Clause.txt''])
          (File ''Redistribution'' 420)
          (make_dirs (Path Root [''w'', ''release'', ''microkit-sdk-1.2.6'', ''LICENSES''])
             example_licensed),
       log = L @ [Copy (Path Relative [''LICENSES'', ''BSD-2-Clause.txt''])
                    (Path Relative [''release'', ''microkit-sdk-1.2.6'', ''LICENSES'',
                       ''BSD-2-Clause.txt''])]\<rparr>)"
  by (simp add: copy_def stat3 Let_def parent_def absolute_def join_path_def)

lemma step_chmod_license:
  "chmod example_env
     (Path Relative [''release'', ''microkit-sdk-1.2.6'', ''LICENSES'', ''BSD-2-Clause.txt'']) 292
     \<lparr>fs = AList.update
          (Path Root [''w'', ''release'', ''microkit-sdk-1.2.6'', ''LICENSES'', ''BSD-2-Clause.txt''])
          (File ''Redistribution'' 420)
          (make_dirs (Path Root [''w'', ''release'', ''microkit-sdk-1.2.6'', ''LICENSES''])
             example_licensed), log = L\<rparr>
   = (Inr (),
      \<lparr>fs = example_staged,
       log = L @ [Chmod (Path Relative [''release'', ''microkit-sdk-1.2.6'', ''LICENSES'',
                    ''BSD-2-Clause.txt'']) 292]\<rparr>)"
proof -
  have "stat example_env
     \<lparr>fs = AList.update
          (Path Root [''w'', ''release'', ''microkit-sdk-1.2.6'', ''LICENSES'', ''BSD-2-Clause.txt''])
          (File ''Redistribution'' 420)
          (make_dirs (Path Root [''w'', ''release'', ''microkit-sdk-1.2.6'', ''LICENSES''])
             example_licensed), log = L\<rparr>
     (Path Relative [''release'', ''microkit-sdk-1.2.6'', ''LICENSES'', ''BSD-2-Clause.txt''])
     = Inr (File ''Redistribution'' 420)"
    by (simp add: stat_def blocked_def Let_def absolute_def join_path_def node_at_update_pt
        regular_make_dirs regular_example_licensed regular_example)
  then show ?thesis
    by (simp add: chmod_def absolute_def join_path_def example_staged_def)
qed

lemma step_licenses:
  "copy_tree example_env (PurePath ''LICENSES'') (pjoin main_root_dir ''LICENSES'')
     \<lparr>fs = example_licensed, log = L\<rparr> =
   (Inr (),
    \<lparr>fs = example_staged,
     log = L @
       [Mkdir (Path Relative [''release'', ''microkit-sdk-1.2.6'', ''LICENSES'']),
        Unlink (Path Relative [''release'', ''microkit-sdk-1.2.6'', ''LICENSES'', ''BSD-2-Clause.txt'']),
        Copy (Path Relative [''LICENSES'', ''BSD-2-Clause.txt''])
          (Path Relative [''release'', ''microkit-sdk-1.2.6'', ''LICENSES'', ''BSD-2-Clause.txt'']),
        Chmod (Path Relative [''release'', ''microkit-sdk-1.2.6'', ''LICENSES'', ''BSD-2-Clause.txt''])
          292]\<rparr>)"
  by (simp add: copy_tree_def bind_def step_rglob is_file_def stat2 lift_def relative_to_def
      main_root_dir_eq pjoin_eval join_path_def parent_def Let_def return_def
      step_mkdir_licenses step_unlink_license step_copy_license step_chmod_license)

subsection \<open>Building the tool and the manual\<close>

lemma regular_example_staged:
  "is_regular (node_at example_staged q) \<longleftrightarrow>
     q = Path Root [''w'', ''release'', ''microkit-sdk-1.2.6'', ''LICENSES'', ''BSD-2-Clause.txt''] \<or>
     is_regular (node_at example_licensed q)"
  by (simp add: example_staged_def node_at_update_pt regular_make_dirs) (simp add: is_regular_def)

lemma node_example_staged:
  "node_at example_staged (Path Root [''w'', ''release'', ''microkit-sdk-1.2.6'', ''bin'', ''microkit''])
     = None"
  "node_at example_staged (Path Root [''usr'', ''bin'', ''pyoxidizer'']) = Some (File ''pyoxidizer'' 493)"
  "node_at example_staged (Path Root [''w'', ''tool'', ''build'', ''x86_64-unknown-linux-musl'',
     ''release'', ''install'', ''microkit'']) = Some (File ''tool'' 493)"
  "node_at example_staged (Path Root [''w'', ''release'', ''microkit-sdk-1.2.6'', ''bin'']) = Some Dir"
  by (simp_all add: example_staged_def node_at_update_pt node_at_make_dirs node_example_licensed
      node_example_tree_tool node_example_tree_files node_example_tree_bin)

lemma stat4:
  assumes "fs s = example_staged"
  shows
    "stat example_env s (Path Relative [''release'', ''microkit-sdk-1.2.6'', ''bin'', ''microkit''])
       = Inl (FileNotFoundError ''release/microkit-sdk-1.2.6/bin/microkit'')"
    "stat example_env s (Path Root [''usr'', ''bin'', ''pyoxidizer'']) = Inr (File ''pyoxidizer'' 493)"
    "stat example_env s (Path Relative [''tool'', ''build'', ''x86_64-unknown-linux-musl'',
        ''release'', ''install'', ''microkit'']) = Inr (File ''tool'' 493)"
    "stat example_env s (Path Relative [''release'', ''microkit-sdk-1.2.6'', ''bin'']) = Inr Dir"
  by (simp_all add: assms stat_def blocked_def Let_def absolute_def join_path_def
      regular_example_staged regular_example_licensed regular_example node_example_staged
      str_path_def)

lemma regular_example_copied:
  "is_regular (node_at example_copied q) \<longleftrightarrow>
     q = Path Root [''w'', ''release'', ''microkit-sdk-1.2.6'', ''bin'', ''microkit''] \<or>
     is_regular (node_at example_staged q)"
  by (simp add: example_copied_def node_at_update_pt) (simp add: is_regular_def)

lemma stat5:
  assumes "fs s = example_copied"
  shows "stat example_env s (Path Relative [''release'', ''microkit-sdk-1.2.6'', ''bin'', ''microkit''])
       = Inr (File ''tool'' 493)"
  by (simp add: assms stat_def blocked_def Let_def absolute_def join_path_def regular_example_copied
      regular_example_staged regular_example_licensed regular_example)
     (simp add: example_copied_def node_at_update_pt)

lemma step_exists_tool:
  assumes "fs s = example_staged"
  shows "exists example_env (pjoins main_root_dir [''bin'', ''microkit'']) s = (Inr False, s)"
  by (simp add: exists_def main_root_dir_eq pjoin_eval stat4[OF assms])

lemma example_system:
  "system example_env cmd s =
     (Inr (if prefix ''pandoc'' cmd then 1 else 0),
      \<lparr>fs = fs s, log = log s @ [System cmd (if prefix ''pandoc'' cmd then 1 else 0)]\<rparr>)"
  by (simp add: system_def example_env_def)

lemma step_test_tool:
  "test_tool example_env s =
     (Inr (), \<lparr>fs = fs s, log = log s @ [System ''/usr/bin/python3 -m unittest discover -s tool -v'' 0]\<rparr>)"
  by (simp add: test_tool_def bind_def example_system assert_def)
     (simp add: example_env_def)

lemma step_copy_tool:
  "copy example_env (Path Relative [''tool'', ''build'', ''x86_64-unknown-linux-musl'', ''release'',
                  ''install'', ''microkit''])
     (Path Relative [''release'', ''microkit-sdk-1.2.6'', ''bin'', ''microkit''])
     \<lparr>fs = example_staged, log = L\<rparr>
   = (Inr (), \<lparr>fs = example_copied, log = L @
        [Copy (Path Relative [''tool'', ''build'', ''x86_64-unknown-linux-musl'', ''release'',
                 ''install'', ''microkit''])
              (Path Relative [''release'', ''microkit-sdk-1.2.6'', ''bin'', ''microkit''])]\<rparr>)"
  by (simp add: copy_def stat4 Let_def parent_def absolute_def join_path_def example_copied_def)

lemma step_chmod_tool:
  "chmod example_env (Path Relative [''release'', ''microkit-sdk-1.2.6'', ''bin'', ''microkit'']) 511
     \<lparr>fs = example_copied, log = L\<rparr>
   = (Inr (), \<lparr>fs = example_final, log = L @
        [Chmod (Path Relative [''release'', ''microkit-sdk-1.2.6'', ''bin'', ''microkit'']) 511]\<rparr>)"
  by (simp add: chmod_def stat5 absolute_def join_path_def example_final_def)

lemma step_build_tool:
  assumes "fs s = example_staged"
  shows "build_tool example_env (pjoins main_root_dir [''bin'', ''microkit''])
           ''x86_64-unknown-linux-musl'' s =
     (Inr (),
      \<lparr>fs = example_final,
       log = log s @
         [System ''/usr/bin/pyoxidizer build --release --path tool --target-triple x86_64-unknown-linux-musl'' 0,
          System ''strip ./tool/build/x86_64-unknown-linux-musl/release/install/microkit'' 0,
          Copy (Path Relative [''tool'', ''build'', ''x86_64-unknown-linux-musl'', ''release'',
                  ''install'', ''microkit''])
               (Path Relative [''release'', ''microkit-sdk-1.2.6'', ''bin'', ''microkit'']),
          Chmod (Path Relative [''release'', ''microkit-sdk-1.2.6'', ''bin'', ''microkit'']) 511]\<rparr>)"
proof -
  have py: "pjoin (ENV_BIN_DIR example_env) ''pyoxidizer'' = Path Root [''usr'', ''bin'', ''pyoxidizer'']"
    by (simp add: ENV_BIN_DIR_def example_env_def PurePath_def parent_def pjoin_eval)
  have src: "PurePath ''./tool/build/x86_64-unknown-linux-musl/release/install/microkit'' =
      Path Relative [''tool'', ''build'', ''x86_64-unknown-linux-musl'', ''release'',
                  ''install'', ''microkit'']"
    by (simp add: PurePath_def)
  have tool: "pjoins main_root_dir [''bin'', ''microkit''] =
      Path Relative [''release'', ''microkit-sdk-1.2.6'', ''bin'', ''microkit'']"
    by (simp add: main_root_dir_eq pjoin_eval)
  show ?thesis
    unfolding build_tool_def Let_def py tool
    by (simp add: bind_def exists_def stat4[OF assms] example_system assert_def return_def raise_def src assms
        step_copy_tool step_chmod_tool str_path_def)
qed

lemma step_build_doc:
  "build_doc example_env main_root_dir s =
     (Inl AssertionError,
      \<lparr>fs = fs s, log = log s @
         [System ''pandoc docs/manual.md -o release/microkit-sdk-1.2.6/doc/microkit_user_manual.pdf'' 1]\<rparr>)"
  by (simp add: build_doc_def Let_def bind_def example_system assert_def return_def raise_def main_root_dir_eq
      pjoin_eval str_path_def)

lemma example_run:
  "main example_env example_args (init example_fs) =
     (Inl AssertionError, \<lparr>fs = example_final, log = example_log\<rparr>)"
proof -
  have t: "tool_target_triple example_args = None"
    by (simp add: example_args_def)
  have paths: "PurePath ''./tool/build/x86_64-unknown-linux-musl/release/install/microkit'' =
      Path Relative [''tool'', ''build'', ''x86_64-unknown-linux-musl'', ''release'',
                  ''install'', ''microkit'']"
    "pjoins main_root_dir [''bin'', ''microkit''] =
      Path Relative [''release'', ''microkit-sdk-1.2.6'', ''bin'', ''microkit'']"
    by (simp_all add: PurePath_def main_root_dir_eq pjoin_eval)
  have b1: "bind (copy example_env (PurePath ''LICENSE.md'') main_root_dir) k
        \<lparr>fs = example_tree, log = L\<rparr> =
      k () \<lparr>fs = example_licensed,
            log = L @ [Copy (PurePath ''LICENSE.md'') (pjoin main_root_dir ''LICENSE.md'')]\<rparr>"
    for k :: "unit \<Rightarrow> unit prog" and L
    by (rule bind_Inr) (rule step_license)
  have b2: "bind (copy_tree example_env (PurePath ''LICENSES'') (pjoin main_root_dir ''LICENSES'')) k
        \<lparr>fs = example_licensed, log = L\<rparr> =
      k () \<lparr>fs = example_staged, log = L @
       [Mkdir (Path Relative [''release'', ''microkit-sdk-1.2.6'', ''LICENSES'']),
        Unlink (Path Relative [''release'', ''microkit-sdk-1.2.6'', ''LICENSES'', ''BSD-2-Clause.txt'']),
        Copy (Path Relative [''LICENSES'', ''BSD-2-Clause.txt''])
          (Path Relative [''release'', ''microkit-sdk-1.2.6'', ''LICENSES'', ''BSD-2-Clause.txt'']),
        Chmod (Path Relative [''release'', ''microkit-sdk-1.2.6'', ''LICENSES'', ''BSD-2-Clause.txt''])
          292]\<rparr>"
    for k :: "unit \<Rightarrow> unit prog" and L
    by (rule bind_Inr) (rule step_licenses)
  have b3: "bind (exists example_env (pjoins main_root_dir [''bin'', ''microkit''])) k
        \<lparr>fs = example_staged, log = L\<rparr> = k False \<lparr>fs = example_staged, log = L\<rparr>"
    for k :: "bool \<Rightarrow> unit prog" and L
    by (rule bind_Inr) (rule step_exists_tool, simp)
  have b4: "bind (test_tool example_env) k \<lparr>fs = example_staged, log = L\<rparr> =
      k () \<lparr>fs = example_staged,
            log = L @ [System ''/usr/bin/python3 -m unittest discover -s tool -v'' 0]\<rparr>"
    for k :: "unit \<Rightarrow> unit prog" and L
    using bind_Inr[where m = "test_tool example_env" and k = k,
        OF step_test_tool[where s = "\<lparr>fs = example_staged, log = L\<rparr>"]]
    by simp
  have b5: "bind (build_tool example_env (pjoins main_root_dir [''bin'', ''microkit''])
        ''x86_64-unknown-linux-musl'') k \<lparr>fs = example_staged, log = L\<rparr> =
      k () \<lparr>fs = example_final, log = L @
         [System ''/usr/bin/pyoxidizer build --release --path tool --target-triple x86_64-unknown-linux-musl'' 0,
          System ''strip ./tool/build/x86_64-unknown-linux-musl/release/install/microkit'' 0,
          Copy (Path Relative [''tool'', ''build'', ''x86_64-unknown-linux-musl'', ''release'',
                  ''install'', ''microkit''])
               (Path Relative [''release'', ''microkit-sdk-1.2.6'', ''bin'', ''microkit'']),
          Chmod (Path Relative [''release'', ''microkit-sdk-1.2.6'', ''bin'', ''microkit'']) 511]\<rparr>"
    for k :: "unit \<Rightarrow> unit prog" and L
  proof (rule bind_Inr)
    show "build_tool example_env (pjoins main_root_dir [''bin'', ''microkit''])
        ''x86_64-unknown-linux-musl'' \<lparr>fs = example_staged, log = L\<rparr> =
      (Inr (), \<lparr>fs = example_final, log = L @
         [System ''/usr/bin/pyoxidizer build --release --path tool --target-triple x86_64-unknown-linux-musl'' 0,
          System ''strip ./tool/build/x86_64-unknown-linux-musl/release/install/microkit'' 0,
          Copy (Path Relative [''tool'', ''build'', ''x86_64-unknown-linux-musl'', ''release'',
                  ''install'', ''microkit''])
               (Path Relative [''release'', ''microkit-sdk-1.2.6'', ''bin'', ''microkit'']),
          Chmod (Path Relative [''release'', ''microkit-sdk-1.2.6'', ''bin'', ''microkit'']) 511]\<rparr>)"
      using step_build_tool[where s = "\<lparr>fs = example_staged, log = L\<rparr>"] by simp
  qed
  have b6: "bind (build_doc example_env main_root_dir) k \<lparr>fs = example_final, log = L\<rparr> =
      (Inl AssertionError, \<lparr>fs = example_final, log = L @
         [System ''pandoc docs/manual.md -o release/microkit-sdk-1.2.6/doc/microkit_user_manual.pdf'' 1]\<rparr>)"
    for k :: "unit \<Rightarrow> unit prog" and L
    using bind_Inl[where m = "build_doc example_env main_root_dir" and k = k,
        OF step_build_doc[where s = "\<lparr>fs = example_final, log = L\<rparr>"]]
    by simp
  show ?thesis
    unfolding main_def Let_def example_dirs_def[symmetric] t option.case
    apply (subst bind_Inr[OF step_triple])
    apply (subst bind_Inr[OF step_expanduser])
    apply (subst bind_Inr[where s = "init example_fs"
          and m = "exists example_env (Path Relative [''seL4''])"
          and ?s1.0 = "init example_fs", OF step_exists_sel4])
    apply (simp only: not_True_eq_False if_False)
    apply (subst bind_Inr[where s = "init example_fs"
          and m = "for_each example_dirs (mkdir example_env)", OF example_mkdirs])
    apply (subst b1)
    apply (subst b2)
    apply (subst b3)
    apply (simp only: not_False_eq_True if_True bind_assoc)
    apply (subst b4)
    apply (subst b5)
    apply (subst b6)
    apply (simp add: example_log_def paths[simplified] main_root_dir_eq pjoin_eval)
    done
qed

section \<open>The commands of a matrix cell\<close>

lemmas cell_eval = eval_cfg SUPPORTED_BOARDS_def SUPPORTED_CONFIGS_def std_board_def hex_def
  sel4_configure_cmd_def TOOLCHAIN_PREFIX_def example_env_def main_root_dir_eq
  absolute_def join_path_def str_path_def pjoin_def PurePath_def





end
